(* ===== verification/Prelude.thy ===== *)
theory Prelude
  imports Main "HOL-Library.Word"
begin

text \<open>
  Shared vocabulary of the development: the widths of the program's integers, the outcome of a
  Rust call (a value, an error, or a panic), slices of byte buffers with their bounds checks,
  and the big-endian byte order of \<open>to_be_bytes\<close> and \<open>from_be_bytes\<close>, each with the lemmas
  the component theories rely on.  Fixed-size byte arrays of the code (\<open>B256\<close>, the 20 bytes of
  an address) are words of the same width, read big-endian.
\<close>

section \<open>Integers and byte arrays\<close>

type_synonym u8 = "8 word"
type_synonym u32 = "32 word"
type_synonym u64 = "64 word"
type_synonym u256 = "256 word"
type_synonym b256 = "256 word"
type_synonym bytes = "u8 list"

text \<open>
  An Ethereum address: 20 bytes.  Rust derives its order from the byte array, which is the
  numeric order of the big-endian word.
\<close>

datatype address = Address (address_word: "160 word")

instantiation address :: linorder
begin

definition less_eq_address :: "address \<Rightarrow> address \<Rightarrow> bool" where
  "less_eq_address a b \<longleftrightarrow> address_word a \<le> address_word b"

definition less_address :: "address \<Rightarrow> address \<Rightarrow> bool" where
  "less_address a b \<longleftrightarrow> address_word a < address_word b"

instance
  by standard (auto simp: less_eq_address_def less_address_def address.expand)

end

lemma address_le [simp]: "Address v \<le> Address w \<longleftrightarrow> v \<le> w"
  by (simp add: less_eq_address_def)

lemma address_less [simp]: "Address v < Address w \<longleftrightarrow> v < w"
  by (simp add: less_address_def)

section \<open>Outcomes of a Rust call\<close>

text \<open>
  \<open>Ok\<close> and \<open>Err\<close> are the constructors of \<open>Result\<close>; \<open>Panic\<close> is a call that does not return
  because an index, an \<open>unwrap\<close>, an \<open>expect\<close> or a checked arithmetic operation failed.
\<close>

datatype ('e, 'a) outcome = Ok 'a | Err 'e | Panic

primrec and_then :: "('e, 'a) outcome \<Rightarrow> ('a \<Rightarrow> ('e, 'b) outcome) \<Rightarrow> ('e, 'b) outcome" where
  "and_then (Ok a) f = f a"
| "and_then (Err e) f = Err e"
| "and_then Panic f = Panic"

primrec map_err :: "('e \<Rightarrow> 'f) \<Rightarrow> ('e, 'a) outcome \<Rightarrow> ('f, 'a) outcome" where
  "map_err g (Ok a) = Ok a"
| "map_err g (Err e) = Err (g e)"
| "map_err g Panic = Panic"

primrec unwrap :: "('e, 'a) outcome \<Rightarrow> ('f, 'a) outcome" where
  "unwrap (Ok a) = Ok a"
| "unwrap (Err e) = Panic"
| "unwrap Panic = Panic"

primrec expect :: "'a option \<Rightarrow> ('e, 'a) outcome" where
  "expect (Some a) = Ok a"
| "expect None = Panic"

primrec ok_or :: "'e \<Rightarrow> 'a option \<Rightarrow> ('e, 'a) outcome" where
  "ok_or e (Some a) = Ok a"
| "ok_or e None = Err e"

primrec is_ok :: "('e, 'a) outcome \<Rightarrow> bool" where
  "is_ok (Ok a) \<longleftrightarrow> True"
| "is_ok (Err e) \<longleftrightarrow> False"
| "is_ok Panic \<longleftrightarrow> False"

text \<open>
  \<open>outcome_simps\<close> decides which branch produced a known outcome; \<open>guard_simps\<close> collects the
  facts that turn a successful run of a component's operation into the guards it passed.
\<close>

named_theorems outcome_simps "inversion of outcomes"
named_theorems guard_simps "guards passed by a successful call"

lemma and_then_Ok_iff [outcome_simps]:
  "and_then m f = Ok b \<longleftrightarrow> (\<exists>a. m = Ok a \<and> f a = Ok b)"
  by (cases m) auto

lemma and_then_Err_iff [outcome_simps]:
  "and_then m f = Err e \<longleftrightarrow> m = Err e \<or> (\<exists>a. m = Ok a \<and> f a = Err e)"
  by (cases m) auto

lemma and_then_Panic_iff [outcome_simps]:
  "and_then m f = Panic \<longleftrightarrow> m = Panic \<or> (\<exists>a. m = Ok a \<and> f a = Panic)"
  by (cases m) auto

lemma map_err_Ok_iff [outcome_simps]: "map_err g m = Ok a \<longleftrightarrow> m = Ok a"
  by (cases m) auto

lemma map_err_Err_iff [outcome_simps]: "map_err g m = Err e \<longleftrightarrow> (\<exists>e'. m = Err e' \<and> e = g e')"
  by (cases m) auto

lemma map_err_Panic_iff [outcome_simps]: "map_err g m = Panic \<longleftrightarrow> m = Panic"
  by (cases m) auto

lemma unwrap_Ok_iff [outcome_simps]: "unwrap m = Ok a \<longleftrightarrow> m = Ok a"
  by (cases m) auto

lemma unwrap_not_Err [simp]: "unwrap m \<noteq> Err e"
  by (cases m) auto

lemma expect_Ok_iff [outcome_simps]: "expect x = Ok a \<longleftrightarrow> x = Some a"
  by (cases x) auto

lemma ok_or_Ok_iff [outcome_simps]: "ok_or e x = Ok a \<longleftrightarrow> x = Some a"
  by (cases x) auto

lemma ok_or_Err_iff [outcome_simps]: "ok_or e x = Err e' \<longleftrightarrow> x = None \<and> e' = e"
  by (cases x) auto

lemma ok_or_not_Panic [simp]: "ok_or e x \<noteq> Panic"
  by (cases x) auto

lemma case_option_guard_Ok [outcome_simps]:
  "(case x of None \<Rightarrow> Err e | Some y \<Rightarrow> f y) = Ok b \<longleftrightarrow> (\<exists>y. x = Some y \<and> f y = Ok b)"
  by (cases x) auto

lemma case_option_error_Ok [outcome_simps]:
  "(case x of None \<Rightarrow> m | Some y \<Rightarrow> Err (f y)) = Ok b \<longleftrightarrow> x = None \<and> m = Ok b"
  by (cases x) auto

lemma if_guard_Ok [outcome_simps]: "(if c then Err e else m) = Ok b \<longleftrightarrow> \<not> c \<and> m = Ok b"
  by auto

lemma if_guard_Panic [outcome_simps]: "(if c then m else Panic) = Ok b \<longleftrightarrow> c \<and> m = Ok b"
  by auto

lemma and_then_assoc: "and_then (and_then m f) g = and_then m (\<lambda>a. and_then (f a) g)"
  by (cases m) auto

lemma is_ok_iff: "is_ok m \<longleftrightarrow> (\<exists>a. m = Ok a)"
  by (cases m) auto

text \<open>
  A loop whose body may leave the function early: the state is threaded through the elements until
  one of them fails.  The loop fails exactly where its first failing element does.
\<close>

primrec try_fold :: "('s \<Rightarrow> 'a \<Rightarrow> ('e, 's) outcome) \<Rightarrow> 'a list \<Rightarrow> 's \<Rightarrow> ('e, 's) outcome" where
  "try_fold f [] s = Ok s"
| "try_fold f (x # xs) s = and_then (f s x) (try_fold f xs)"

lemma try_fold_append: "try_fold f (xs @ ys) s = and_then (try_fold f xs s) (try_fold f ys)"
proof (induction xs arbitrary: s)
  case (Cons x xs)
  show ?case by (cases "f s x") (simp_all add: Cons.IH)
qed simp

lemma try_fold_Err:
  "try_fold f xs s = Err e \<longleftrightarrow>
     (\<exists>pre x post sm. xs = pre @ x # post \<and> try_fold f pre s = Ok sm \<and> f sm x = Err e)"
proof
  show "try_fold f xs s = Err e \<Longrightarrow>
    \<exists>pre x post sm. xs = pre @ x # post \<and> try_fold f pre s = Ok sm \<and> f sm x = Err e"
  proof (induction xs arbitrary: s)
    case (Cons x xs)
    show ?case
    proof (cases "f s x")
      case (Ok s')
      with Cons obtain pre y post sm where "xs = pre @ y # post" "try_fold f pre s' = Ok sm"
        "f sm y = Err e" by force
      with Ok have "x # xs = (x # pre) @ y # post \<and> try_fold f (x # pre) s = Ok sm \<and> f sm y = Err e"
        by simp
      then show ?thesis by blast
    next
      case (Err e')
      with Cons.prems have "x # xs = [] @ x # xs \<and> try_fold f [] s = Ok s \<and> f s x = Err e"
        by simp
      then show ?thesis by blast
    qed (use Cons.prems in simp)
  qed simp
qed (auto simp: try_fold_append)

section \<open>Slices\<close>

definition slice :: "'a list \<Rightarrow> nat \<Rightarrow> nat \<Rightarrow> ('e, 'a list) outcome" where
  "slice xs a b = (if a \<le> b \<and> b \<le> length xs then Ok (take (b - a) (drop a xs)) else Panic)"

definition copy_from_slice :: "'a list \<Rightarrow> nat \<Rightarrow> nat \<Rightarrow> 'a list \<Rightarrow> ('e, 'a list) outcome" where
  "copy_from_slice buf a b src =
     (if a \<le> b \<and> b \<le> length buf \<and> length src = b - a
      then Ok (take a buf @ src @ drop b buf) else Panic)"

lemma slice_in_range:
  "a \<le> b \<Longrightarrow> b \<le> length xs \<Longrightarrow> slice xs a b = Ok (take (b - a) (drop a xs))"
  by (simp add: slice_def)

lemma slice_out_of_range: "length xs < b \<Longrightarrow> slice xs a b = Panic"
  by (simp add: slice_def)

lemma slice_append:
  "a = length xs \<Longrightarrow> b = a + length ys \<Longrightarrow> slice (xs @ ys @ zs) a b = Ok ys"
  by (simp add: slice_def)

text \<open>Filling a zeroed buffer from left to right.\<close>

lemma copy_from_slice_fill:
  assumes "a = length xs" "b = a + length src" "length src \<le> k"
  shows "copy_from_slice (xs @ replicate k z) a b src
         = Ok ((xs @ src) @ replicate (k - length src) z)"
  using assms by (simp add: copy_from_slice_def)

text \<open>Writing the first or the last byte of a zeroed tail.\<close>

lemma list_update_next:
  "length xs = n \<Longrightarrow> 0 < k \<Longrightarrow> (xs @ replicate k z)[n := c] = xs @ c # replicate (k - 1) z"
  by (cases k) (auto simp: list_update_append)

lemma list_update_last:
  "n = k - 1 \<Longrightarrow> 0 < k \<Longrightarrow> (replicate k z)[n := c] = replicate n z @ [c]"
  using replicate_add [of "k - 1" 1 z] by (auto simp: list_update_append)

text \<open>Cutting a buffer into consecutive fields of given widths.\<close>

primrec chop :: "nat list \<Rightarrow> 'a list \<Rightarrow> 'a list list" where
  "chop [] xs = []"
| "chop (n # ns) xs = take n xs # chop ns (drop n xs)"

lemma concat_chop: "length xs = sum_list ns \<Longrightarrow> concat (chop ns xs) = xs"
  by (induction ns arbitrary: xs) auto

section \<open>Big-endian bytes\<close>

primrec be_bytes :: "nat \<Rightarrow> 'a::len word \<Rightarrow> bytes" where
  "be_bytes 0 w = []"
| "be_bytes (Suc n) w = ucast (drop_bit (8 * n) w) # be_bytes n w"

definition of_be_bytes :: "bytes \<Rightarrow> 'a::len word" where
  "of_be_bytes bs = foldl (\<lambda>acc b. push_bit 8 acc + ucast b) 0 bs"

lemma length_be_bytes [simp]: "length (be_bytes n w) = n"
  by (induction n) auto

lemma be_bytes_Nil_iff [simp]: "be_bytes n w = [] \<longleftrightarrow> n = 0" "[] = be_bytes n w \<longleftrightarrow> n = 0"
  by (cases n; simp)+

lemma of_be_bytes_Nil [simp]: "of_be_bytes [] = 0"
  by (simp add: of_be_bytes_def)

lemma of_be_bytes_snoc:
  "(of_be_bytes (bs @ [b]) :: 'a::len word) = push_bit 8 (of_be_bytes bs) + ucast b"
  by (simp add: of_be_bytes_def)

lemma bit_shift_add_byte:
  "bit (push_bit 8 w + (ucast (b :: u8) :: 'a::len word)) k
   \<longleftrightarrow> k < LENGTH('a) \<and> (if k < 8 then bit b k else bit w (k - 8))"
proof -
  have "push_bit 8 w + (ucast b :: 'a word) = or (push_bit 8 w) (ucast b)"
    by (rule disjunctive_add) (auto simp: bit_simps dest: bit_imp_le_length)
  then show ?thesis
    by (auto simp: bit_simps dest: bit_imp_le_length)
qed

lemma bit_of_be_bytes:
  "bit (of_be_bytes bs :: 'a::len word) k
   \<longleftrightarrow> k < LENGTH('a) \<and> k < 8 * length bs \<and> bit (bs ! (length bs - 1 - k div 8)) (k mod 8)"
proof (induction bs arbitrary: k rule: rev_induct)
  case Nil
  then show ?case by simp
next
  case (snoc b bs)
  show ?case
  proof (cases "k < 8")
    case True
    then show ?thesis by (simp add: of_be_bytes_snoc bit_shift_add_byte)
  next
    case False
    then have k: "(k - 8) div 8 = k div 8 - 1" "(k - 8) mod 8 = k mod 8" "1 \<le> k div 8"
      by (simp_all add: le_div_geq le_mod_geq)
    have idx: "length bs - k div 8 < length bs" if "k < 8 * Suc (length bs)"
      using that False by presburger
    have bounds: "k - 8 < 8 * length bs \<longleftrightarrow> k < 8 + 8 * length bs" "k < L \<Longrightarrow> k - 8 < L" for L
      using False by linarith+
    show ?thesis
      using False k idx
      by (auto simp: bounds of_be_bytes_snoc bit_shift_add_byte snoc.IH nth_append)
  qed
qed

lemma be_bytes_nth:
  "i < n \<Longrightarrow> be_bytes n w ! i = ucast (drop_bit (8 * (n - 1 - i)) w)"
  by (induction n arbitrary: i) (auto simp: nth_Cons split: nat.splits)

lemma of_be_bytes_be_bytes:
  "(of_be_bytes (be_bytes n w) :: 'a::len word) = take_bit (8 * n) w"
proof (rule bit_word_eqI)
  fix k assume k: "k < LENGTH('a)"
  show "bit (of_be_bytes (be_bytes n w) :: 'a word) k = bit (take_bit (8 * n) w) k"
  proof (cases "k < 8 * n")
    case True
    then have i: "n - 1 - k div 8 < n" "n - 1 - (n - 1 - k div 8) = k div 8"
      by linarith+
    have "8 * (k div 8) + k mod 8 = k" by simp
    then show ?thesis using True k i
      by (simp add: bit_of_be_bytes be_bytes_nth bit_simps)
  next
    case False
    then show ?thesis by (simp add: bit_of_be_bytes bit_simps)
  qed
qed

lemma from_to_be_bytes:
  "LENGTH('a) \<le> 8 * n \<Longrightarrow> of_be_bytes (be_bytes n w) = (w :: 'a::len word)"
  by (simp add: of_be_bytes_be_bytes take_bit_word_eq_self)

lemma to_from_be_bytes:
  assumes "length bs = n" and "8 * n \<le> LENGTH('a)"
  shows "be_bytes n (of_be_bytes bs :: 'a::len word) = bs"
proof (rule nth_equalityI)
  show "length (be_bytes n (of_be_bytes bs :: 'a word)) = length bs"
    using assms(1) by simp
next
  fix i assume "i < length (be_bytes n (of_be_bytes bs :: 'a word))"
  then have i: "i < n" by simp
  show "be_bytes n (of_be_bytes bs :: 'a word) ! i = bs ! i"
  proof (rule bit_word_eqI)
    fix k assume "k < LENGTH(8)"
    then have k: "k < 8" by simp
    define m where "m = 8 * (n - 1 - i) + k"
    have m: "m div 8 = n - 1 - i" "m mod 8 = k" "m < 8 * n"
      using k i by (auto simp: m_def)
    have "bit (be_bytes n (of_be_bytes bs :: 'a word) ! i) k = bit (of_be_bytes bs :: 'a word) m"
      using k i by (simp add: be_bytes_nth bit_simps m_def)
    also have "\<dots> = bit (bs ! i) k"
      using assms m i by (simp add: bit_of_be_bytes)
    finally show "bit (be_bytes n (of_be_bytes bs :: 'a word) ! i) k = bit (bs ! i) k" .
  qed
qed

lemma be_bytes_inject:
  assumes "LENGTH('a) \<le> 8 * n"
  shows "be_bytes n v = be_bytes n w \<longleftrightarrow> v = (w :: 'a::len word)"
  by (metis assms from_to_be_bytes)

end
