(* ===== verification/Rpc_Query.thy ===== *)
theory Rpc_Query
  imports Prelude
begin

text \<open>
  \<open>golem-symbiotic-consensus-mpt/src/rpcs/mod.rs\<close>: asking one provider and falling back to the
  others, and racing all providers.  A future is its completion time and its result, or it never
  completes.  \<open>timeout\<close> (tokio) and \<open>select_ok\<close> (futures) are the fields of the record \<open>runtime\<close>;
  what their documentation promises is \<open>runtime_contract\<close>.  It is promised for futures that yield, as
  those of the RPC clients do at every request: one that blocks its thread is not interrupted by a
  timeout, and tokio may then report its value after the deadline.
\<close>

datatype ('e, 'r) future = Completes nat "('e, 'r) outcome" | Pending

text \<open>Errors are \<open>anyhow\<close> values that wrap each other.\<close>

datatype 'e query_error =
    ProviderError 'e
  | ProviderTimedOut nat
  | PrincipalFailedNoBackups
  | AllBackupsFailed "'e query_error"
  | NoProvidersAvailable
  | AllMultiplexedFailed "'e query_error"

text \<open>\<open>timeout\<close> resolves to \<open>None\<close> when the time elapsed; both report the time of completion.\<close>

record ('e, 'r) runtime =
  timeout :: "nat \<Rightarrow> ('e, 'r) future \<Rightarrow> nat \<times> ('e, 'r) outcome option"
  select_ok :: "(nat \<times> ('e query_error, 'r) outcome) list \<Rightarrow> nat \<times> ('e query_error, 'r) outcome"

section \<open>Operations\<close>

definition with_timeout ::
  "('e, 'r) runtime \<Rightarrow> nat \<Rightarrow> ('e, 'r) future \<Rightarrow> nat \<times> ('e query_error, 'r) outcome" where
  "with_timeout rt d fut =
     (case timeout rt d fut of
        (t, None) \<Rightarrow> (t, Err (ProviderTimedOut d))
      | (t, Some r) \<Rightarrow> (t, map_err ProviderError r))"

definition query_with_fallback ::
  "('e, 'r) runtime \<Rightarrow> 'p \<Rightarrow> 'p list \<Rightarrow> ('p \<Rightarrow> ('e, 'r) future) \<Rightarrow> nat
   \<Rightarrow> nat \<times> ('e query_error, 'r) outcome" where
  "query_with_fallback rt principal_provider backup_providers f timeout_duration =
     (let (t, first) = timeout rt timeout_duration (f principal_provider);
          fall_back =
            (if backup_providers = [] then (t, Err PrincipalFailedNoBackups)
             else let (t', res) = select_ok rt
                        (map (\<lambda>p. with_timeout rt timeout_duration (f p)) backup_providers)
                  in (t + t', map_err AllBackupsFailed res))
      in case first of
           Some (Ok result) \<Rightarrow> (t, Ok result)
         | Some (Err err) \<Rightarrow> fall_back
         | Some Panic \<Rightarrow> (t, Panic)
         | None \<Rightarrow> fall_back)"

definition multiplex ::
  "('e, 'r) runtime \<Rightarrow> ('p \<Rightarrow> ('e, 'r) future) \<Rightarrow> 'p list \<Rightarrow> nat
   \<Rightarrow> nat \<times> ('e query_error, 'r) outcome" where
  "multiplex rt f providers timeout_duration =
     (if providers = [] then (0, Err NoProvidersAvailable)
      else let (t, res) = select_ok rt (map (\<lambda>p. with_timeout rt timeout_duration (f p)) providers)
           in (t, map_err AllMultiplexedFailed res))"

section \<open>What the runtime promises\<close>

text \<open>
  \<open>timeout\<close> yields the value of a future that completes before the deadline and reports elapsed
  time for one that does not; at the deadline itself either may happen.  \<open>select_ok\<close> yields the
  first result that is not an error (a success, or a panic unwinding through it), or the last error
  when every future failed.
\<close>

definition timeout_contract :: "('e, 'r) runtime \<Rightarrow> bool" where
  "timeout_contract rt \<longleftrightarrow>
     (\<forall>d t r. t < d \<longrightarrow> timeout rt d (Completes t r) = (t, Some r)) \<and>
     (\<forall>d t r. d < t \<longrightarrow> timeout rt d (Completes t r) = (d, None)) \<and>
     (\<forall>d r. timeout rt d (Completes d r) \<in> {(d, Some r), (d, None)}) \<and>
     (\<forall>d. timeout rt d Pending = (d, None))"

primrec is_err :: "('e, 'a) outcome \<Rightarrow> bool" where
  "is_err (Ok a) \<longleftrightarrow> False"
| "is_err (Err e) \<longleftrightarrow> True"
| "is_err Panic \<longleftrightarrow> False"

definition selects :: "nat \<times> ('e, 'r) outcome \<Rightarrow> (nat \<times> ('e, 'r) outcome) list \<Rightarrow> bool" where
  "selects x fs \<longleftrightarrow> x \<in> set fs \<and>
     (if is_err (snd x) then \<forall>y \<in> set fs. is_err (snd y) \<and> fst y \<le> fst x
      else \<forall>y \<in> set fs. fst y < fst x \<longrightarrow> is_err (snd y))"

definition select_ok_contract :: "('e, 'r) runtime \<Rightarrow> bool" where
  "select_ok_contract rt \<longleftrightarrow> (\<forall>fs. fs \<noteq> [] \<longrightarrow> selects (select_ok rt fs) fs)"

definition runtime_contract :: "('e, 'r) runtime \<Rightarrow> bool" where
  "runtime_contract rt \<longleftrightarrow> timeout_contract rt \<and> select_ok_contract rt"

text \<open>A runtime that meets the contract: ties go to the earlier future of the list.\<close>

fun preferred :: "nat \<times> ('e, 'r) outcome \<Rightarrow> nat \<times> ('e, 'r) outcome \<Rightarrow> nat \<times> ('e, 'r) outcome" where
  "preferred (t, Err e) (t', Err e') = (if t' \<le> t then (t, Err e) else (t', Err e'))"
| "preferred (t, Err e) x = x"
| "preferred x (t', Err e') = x"
| "preferred (t, r) (t', r') = (if t \<le> t' then (t, r) else (t', r'))"

fun race :: "(nat \<times> ('e, 'r) outcome) list \<Rightarrow> nat \<times> ('e, 'r) outcome" where
  "race [] = (0, Panic)"
| "race [x] = x"
| "race (x # xs) = preferred x (race xs)"

definition ideal_timeout :: "nat \<Rightarrow> ('e, 'r) future \<Rightarrow> nat \<times> ('e, 'r) outcome option" where
  "ideal_timeout d fut =
     (case fut of Completes t r \<Rightarrow> if t \<le> d then (t, Some r) else (d, None) | Pending \<Rightarrow> (d, None))"

definition ideal_runtime :: "('e, 'r) runtime" where
  "ideal_runtime = \<lparr>timeout = ideal_timeout, select_ok = race\<rparr>"

lemma is_err_iff: "is_err r \<longleftrightarrow> (\<exists>e. r = Err e)"
  by (cases r) auto

lemma selects_no_later:
  fixes r :: 'b and res :: "('a, 'b) outcome"
  assumes "selects (t', res) fs" and "(t, Ok r) \<in> set fs"
  shows "\<not> is_err res \<and> t' \<le> t"
proof (cases "is_err res")
  case True
  with assms have "is_err (snd (t, Ok r :: ('a, 'b) outcome))"
    unfolding selects_def by fastforce
  then show ?thesis by simp
next
  case False
  with assms have "t < t' \<longrightarrow> is_err (snd (t, Ok r :: ('a, 'b) outcome))"
    unfolding selects_def by fastforce
  with False show ?thesis by simp
qed

lemma selects_preferred: "selects y ys \<Longrightarrow> selects (preferred x y) (x # ys)"
  by (cases "(x, y)" rule: preferred.cases) (auto simp: selects_def split: if_splits)

lemma selects_race: "fs \<noteq> [] \<Longrightarrow> selects (race fs) fs"
proof (induction fs rule: race.induct)
  case (3 x y ys)
  then show ?case by (simp add: selects_preferred)
qed (auto simp: selects_def)

lemma ideal_runtime_contract: "runtime_contract ideal_runtime"
  by (simp add: runtime_contract_def timeout_contract_def select_ok_contract_def selects_race
      ideal_runtime_def ideal_timeout_def)

section \<open>Queries over such a runtime\<close>

text \<open>
  What a caller may rely on, whichever way the providers are asked: a result is some provider's own
  answer, and the query is over within its budget.
\<close>

locale provider_query =
  fixes query :: "('p \<Rightarrow> ('e, 'r) future) \<Rightarrow> nat \<times> ('e query_error, 'r) outcome"
    and providers :: "'p set"
    and budget :: nat
  assumes query_answer: "query f = (t, Ok r) \<Longrightarrow> \<exists>p \<in> providers. \<exists>t'. f p = Completes t' (Ok r)"
    and query_panic: "query f = (t, Panic) \<Longrightarrow> \<exists>p \<in> providers. \<exists>t'. f p = Completes t' Panic"
    and query_budget: "fst (query f) \<le> budget"
begin

lemma query_validates:
  assumes "query f = (t, Ok r)"
    and "\<And>p t' r'. p \<in> providers \<Longrightarrow> f p = Completes t' (Ok r') \<Longrightarrow> P r'"
  shows "P r"
  using query_answer [OF assms(1)] assms(2) by blast

lemma query_no_answer_no_result:
  assumes "\<And>p t'. p \<in> providers \<Longrightarrow> f p \<noteq> Completes t' (Ok r)"
  shows "snd (query f) \<noteq> Ok r"
  using query_answer [of f] assms by (cases "query f") auto

end

locale tokio_runtime =
  fixes rt :: "('e, 'r) runtime"
  assumes contract: "runtime_contract rt"
begin

lemma timeout_before: "t < d \<Longrightarrow> timeout rt d (Completes t r) = (t, Some r)"
  and timeout_after: "d < t \<Longrightarrow> timeout rt d (Completes t r) = (d, None)"
  and timeout_at: "timeout rt d (Completes d r) = (d, Some r) \<or> timeout rt d (Completes d r) = (d, None)"
  and timeout_pending: "timeout rt d Pending = (d, None)"
  using contract by (auto simp: runtime_contract_def timeout_contract_def)

lemma timeout_cases:
  obtains (in_time) t r where "fut = Completes t r" "t \<le> d" "timeout rt d fut = (t, Some r)"
    | (elapsed) "timeout rt d fut = (d, None)"
proof (cases fut)
  case (Completes t r)
  then show ?thesis
    using timeout_before [of t d r] timeout_after [of d t r] timeout_at [of d r] that
    by (cases t d rule: linorder_cases) auto
qed (use timeout_pending that in auto)

lemma with_timeout_Ok:
  "with_timeout rt d fut = (t, Ok r) \<Longrightarrow> fut = Completes t (Ok r) \<and> t \<le> d"
  by (rule timeout_cases [of fut d]) (auto simp: with_timeout_def map_err_Ok_iff)

lemma with_timeout_Panic:
  "with_timeout rt d fut = (t, Panic) \<Longrightarrow> fut = Completes t Panic \<and> t \<le> d"
  by (rule timeout_cases [of fut d]) (auto simp: with_timeout_def map_err_Panic_iff)

lemma with_timeout_in_time: "fst (with_timeout rt d fut) \<le> d"
  by (rule timeout_cases [of fut d]) (auto simp: with_timeout_def)

lemma with_timeout_before:
  "t < d \<Longrightarrow> with_timeout rt d (Completes t r) = (t, map_err ProviderError r)"
  by (simp add: with_timeout_def timeout_before)

lemma select_ok_selects: "fs \<noteq> [] \<Longrightarrow> selects (select_ok rt fs) fs"
  using contract by (simp add: runtime_contract_def select_ok_contract_def)

lemma select_ok_member:
  assumes "ps \<noteq> []"
  obtains p where "p \<in> set ps"
    "select_ok rt (map (\<lambda>p. with_timeout rt d (f p)) ps) = with_timeout rt d (f p)"
  using assms select_ok_selects [of "map (\<lambda>p. with_timeout rt d (f p)) ps"]
  by (auto simp: selects_def)

lemma multiplex_cases:
  obtains (none) "ps = []" "multiplex rt f ps d = (0, Err NoProvidersAvailable)"
    | (some) p where "p \<in> set ps" "multiplex rt f ps d
        = map_prod id (map_err AllMultiplexedFailed) (with_timeout rt d (f p))"
proof (cases "ps = []")
  case False
  then obtain p where "p \<in> set ps"
    "select_ok rt (map (\<lambda>p. with_timeout rt d (f p)) ps) = with_timeout rt d (f p)"
    by (rule select_ok_member)
  with False that(2) show ?thesis by (auto simp: multiplex_def split: prod.splits)
qed (use that in \<open>simp add: multiplex_def\<close>)

lemma fallback_cases:
  obtains (principal) t r where "query_with_fallback rt p ps f d
        = (t, map_err ProviderError r)" "f p = Completes t r" "t \<le> d" "\<not> is_err r"
    | (no_backup) t where "ps = []" "t \<le> d"
        "query_with_fallback rt p ps f d = (t, Err PrincipalFailedNoBackups)"
    | (backup) q t where "q \<in> set ps" "t \<le> d" "query_with_fallback rt p ps f d
        = map_prod ((+) t) (map_err AllBackupsFailed) (with_timeout rt d (f q))"
proof -
  have fall_back: thesis
    if "timeout rt d (f p) = (t, x)" "t \<le> d" "x = None \<or> (\<exists>e. x = Some (Err e))" for t x
  proof (cases "ps = []")
    case True
    with that show ?thesis
      by (intro no_backup) (auto simp: query_with_fallback_def)
  next
    case False
    then obtain q where "q \<in> set ps"
      "select_ok rt (map (\<lambda>p. with_timeout rt d (f p)) ps) = with_timeout rt d (f q)"
      by (rule select_ok_member)
    with False that show ?thesis
      by (intro backup [of q t])
        (auto simp: query_with_fallback_def split: prod.splits)
  qed
  show thesis
  proof (rule timeout_cases [of "f p" d])
    fix t r assume *: "f p = Completes t r" "t \<le> d" "timeout rt d (f p) = (t, Some r)"
    show thesis
    proof (cases "is_err r")
      case True
      with * fall_back show ?thesis by (simp add: is_err_iff)
    next
      case False
      with * show ?thesis
        by (intro principal [of t r]) (auto simp: query_with_fallback_def split: outcome.splits)
    qed
  next
    assume "timeout rt d (f p) = (d, None)"
    with fall_back show thesis by blast
  qed
qed

lemma multiplex_live:
  assumes "p \<in> set ps" "f p = Completes t (Ok r)" "t < d"
    and no_panic: "\<And>q t. q \<in> set ps \<Longrightarrow> f q \<noteq> Completes t Panic"
  shows "\<exists>t' r'. multiplex rt f ps d = (t', Ok r') \<and> t' \<le> t"
proof -
  let ?fs = "map (\<lambda>p. with_timeout rt d (f p)) ps"
  from assms(1) have ps: "ps \<noteq> []" by auto
  then have sel: "selects (select_ok rt ?fs) ?fs" by (intro select_ok_selects) simp
  obtain t' res where x: "select_ok rt ?fs = (t', res)" by (cases "select_ok rt ?fs")
  have member: "(t, Ok r) \<in> set ?fs"
    using assms(1-3) with_timeout_before [of t d "Ok r"] by (force simp: image_iff)
  from selects_no_later [OF sel [unfolded x] member] have ok: "\<not> is_err res" "t' \<le> t"
    by simp_all
  from sel x obtain q where "q \<in> set ps" "with_timeout rt d (f q) = (t', res)"
    by (auto simp: selects_def)
  with no_panic have "res \<noteq> Panic" by (auto dest: with_timeout_Panic)
  with ok obtain r' where "res = Ok r'" by (cases res) auto
  with ok x ps show ?thesis by (simp add: multiplex_def)
qed

end

sublocale tokio_runtime \<subseteq> raced: provider_query "\<lambda>f. multiplex rt f ps d" "set ps" d
  for ps d
proof unfold_locales
  fix f t r
  assume "multiplex rt f ps d = (t, Ok r)"
  then show "\<exists>p \<in> set ps. \<exists>t'. f p = Completes t' (Ok r)"
    by (cases rule: multiplex_cases [of ps f d])
      (auto simp: map_prod_def outcome_simps dest: with_timeout_Ok split: prod.splits)
next
  fix f t
  assume "multiplex rt f ps d = (t, Panic)"
  then show "\<exists>p \<in> set ps. \<exists>t'. f p = Completes t' Panic"
    by (cases rule: multiplex_cases [of ps f d])
      (auto simp: map_prod_def outcome_simps dest: with_timeout_Panic split: prod.splits)
next
  fix f
  show "fst (multiplex rt f ps d) \<le> d"
    by (cases rule: multiplex_cases [of ps f d]) (auto simp: with_timeout_in_time)
qed

sublocale tokio_runtime \<subseteq> fallen_back: provider_query
  "\<lambda>f. query_with_fallback rt p ps f d" "insert p (set ps)" "2 * d"
  for p ps d
proof unfold_locales
  fix f t r
  assume "query_with_fallback rt p ps f d = (t, Ok r)"
  then show "\<exists>q \<in> insert p (set ps). \<exists>t'. f q = Completes t' (Ok r)"
    by (cases rule: fallback_cases [of p ps f d])
      (auto simp: map_prod_def outcome_simps dest: with_timeout_Ok split: prod.splits)
next
  fix f t
  assume "query_with_fallback rt p ps f d = (t, Panic)"
  then show "\<exists>q \<in> insert p (set ps). \<exists>t'. f q = Completes t' Panic"
    by (cases rule: fallback_cases [of p ps f d])
      (auto simp: map_prod_def outcome_simps dest: with_timeout_Panic split: prod.splits)
next
  fix f
  show "fst (query_with_fallback rt p ps f d) \<le> 2 * d"
  proof (cases rule: fallback_cases [of p ps f d])
    case (backup q t)
    with with_timeout_in_time [of d "f q"] show ?thesis by simp
  qed auto
qed

context tokio_runtime
begin

lemmas multiplex_answer = raced.query_answer
lemmas multiplex_panic = raced.query_panic
lemmas multiplex_budget = raced.query_budget
lemmas fallback_answer = fallen_back.query_answer
lemmas fallback_panic = fallen_back.query_panic
lemmas fallback_budget = fallen_back.query_budget

end

lemma tokio_runtime_iff: "tokio_runtime rt \<longleftrightarrow> runtime_contract rt"
  by (simp add: tokio_runtime_def)

lemmas any_runtime = tokio_runtime.multiplex_answer tokio_runtime.multiplex_panic
  tokio_runtime.fallback_answer tokio_runtime.fallback_panic

interpretation ideal: tokio_runtime ideal_runtime
  by unfold_locales (rule ideal_runtime_contract)

context tokio_runtime
begin

lemma principal_answers:
  assumes "f p = Completes t (Ok r)" and "t < d"
  shows "query_with_fallback rt p ps f d = (t, Ok r)"
  using timeout_before [OF assms(2), of "Ok r"] assms(1) by (simp add: query_with_fallback_def)

lemma backups_answer:
  assumes "\<And>t r. f p = Completes t r \<Longrightarrow> d < t \<or> is_err r"
    and "q \<in> set ps" "f q = Completes t (Ok r)" "t < d"
    and "\<And>q t. q \<in> set ps \<Longrightarrow> f q \<noteq> Completes t Panic"
  shows "\<exists>t' r'. query_with_fallback rt p ps f d = (t', Ok r') \<and> t' \<le> d + t"
proof -
  obtain t1 r1 where "multiplex rt f ps d = (t1, Ok r1)" "t1 \<le> t"
    using multiplex_live [of q ps f t r d, OF assms(2-4)] assms(5) by blast
  with assms(2) have sel: "select_ok rt (map (\<lambda>p. with_timeout rt d (f p)) ps) = (t1, Ok r1)" and "ps \<noteq> []"
    by (auto simp: multiplex_def outcome_simps split: prod.splits if_splits)
  from assms(1) timeout_cases [of "f p" d] obtain t0 x where "timeout rt d (f p) = (t0, x)" "t0 \<le> d"
    "x = None \<or> (\<exists>e. x = Some (Err e))"
    by (metis is_err_iff le_refl not_le)
  with sel \<open>ps \<noteq> []\<close> \<open>t1 \<le> t\<close> show ?thesis
    by (auto simp: query_with_fallback_def)
qed

end

section \<open>Properties\<close>

text \<open>C20: Racing providers never takes longer than the timeout, and what it returns is the answer of one
  of the providers; if some provider answers within the timeout and none panics, the race has an
  answer, no later than that provider's.\<close>

theorem multiplex_sound_and_live:
  assumes "runtime_contract rt"
  shows "fst (multiplex rt f ps d) \<le> d
    \<and> (\<forall>t r. multiplex rt f ps d = (t, Ok r) \<longrightarrow> (\<exists>p \<in> set ps. \<exists>t'. f p = Completes t' (Ok r)))
    \<and> (\<forall>p t r. p \<in> set ps \<and> f p = Completes t (Ok r) \<and> t < d \<and> (\<forall>q \<in> set ps. \<forall>t. f q \<noteq> Completes t Panic)
         \<longrightarrow> (\<exists>t' r'. multiplex rt f ps d = (t', Ok r') \<and> t' \<le> t))"
proof -
  from assms have rt: "tokio_runtime rt" by (simp add: tokio_runtime_iff)
  show ?thesis
  proof (intro conjI allI impI)
    show "fst (multiplex rt f ps d) \<le> d" by (rule tokio_runtime.multiplex_budget [OF rt])
  next
    fix t r assume "multiplex rt f ps d = (t, Ok r)"
    then show "\<exists>p \<in> set ps. \<exists>t'. f p = Completes t' (Ok r)"
      by (rule tokio_runtime.multiplex_answer [OF rt])
  next
    fix p t r
    assume "p \<in> set ps \<and> f p = Completes t (Ok r) \<and> t < d \<and> (\<forall>q \<in> set ps. \<forall>t. f q \<noteq> Completes t Panic)"
    then show "\<exists>t' r'. multiplex rt f ps d = (t', Ok r') \<and> t' \<le> t"
      by (intro tokio_runtime.multiplex_live [OF rt, of p ps f t r d]) auto
  qed
qed

definition demo_providers :: "nat \<Rightarrow> (string, nat) future" where
  "demo_providers p = (if p = 0 then Completes 2 (Err ''down'') else if p = 1 then Pending else Completes 5 (Ok 42))"

theorem multiplex_sound_and_live_witness:
  "\<exists>t r. multiplex ideal_runtime demo_providers [0, 1, 2] 20 = (t, Ok r) \<and> t \<le> 5"
proof -
  have "2 \<in> set [0, 1, 2 :: nat] \<and> demo_providers 2 = Completes 5 (Ok 42) \<and> (5 :: nat) < 20
      \<and> (\<forall>q \<in> set [0, 1, 2]. \<forall>t. demo_providers q \<noteq> Completes t Panic)"
    by (simp add: demo_providers_def)
  with multiplex_sound_and_live [OF ideal_runtime_contract, of demo_providers "[0, 1, 2]" 20]
  show ?thesis by blast
qed

text \<open>C23: A query with fallback takes at most twice the timeout and returns some provider's answer.  The
  principal's answer, when it comes within the timeout, is returned at once, whatever the backups
  would say; when the principal fails or is late, an answer of a backup within the timeout is enough.\<close>

theorem fallback_sound_and_live:
  assumes "runtime_contract rt"
  shows "fst (query_with_fallback rt p ps f d) \<le> 2 * d
    \<and> (\<forall>t r. query_with_fallback rt p ps f d = (t, Ok r)
         \<longrightarrow> (\<exists>q \<in> insert p (set ps). \<exists>t'. f q = Completes t' (Ok r)))
    \<and> (\<forall>t r. f p = Completes t (Ok r) \<and> t < d \<longrightarrow> query_with_fallback rt p ps f d = (t, Ok r))
    \<and> (\<forall>q t r. (\<forall>t0 r0. f p = Completes t0 r0 \<longrightarrow> d < t0 \<or> is_err r0) \<and> q \<in> set ps
           \<and> f q = Completes t (Ok r) \<and> t < d \<and> (\<forall>q \<in> set ps. \<forall>t. f q \<noteq> Completes t Panic)
         \<longrightarrow> (\<exists>t' r'. query_with_fallback rt p ps f d = (t', Ok r') \<and> t' \<le> d + t))"
proof -
  from assms have rt: "tokio_runtime rt" by (simp add: tokio_runtime_iff)
  show ?thesis
  proof (intro conjI allI impI)
    show "fst (query_with_fallback rt p ps f d) \<le> 2 * d" by (rule tokio_runtime.fallback_budget [OF rt])
  next
    fix t r assume "query_with_fallback rt p ps f d = (t, Ok r)"
    then show "\<exists>q \<in> insert p (set ps). \<exists>t'. f q = Completes t' (Ok r)"
      by (rule tokio_runtime.fallback_answer [OF rt])
  next
    fix t r assume "f p = Completes t (Ok r) \<and> t < d"
    then show "query_with_fallback rt p ps f d = (t, Ok r)"
      by (simp add: tokio_runtime.principal_answers [OF rt])
  next
    fix q t r
    assume "(\<forall>t0 r0. f p = Completes t0 r0 \<longrightarrow> d < t0 \<or> is_err r0) \<and> q \<in> set ps
       \<and> f q = Completes t (Ok r) \<and> t < d \<and> (\<forall>q \<in> set ps. \<forall>t. f q \<noteq> Completes t Panic)"
    then show "\<exists>t' r'. query_with_fallback rt p ps f d = (t', Ok r') \<and> t' \<le> d + t"
      by (intro tokio_runtime.backups_answer [OF rt, of f p d q ps t r]) auto
  qed
qed

theorem fallback_sound_and_live_witness:
  "query_with_fallback ideal_runtime 2 [0, 1] demo_providers 20 = (5, Ok 42)
   \<and> (\<exists>t r. query_with_fallback ideal_runtime 0 [1, 2] demo_providers 20 = (t, Ok r) \<and> t \<le> 25)"
proof
  show "query_with_fallback ideal_runtime 2 [0, 1] demo_providers 20 = (5, Ok 42)"
    by (rule fallback_sound_and_live [OF ideal_runtime_contract, of 2 "[0, 1]" demo_providers 20,
          THEN conjunct2, THEN conjunct2, THEN conjunct1, THEN spec, THEN spec, THEN mp])
      (simp add: demo_providers_def)
  have "(\<forall>t0 r0. demo_providers 0 = Completes t0 r0 \<longrightarrow> (20 :: nat) < t0 \<or> is_err r0) \<and> 2 \<in> set [1, 2 :: nat]
      \<and> demo_providers 2 = Completes 5 (Ok 42) \<and> (5 :: nat) < 20
      \<and> (\<forall>q \<in> set [1, 2]. \<forall>t. demo_providers q \<noteq> Completes t Panic)"
    by (simp add: demo_providers_def)
  then have "\<exists>t' r'. query_with_fallback ideal_runtime 0 [1, 2] demo_providers 20 = (t', Ok r') \<and> t' \<le> 20 + 5"
    by (rule fallback_sound_and_live [OF ideal_runtime_contract, of 0 "[1, 2]" demo_providers 20,
          THEN conjunct2, THEN conjunct2, THEN conjunct2, THEN spec, THEN spec, THEN spec, THEN mp])
  then show "\<exists>t r. query_with_fallback ideal_runtime 0 [1, 2] demo_providers 20 = (t, Ok r) \<and> t \<le> 25"
    by simp
qed

end
