(* ===== verification/Provider_Io.thy ===== *)
theory Provider_Io
  imports Rpc_Query
begin

text \<open>
  Asynchronous code that talks to one RPC provider.  A provider is the state of the world its client
  sees, of type \<open>'w\<close>; each call takes that state and returns an outcome with the next state, or
  \<open>None\<close> when the call never completes.  Awaiting such code from a query turns it into a future.
\<close>

type_synonym ('w, 'e, 'a) io = "'w \<Rightarrow> (('e, 'a) outcome \<times> 'w) option"

definition io_of :: "('e, 'a) outcome \<Rightarrow> ('w, 'e, 'a) io" where
  "io_of r w = Some (r, w)"

definition io_bind :: "('w, 'e, 'a) io \<Rightarrow> ('a \<Rightarrow> ('w, 'e, 'b) io) \<Rightarrow> ('w, 'e, 'b) io" where
  "io_bind m f w =
     (case m w of
        None \<Rightarrow> None
      | Some (Ok a, w') \<Rightarrow> f a w'
      | Some (Err e, w') \<Rightarrow> Some (Err e, w')
      | Some (Panic, w') \<Rightarrow> Some (Panic, w'))"

definition io_map_err :: "('e \<Rightarrow> 'f) \<Rightarrow> ('w, 'e, 'a) io \<Rightarrow> ('w, 'f, 'a) io" where
  "io_map_err g m w = map_option (map_prod (map_err g) id) (m w)"

text \<open>
  \<open>spawn_blocking(...).await??\<close>: the closure runs on another thread, so a panic in it is a join
  error, not a panic of the caller.
\<close>

definition join_blocking :: "'f \<Rightarrow> ('e \<Rightarrow> 'f) \<Rightarrow> ('e, 'a) outcome \<Rightarrow> ('f, 'a) outcome" where
  "join_blocking join_error conv r = (case r of Panic \<Rightarrow> Err join_error | _ \<Rightarrow> map_err conv r)"

lemma join_blocking_Ok [outcome_simps]: "join_blocking je conv r = Ok a \<longleftrightarrow> r = Ok a"
  by (cases r) (auto simp: join_blocking_def)

lemma join_blocking_not_Panic [simp]: "join_blocking je conv r \<noteq> Panic"
  by (cases r) (auto simp: join_blocking_def)

definition spawn_blocking :: "('w \<Rightarrow> 'w) \<Rightarrow> 'f \<Rightarrow> ('e \<Rightarrow> 'f) \<Rightarrow> ('e, 'a) outcome \<Rightarrow> ('w, 'f, 'a) io" where
  "spawn_blocking run join_error conv r w =
     Some (join_blocking join_error conv r, run w)"

definition future_of :: "('w \<Rightarrow> nat) \<Rightarrow> ('w, 'e, 'a) io \<Rightarrow> 'w \<Rightarrow> ('e, 'a) future" where
  "future_of clock m w = (case m w of None \<Rightarrow> Pending | Some (r, w') \<Rightarrow> Completes (clock w') r)"

lemma io_of_Ok [outcome_simps]: "io_of r w = Some (Ok a, w') \<longleftrightarrow> r = Ok a \<and> w' = w"
  by (auto simp: io_of_def)

lemma io_of_Err [outcome_simps]: "io_of r w = Some (Err e, w') \<longleftrightarrow> r = Err e \<and> w' = w"
  by (auto simp: io_of_def)

lemma io_of_Panic [outcome_simps]: "io_of r w = Some (Panic, w') \<longleftrightarrow> r = Panic \<and> w' = w"
  by (auto simp: io_of_def)

lemma io_bind_Ok [outcome_simps]:
  "io_bind m f w = Some (Ok b, w'') \<longleftrightarrow> (\<exists>a w'. m w = Some (Ok a, w') \<and> f a w' = Some (Ok b, w''))"
  by (auto simp: io_bind_def split: option.splits outcome.splits)

lemma io_bind_Err [outcome_simps]:
  "io_bind m f w = Some (Err e, w'') \<longleftrightarrow>
     m w = Some (Err e, w'') \<or> (\<exists>a w'. m w = Some (Ok a, w') \<and> f a w' = Some (Err e, w''))"
  by (auto simp: io_bind_def split: option.splits outcome.splits)

lemma io_bind_Panic [outcome_simps]:
  "io_bind m f w = Some (Panic, w'') \<longleftrightarrow>
     m w = Some (Panic, w'') \<or> (\<exists>a w'. m w = Some (Ok a, w') \<and> f a w' = Some (Panic, w''))"
  by (auto simp: io_bind_def split: option.splits outcome.splits)

lemma io_map_err_Ok [outcome_simps]: "io_map_err g m w = Some (Ok a, w') \<longleftrightarrow> m w = Some (Ok a, w')"
  by (auto simp: io_map_err_def outcome_simps)

lemma io_map_err_Err [outcome_simps]:
  "io_map_err g m w = Some (Err e, w') \<longleftrightarrow> (\<exists>e'. m w = Some (Err e', w') \<and> e = g e')"
  by (auto simp: io_map_err_def outcome_simps)

lemma io_map_err_Panic [outcome_simps]:
  "io_map_err g m w = Some (Panic, w') \<longleftrightarrow> m w = Some (Panic, w')"
  by (auto simp: io_map_err_def outcome_simps)

lemma spawn_blocking_Ok [outcome_simps]:
  "spawn_blocking run je conv r w = Some (Ok a, w') \<longleftrightarrow> r = Ok a \<and> w' = run w"
  by (cases r) (auto simp: spawn_blocking_def join_blocking_def)

lemma spawn_blocking_Err [outcome_simps]:
  "spawn_blocking run je conv r w = Some (Err e, w') \<longleftrightarrow>
     w' = run w \<and> (r = Panic \<and> e = je \<or> (\<exists>e'. r = Err e' \<and> e = conv e'))"
  by (cases r) (auto simp: spawn_blocking_def join_blocking_def)

lemma spawn_blocking_not_Panic [simp]: "spawn_blocking run je conv r w \<noteq> Some (Panic, w')"
  by (cases r) (auto simp: spawn_blocking_def join_blocking_def)

lemma future_of_Completes [outcome_simps]:
  "future_of clock m w = Completes t r \<longleftrightarrow> (\<exists>w'. m w = Some (r, w') \<and> t = clock w')"
  by (auto simp: future_of_def split: option.splits)

end
