(* ===== verification/Env_Text.thy ===== *)
theory Env_Text
  imports Prelude "HOL-Library.Sublist"
begin

text \<open>
  The text handling the program takes from the Rust standard library (\<open>str::split\<close>, \<open>str::trim\<close>,
  parsing and printing of \<open>u64\<close>) and the configuration both RPC proxies read from the environment:
  the validation timeout and the comma-separated list of provider URLs.  Characters are the first
  256 code points.
\<close>

section \<open>Numbers\<close>

definition digit_value :: "char \<Rightarrow> nat option" where
  "digit_value c = (let n = of_char c :: nat in if 48 \<le> n \<and> n \<le> 57 then Some (n - 48) else None)"

definition digit_char :: "nat \<Rightarrow> char" where
  "digit_char d = char_of (48 + d)"

text \<open>\<open>u64::from_str\<close>: an optional plus sign, at least one digit, no overflow.\<close>

fun parse_digits :: "nat \<Rightarrow> string \<Rightarrow> nat option" where
  "parse_digits acc [] = Some acc"
| "parse_digits acc (c # cs) =
     (case digit_value c of
        None \<Rightarrow> None
      | Some d \<Rightarrow> if 10 * acc + d < 2 ^ 64 then parse_digits (10 * acc + d) cs else None)"

definition parse_u64 :: "string \<Rightarrow> u64 option" where
  "parse_u64 s =
     (let digits = (if s \<noteq> [] \<and> hd s = CHR ''+'' then tl s else s)
      in if digits = [] then None else map_option of_nat (parse_digits 0 digits))"

text \<open>\<open>Display\<close> of an unsigned integer: its decimal digits, without leading zeros.\<close>

fun decimal :: "nat \<Rightarrow> string" where
  "decimal n = (if n < 10 then [digit_char n] else decimal (n div 10) @ [digit_char (n mod 10)])"

declare decimal.simps [simp del]

definition show_u64 :: "u64 \<Rightarrow> string" where
  "show_u64 n = decimal (unat n)"

lemma of_char_digit_char [simp]: "d < 10 \<Longrightarrow> (of_char (digit_char d) :: nat) = 48 + d"
  by (simp add: digit_char_def)

lemma digit_value_digit_char [simp]: "d < 10 \<Longrightarrow> digit_value (digit_char d) = Some d"
  by (simp add: digit_value_def)

lemma digit_char_not:
  assumes "d < 10" and "digit_value c = None"
  shows "digit_char d \<noteq> c"
  using assms digit_value_digit_char by fastforce

lemma parse_digits_append:
  "parse_digits acc (cs @ ds) = Option.bind (parse_digits acc cs) (\<lambda>acc'. parse_digits acc' ds)"
  by (induction acc cs rule: parse_digits.induct) (auto split: option.split)

lemma parse_decimal: "n < 2 ^ 64 \<Longrightarrow> parse_digits 0 (decimal n) = Some n"
proof (induction n rule: decimal.induct)
  case (1 n)
  show ?case
  proof (cases "n < 10")
    case False
    with 1 have "parse_digits 0 (decimal (n div 10)) = Some (n div 10)" by simp
    with False 1(2) show ?thesis
      by (subst decimal.simps) (simp add: parse_digits_append)
  qed (simp add: decimal.simps)
qed

lemma decimal_digits: "c \<in> set (decimal n) \<Longrightarrow> \<exists>d < 10. c = digit_char d"
proof (induction n rule: decimal.induct)
  case (1 n)
  then show ?case
    by (subst (asm) (2) decimal.simps) (auto split: if_splits intro: exI [of _ "n mod 10"] exI [of _ n])
qed

lemma decimal_not_Nil [simp]: "decimal n \<noteq> []"
  by (subst decimal.simps) simp

lemma not_in_decimal: "digit_value c = None \<Longrightarrow> c \<notin> set (decimal n)"
  using decimal_digits digit_char_not by blast

lemma parse_show_u64: "parse_u64 (show_u64 n) = Some n"
proof -
  have plus: "digit_value (CHR ''+'') = None" by (simp add: digit_value_def)
  have "hd (decimal (unat n)) \<noteq> CHR ''+''"
    using not_in_decimal [of "CHR ''+''" "unat n"] list.set_sel(1) [OF decimal_not_Nil, of "unat n"]
    by (metis (full_types) plus)
  then show ?thesis
    using parse_decimal [of "unat n"] unsigned_less [where ?'a = nat, of n]
    by (simp add: parse_u64_def show_u64_def)
qed

lemma show_u64_inject: "show_u64 m = show_u64 n \<longleftrightarrow> m = n"
  by (metis option.inject parse_show_u64)

section \<open>Lists of words\<close>

fun split_on :: "char \<Rightarrow> string \<Rightarrow> string list" where
  "split_on sep [] = [[]]"
| "split_on sep (c # cs) =
     (if c = sep then [] # split_on sep cs
      else case split_on sep cs of w # ws \<Rightarrow> (c # w) # ws | [] \<Rightarrow> [[c]])"

fun join_with :: "char \<Rightarrow> string list \<Rightarrow> string" where
  "join_with sep [] = []"
| "join_with sep [w] = w"
| "join_with sep (w # v # ws) = w @ sep # join_with sep (v # ws)"

definition is_space :: "char \<Rightarrow> bool" where
  "is_space c = (let n = of_char c :: nat in (9 \<le> n \<and> n \<le> 13) \<or> n = 32 \<or> n = 133 \<or> n = 160)"

definition trim :: "string \<Rightarrow> string" where
  "trim s = rev (dropWhile is_space (rev (dropWhile is_space s)))"

lemma split_on_not_Nil [simp]: "split_on sep s \<noteq> []"
  by (cases s) (auto split: list.split)

lemma split_on_no_sep: "sep \<notin> set w \<Longrightarrow> split_on sep w = [w]"
  by (induction w) auto

lemma split_on_word: "sep \<notin> set w \<Longrightarrow> split_on sep (w @ sep # s) = w # split_on sep s"
  by (induction w) auto

lemma split_join:
  "ws \<noteq> [] \<Longrightarrow> \<forall>w \<in> set ws. sep \<notin> set w \<Longrightarrow> split_on sep (join_with sep ws) = ws"
  by (induction sep ws rule: join_with.induct) (auto simp: split_on_no_sep split_on_word)

lemma join_split: "join_with sep (split_on sep s) = s"
proof (induction s)
  case (Cons c s)
  obtain w ws where ws: "split_on sep s = w # ws" by (cases "split_on sep s") auto
  with Cons show ?case by (cases ws) auto
qed simp

lemma trim_no_space:
  assumes "\<not> is_space (hd s)" and "\<not> is_space (last s)"
  shows "trim s = s"
proof (cases s rule: rev_cases)
  case (snoc xs x)
  have "dropWhile is_space s = s"
    using assms(1) by (cases s) (auto simp: snoc)
  with snoc assms show ?thesis by (simp add: trim_def)
qed (simp add: trim_def)

section \<open>Configuration from the environment\<close>

datatype config_error =
    MissingVariable string
  | InvalidTimeout string
  | NoValidUrls string
  | InvalidAddress string

text \<open>The optional timeout in seconds; without the variable it is 300.\<close>

definition validation_timeout_from ::
  "(string \<rightharpoonup> string) \<Rightarrow> string \<Rightarrow> (config_error, nat) outcome" where
  "validation_timeout_from env_var name =
     (case env_var name of
        None \<Rightarrow> Ok 300
      | Some v \<Rightarrow>
          (case parse_u64 v of
             None \<Rightarrow> Err (InvalidTimeout name)
           | Some n \<Rightarrow> Ok (unat n)))"

text \<open>Words that are no URL are skipped; \<open>parse_url\<close> is the parser of the \<open>url\<close> crate.\<close>

definition rpc_urls :: "(string \<Rightarrow> 'p option) \<Rightarrow> string \<Rightarrow> 'p list" where
  "rpc_urls parse_url s =
     List.map_filter parse_url (filter (\<lambda>w. w \<noteq> []) (map trim (split_on (CHR '','') s)))"

lemma rpc_urls_join:
  assumes "ws \<noteq> []"
    and "\<And>w. w \<in> set ws \<Longrightarrow> CHR '','' \<notin> set w \<and> trim w \<noteq> []"
  shows "rpc_urls parse_url (join_with (CHR '','') ws)
         = List.map_filter (parse_url \<circ> trim) ws"
proof -
  have "filter (\<lambda>w. w \<noteq> []) (map trim ws) = map trim ws"
    using assms(2) by (intro filter_True) auto
  with assms split_join [of ws "CHR '',''"] show ?thesis
    by (simp add: rpc_urls_def List.map_filter_def filter_map o_def)
qed

section \<open>The debug switch\<close>

text \<open>
  \<open>str::to_lowercase\<close> on the letters \<open>A\<close> to \<open>Z\<close>; the other characters it changes do not become letters
  of the word searched for.  The switch is on when the log configuration mentions \<open>debug\<close> anywhere, in
  any case; without the variable it is off.
\<close>

definition to_lowercase :: "string \<Rightarrow> string" where
  "to_lowercase s =
     map (\<lambda>c. let n = of_char c :: nat in if 65 \<le> n \<and> n \<le> 90 then char_of (n + 32) else c) s"

definition debug_enabled :: "(string \<rightharpoonup> string) \<Rightarrow> bool" where
  "debug_enabled env_var =
     (case env_var ''RUST_LOG'' of
        Some val \<Rightarrow> sublist ''debug'' (to_lowercase val)
      | None \<Rightarrow> False)"

lemma debug_enabled_by_directive:
  assumes "env_var ''RUST_LOG'' = Some (a @ word @ b)" and "to_lowercase word = ''debug''"
  shows "debug_enabled env_var"
proof -
  from assms have "to_lowercase (a @ word @ b) = to_lowercase a @ ''debug'' @ to_lowercase b"
    by (simp add: to_lowercase_def)
  with assms(1) show ?thesis
    by (simp add: debug_enabled_def sublist_appendI del: append.simps)
qed

end
