(* ===== verification/Light_Client.thy ===== *)
theory Light_Client
  imports Prelude
begin

text \<open>
  The interface to the light-client crate the program builds on (\<open>helios_consensus_core\<close>) and to
  the store hash of \<open>nori_hash\<close>.  Their code is not part of the repository: the record
  \<open>light_client\<close> collects the functions the program calls, and every definition that calls them
  takes it as an argument.  The data types show the fields the program reads or writes; the rest
  of a header, store or update is one opaque value of the type parameter.
\<close>

record execution_header =
  state_root :: b256
  block_number :: u64

record 'x lc_header =
  beacon_slot :: u64
  execution :: "execution_header option"
  header_rest :: 'x

record 'x lc_store =
  finalized_header :: "'x lc_header"
  next_sync_committee :: "'x option"
  previous_max_active_participants :: u64
  current_max_active_participants :: u64
  store_rest :: 'x

record 'x lc_update =
  update_finalized_header :: "'x lc_header"
  update_rest :: 'x

record 'x lc_finality_update =
  finality_finalized_header :: "'x lc_header"
  finality_rest :: 'x

text \<open>
  Verification returns \<open>None\<close> for success or the formatted error; application mutates the store,
  which is the returned store here; hashing can fail with a message.
\<close>

record 'x light_client =
  verify_update :: "'x lc_update \<Rightarrow> u64 \<Rightarrow> 'x lc_store \<Rightarrow> b256 \<Rightarrow> 'x \<Rightarrow> string option"
  apply_update :: "'x lc_store \<Rightarrow> 'x lc_update \<Rightarrow> 'x lc_store"
  verify_finality_update :: "'x lc_finality_update \<Rightarrow> u64 \<Rightarrow> 'x lc_store \<Rightarrow> b256 \<Rightarrow> 'x \<Rightarrow> string option"
  apply_finality_update :: "'x lc_store \<Rightarrow> 'x lc_finality_update \<Rightarrow> 'x lc_store"
  sha256_hash_helios_store :: "'x lc_store \<Rightarrow> (string, b256) outcome"
  tree_hash_root :: "'x \<Rightarrow> b256"

end
