(* ===== verification/Types.thy ===== *)
theory Types
  imports Light_Client
begin

text \<open>
  The data types of \<open>golem-symbiotic-consensus-mpt-types/src/types.rs\<close>: proof inputs, proof
  outputs and their fixed byte layouts, and the storage location of a mapping entry.  The locale
  \<open>fixed_codec\<close> states what a client of a byte layout may rely on; it is interpreted on the
  layout of \<open>ProofOutputs\<close>, whose client are the zkVM program and the event loop.
\<close>

section \<open>Proof inputs\<close>

definition SOURCE_CONTRACT_LOCKED_TOKENS_STORAGE_INDEX :: u8 where
  "SOURCE_CONTRACT_LOCKED_TOKENS_STORAGE_INDEX = 1"

record storage_slot =
  ss_key :: b256
  ss_slot_key_address :: address
  ss_expected_value :: u256
  ss_mpt_proof :: "bytes list"

text \<open>\<open>TrieAccount\<close> is a type of \<open>alloy_trie\<close>; the program builds it from these four fields.\<close>

record trie_account =
  ta_nonce :: u64
  ta_balance :: u256
  ta_storage_root :: b256
  ta_code_hash :: b256

record contract_storage =
  cs_address :: address
  cs_expected_value :: trie_account
  cs_mpt_proof :: "bytes list"
  cs_storage_slots :: "storage_slot list"

record 'x proof_inputs =
  pi_updates :: "'x lc_update list"
  pi_finality_update :: "'x lc_finality_update"
  pi_expected_current_slot :: u64
  pi_store :: "'x lc_store"
  pi_genesis_root :: b256
  pi_forks :: 'x
  pi_store_hash :: b256
  pi_contract_storage :: contract_storage

record 'x proof_inputs_with_window =
  w_input_slot :: u64
  w_expected_output_slot :: u64
  w_input_block_number :: u64
  w_expected_output_block_number :: u64
  w_proof_inputs :: "'x proof_inputs"
  w_expected_output_store_hash :: b256

record 'x dual_proof_inputs_with_window =
  current_window :: "'x proof_inputs_with_window"
  next_window :: "'x proof_inputs_with_window option"

record 'x consensus_proof_inputs =
  cpi_updates :: "'x lc_update list"
  cpi_finality_update :: "'x lc_finality_update"
  cpi_expected_current_slot :: u64
  cpi_store :: "'x lc_store"
  cpi_genesis_root :: b256
  cpi_forks :: 'x
  cpi_store_hash :: b256

record execution_state_proof =
  esp_execution_state_root :: b256
  esp_execution_state_branch :: "b256 list"
  esp_gindex :: string

record verified_contract_storage_slot =
  vs_slot_key_address :: address
  vs_value :: u256

section \<open>Proof outputs and their byte layout\<close>

record proof_outputs =
  po_input_slot :: u64
  po_input_store_hash :: b256
  po_output_slot :: u64
  po_output_store_hash :: b256
  po_execution_state_root :: b256
  po_verified_contract_storage_slots_root :: b256
  po_next_sync_committee_hash :: b256

record consensus_proof_outputs =
  co_input_slot :: u64
  co_input_store_hash :: b256
  co_output_slot :: u64
  co_output_store_hash :: b256
  co_execution_state_root :: b256
  co_next_sync_committee_hash :: b256

datatype decode_error =
    InvalidInputLength nat nat \<comment> \<open>expected, got\<close>
  | FieldContext string \<comment> \<open>the \<open>context\<close> of a failed conversion\<close>

text \<open>
  \<open>try_into\<close> from a slice to \<open>[u8; n]\<close> is an error when the lengths differ, \<open>B256::from_slice\<close>
  panics in that case.
\<close>

definition try_into_array :: "nat \<Rightarrow> string \<Rightarrow> bytes \<Rightarrow> (decode_error, bytes) outcome" where
  "try_into_array n ctx bs = (if length bs = n then Ok bs else Err (FieldContext ctx))"

definition b256_from_slice :: "bytes \<Rightarrow> ('e, b256) outcome" where
  "b256_from_slice bs = (if length bs = 32 then Ok (of_be_bytes bs) else Panic)"

definition PROOF_OUTPUTS_SIZE :: nat where
  "PROOF_OUTPUTS_SIZE = 176"

definition proof_outputs_to_bytes :: "proof_outputs \<Rightarrow> (decode_error, bytes) outcome" where
  "proof_outputs_to_bytes p =
     and_then (copy_from_slice (replicate PROOF_OUTPUTS_SIZE 0) 0 8 (be_bytes 8 (po_input_slot p))) (\<lambda>buf.
     and_then (copy_from_slice buf 8 40 (be_bytes 32 (po_input_store_hash p))) (\<lambda>buf.
     and_then (copy_from_slice buf 40 48 (be_bytes 8 (po_output_slot p))) (\<lambda>buf.
     and_then (copy_from_slice buf 48 80 (be_bytes 32 (po_output_store_hash p))) (\<lambda>buf.
     and_then (copy_from_slice buf 80 112 (be_bytes 32 (po_execution_state_root p))) (\<lambda>buf.
     and_then (copy_from_slice buf 112 144 (be_bytes 32 (po_verified_contract_storage_slots_root p))) (\<lambda>buf.
     and_then (copy_from_slice buf 144 176 (be_bytes 32 (po_next_sync_committee_hash p))) (\<lambda>buf.
     Ok buf)))))))"

definition proof_outputs_from_bytes :: "bytes \<Rightarrow> (decode_error, proof_outputs) outcome" where
  "proof_outputs_from_bytes bs =
     (if length bs \<noteq> PROOF_OUTPUTS_SIZE
      then Err (InvalidInputLength PROOF_OUTPUTS_SIZE (length bs))
      else
        and_then (slice bs 0 8) (\<lambda>s.
        and_then (try_into_array 8 ''Failed to parse input_slot bytes'' s) (\<lambda>input_slot_bytes.
        and_then (and_then (slice bs 8 40) b256_from_slice) (\<lambda>input_store_hash.
        and_then (slice bs 40 48) (\<lambda>s.
        and_then (try_into_array 8 ''Failed to parse output_slot bytes'' s) (\<lambda>output_slot_bytes.
        and_then (and_then (slice bs 48 80) b256_from_slice) (\<lambda>output_store_hash.
        and_then (and_then (slice bs 80 112) b256_from_slice) (\<lambda>execution_state_root.
        and_then (and_then (slice bs 112 144) b256_from_slice) (\<lambda>slots_root.
        and_then (and_then (slice bs 144 176) b256_from_slice) (\<lambda>next_sync_committee_hash.
        Ok \<lparr>po_input_slot = of_be_bytes input_slot_bytes,
            po_input_store_hash = input_store_hash,
            po_output_slot = of_be_bytes output_slot_bytes,
            po_output_store_hash = output_store_hash,
            po_execution_state_root = execution_state_root,
            po_verified_contract_storage_slots_root = slots_root,
            po_next_sync_committee_hash = next_sync_committee_hash\<rparr>))))))))))"

definition CONSENSUS_PROOF_OUTPUTS_SIZE :: nat where
  "CONSENSUS_PROOF_OUTPUTS_SIZE = 144"

definition consensus_proof_outputs_to_bytes ::
  "consensus_proof_outputs \<Rightarrow> (decode_error, bytes) outcome" where
  "consensus_proof_outputs_to_bytes p =
     and_then (copy_from_slice (replicate CONSENSUS_PROOF_OUTPUTS_SIZE 0) 0 8 (be_bytes 8 (co_input_slot p))) (\<lambda>buf.
     and_then (copy_from_slice buf 8 40 (be_bytes 32 (co_input_store_hash p))) (\<lambda>buf.
     and_then (copy_from_slice buf 40 48 (be_bytes 8 (co_output_slot p))) (\<lambda>buf.
     and_then (copy_from_slice buf 48 80 (be_bytes 32 (co_output_store_hash p))) (\<lambda>buf.
     and_then (copy_from_slice buf 80 112 (be_bytes 32 (co_execution_state_root p))) (\<lambda>buf.
     and_then (copy_from_slice buf 112 144 (be_bytes 32 (co_next_sync_committee_hash p))) (\<lambda>buf.
     Ok buf))))))"

definition consensus_proof_outputs_from_bytes ::
  "bytes \<Rightarrow> (decode_error, consensus_proof_outputs) outcome" where
  "consensus_proof_outputs_from_bytes bs =
     (if length bs \<noteq> CONSENSUS_PROOF_OUTPUTS_SIZE
      then Err (InvalidInputLength CONSENSUS_PROOF_OUTPUTS_SIZE (length bs))
      else
        and_then (slice bs 0 8) (\<lambda>s.
        and_then (try_into_array 8 ''Failed to parse input_slot bytes'' s) (\<lambda>input_slot_bytes.
        and_then (and_then (slice bs 8 40) b256_from_slice) (\<lambda>input_store_hash.
        and_then (slice bs 40 48) (\<lambda>s.
        and_then (try_into_array 8 ''Failed to parse output_slot bytes'' s) (\<lambda>output_slot_bytes.
        and_then (and_then (slice bs 48 80) b256_from_slice) (\<lambda>output_store_hash.
        and_then (and_then (slice bs 80 112) b256_from_slice) (\<lambda>execution_state_root.
        and_then (and_then (slice bs 144 176) b256_from_slice) (\<lambda>next_sync_committee_hash.
        Ok \<lparr>co_input_slot = of_be_bytes input_slot_bytes,
            co_input_store_hash = input_store_hash,
            co_output_slot = of_be_bytes output_slot_bytes,
            co_output_store_hash = output_store_hash,
            co_execution_state_root = execution_state_root,
            co_next_sync_committee_hash = next_sync_committee_hash\<rparr>)))))))))"

section \<open>The storage location of a mapping entry\<close>

text \<open>
  \<open>keccak256\<close> is a function of \<open>alloy_primitives\<close> and a parameter.
\<close>

definition get_storage_location_for_key ::
  "(bytes \<Rightarrow> b256) \<Rightarrow> address \<Rightarrow> u8 \<Rightarrow> ('e, b256) outcome" where
  "get_storage_location_for_key keccak256 address mapping_index =
     and_then (copy_from_slice (replicate 64 0) 12 32 (be_bytes 20 (address_word address))) (\<lambda>encoded.
     Ok (keccak256 (encoded[63 := mapping_index])))"

text \<open>
  What the function promises: the Solidity rule for the slot of \<open>mapping[key]\<close>, the hash of the
  key and the position of the mapping, each left-padded to 32 bytes.
\<close>

definition left_pad32 :: "bytes \<Rightarrow> bytes" where
  "left_pad32 bs = replicate (32 - length bs) 0 @ bs"

definition mapping_slot :: "(bytes \<Rightarrow> b256) \<Rightarrow> bytes \<Rightarrow> bytes \<Rightarrow> b256" where
  "mapping_slot keccak256 key position = keccak256 (left_pad32 key @ left_pad32 position)"

definition address_bytes :: "address \<Rightarrow> bytes" where
  "address_bytes a = be_bytes 20 (address_word a)"

lemma length_address_bytes [simp]: "length (address_bytes a) = 20"
  by (simp add: address_bytes_def)

lemma address_bytes_inject [simp]: "address_bytes a = address_bytes b \<longleftrightarrow> a = b"
  by (simp add: address_bytes_def be_bytes_inject address.expand) (metis address.expand)

lemma storage_location_eq:
  "get_storage_location_for_key keccak256 a i = Ok (mapping_slot keccak256 (address_bytes a) [i])"
proof -
  have "(replicate 12 0 @ address_bytes a @ replicate 32 0)[63 := i]
        = replicate 12 0 @ address_bytes a @ replicate 31 0 @ [i]"
    by (simp add: list_update_append list_update_last)
  then show ?thesis
    by (simp add: get_storage_location_for_key_def mapping_slot_def left_pad32_def
        copy_from_slice_def address_bytes_def)
qed

lemma storage_preimage_inject:
  "left_pad32 (address_bytes a) @ left_pad32 [i] = left_pad32 (address_bytes b) @ left_pad32 [j]
   \<longleftrightarrow> a = b \<and> i = j"
  by (auto simp: left_pad32_def)

section \<open>The contract of a byte layout\<close>

locale fixed_codec =
  fixes enc :: "'a \<Rightarrow> ('e, bytes) outcome"
    and dec :: "bytes \<Rightarrow> ('e, 'a) outcome"
    and size :: nat
  assumes enc_total: "\<exists>bs. enc a = Ok bs \<and> length bs = size"
    and dec_enc: "enc a = Ok bs \<Longrightarrow> dec bs = Ok a"
    and enc_dec: "dec bs = Ok a \<Longrightarrow> enc a = Ok bs"
begin

lemma dec_iff: "dec bs = Ok a \<longleftrightarrow> enc a = Ok bs"
  by (blast intro: dec_enc enc_dec)

lemma enc_not_Panic: "enc a \<noteq> Panic"
  using enc_total [of a] by auto

lemma enc_inject: "enc a = enc b \<longleftrightarrow> a = b"
  by (metis dec_enc enc_total outcome.inject(1))

lemma enc_length: "enc a = Ok bs \<Longrightarrow> length bs = size"
  using enc_total [of a] by auto

lemma dec_length: "dec bs = Ok a \<Longrightarrow> length bs = size"
  by (auto dest: enc_dec enc_length)

lemma dec_inject: "dec bs = Ok a \<Longrightarrow> dec bs' = Ok a \<Longrightarrow> bs = bs'"
  by (auto simp: dec_iff)

lemma dec_after_enc: "and_then (enc a) dec = Ok a"
  using enc_total [of a] by (auto simp: dec_enc)

lemma dec_no_trailing: "dec bs = Ok a \<Longrightarrow> dec (bs @ x # xs) \<noteq> Ok b"
  by (auto dest!: dec_length)

end


section \<open>The layout of \<open>ProofOutputs\<close>\<close>

lemma proof_outputs_to_bytes_layout:
  "proof_outputs_to_bytes p =
     Ok (be_bytes 8 (po_input_slot p) @ be_bytes 32 (po_input_store_hash p)
       @ be_bytes 8 (po_output_slot p) @ be_bytes 32 (po_output_store_hash p)
       @ be_bytes 32 (po_execution_state_root p)
       @ be_bytes 32 (po_verified_contract_storage_slots_root p)
       @ be_bytes 32 (po_next_sync_committee_hash p))"
  by (simp add: proof_outputs_to_bytes_def PROOF_OUTPUTS_SIZE_def copy_from_slice_def)

lemma proof_outputs_from_bytes_layout:
  assumes "length b1 = 8" "length b2 = 32" "length b3 = 8" "length b4 = 32"
    "length b5 = 32" "length b6 = 32" "length b7 = 32"
  shows "proof_outputs_from_bytes (b1 @ b2 @ b3 @ b4 @ b5 @ b6 @ b7) =
    Ok \<lparr>po_input_slot = of_be_bytes b1, po_input_store_hash = of_be_bytes b2,
        po_output_slot = of_be_bytes b3, po_output_store_hash = of_be_bytes b4,
        po_execution_state_root = of_be_bytes b5,
        po_verified_contract_storage_slots_root = of_be_bytes b6,
        po_next_sync_committee_hash = of_be_bytes b7\<rparr>"
  using assms
  by (simp add: proof_outputs_from_bytes_def PROOF_OUTPUTS_SIZE_def slice_def
      try_into_array_def b256_from_slice_def)

lemma split_176:
  assumes "length bs = 176"
  obtains b1 b2 b3 b4 b5 b6 b7 where
    "bs = b1 @ b2 @ b3 @ b4 @ b5 @ b6 @ b7"
    "length b1 = 8" "length b2 = 32" "length b3 = 8" "length b4 = 32"
    "length b5 = 32" "length b6 = 32" "length b7 = 32"
proof
  let ?d = "\<lambda>n. drop n bs"
  show "bs = take 8 bs @ take 32 (drop 8 bs) @ take 8 (drop 40 bs) @ take 32 (drop 48 bs)
             @ take 32 (drop 80 bs) @ take 32 (drop 112 bs) @ take 32 (drop 144 bs)"
    using assms concat_chop [of bs "[8, 32, 8, 32, 32, 32, 32]"] by simp
qed (use assms in simp_all)

lemma from_bytes_wrong_length:
  "length bs \<noteq> PROOF_OUTPUTS_SIZE
   \<Longrightarrow> proof_outputs_from_bytes bs = Err (InvalidInputLength PROOF_OUTPUTS_SIZE (length bs))"
  by (simp add: proof_outputs_from_bytes_def)

interpretation po_codec:
  fixed_codec proof_outputs_to_bytes proof_outputs_from_bytes PROOF_OUTPUTS_SIZE
proof unfold_locales
  fix p
  show "\<exists>bs. proof_outputs_to_bytes p = Ok bs \<and> length bs = PROOF_OUTPUTS_SIZE"
    by (simp add: proof_outputs_to_bytes_layout PROOF_OUTPUTS_SIZE_def)
next
  fix p bs assume "proof_outputs_to_bytes p = Ok bs"
  then show "proof_outputs_from_bytes bs = Ok p"
    by (auto simp: proof_outputs_to_bytes_layout proof_outputs_from_bytes_layout
        from_to_be_bytes)
next
  fix bs p assume ok: "proof_outputs_from_bytes bs = Ok p"
  then have "length bs = 176"
    by (auto simp: proof_outputs_from_bytes_def PROOF_OUTPUTS_SIZE_def split: if_splits)
  then obtain b1 b2 b3 b4 b5 b6 b7 where bs: "bs = b1 @ b2 @ b3 @ b4 @ b5 @ b6 @ b7"
    and len: "length b1 = 8" "length b2 = 32" "length b3 = 8" "length b4 = 32"
      "length b5 = 32" "length b6 = 32" "length b7 = 32"
    by (rule split_176)
  show "proof_outputs_to_bytes p = Ok bs"
    using ok len unfolding bs
    by (auto simp: proof_outputs_from_bytes_layout proof_outputs_to_bytes_layout to_from_be_bytes)
qed

lemma proof_outputs_from_bytes_total:
  "length bs = PROOF_OUTPUTS_SIZE \<Longrightarrow> \<exists>p. proof_outputs_from_bytes bs = Ok p"
  unfolding PROOF_OUTPUTS_SIZE_def
  by (erule split_176) (simp add: proof_outputs_from_bytes_layout)

lemma proof_outputs_from_bytes_not_Panic [simp]: "proof_outputs_from_bytes bs \<noteq> Panic"
  using proof_outputs_from_bytes_total [of bs] from_bytes_wrong_length [of bs]
  by (cases "length bs = PROOF_OUTPUTS_SIZE") auto

text \<open>The consensus-only outputs: encoding succeeds, decoding what it produced does not.\<close>

lemma consensus_proof_outputs_to_bytes_layout:
  "consensus_proof_outputs_to_bytes p =
     Ok (be_bytes 8 (co_input_slot p) @ be_bytes 32 (co_input_store_hash p)
       @ be_bytes 8 (co_output_slot p) @ be_bytes 32 (co_output_store_hash p)
       @ be_bytes 32 (co_execution_state_root p)
       @ be_bytes 32 (co_next_sync_committee_hash p))"
  by (simp add: consensus_proof_outputs_to_bytes_def CONSENSUS_PROOF_OUTPUTS_SIZE_def
      copy_from_slice_def)

lemma consensus_from_bytes_panics:
  "length bs = CONSENSUS_PROOF_OUTPUTS_SIZE \<Longrightarrow> consensus_proof_outputs_from_bytes bs = Panic"
  by (simp add: consensus_proof_outputs_from_bytes_def CONSENSUS_PROOF_OUTPUTS_SIZE_def slice_def
      try_into_array_def b256_from_slice_def)

text \<open>The offsets in the comments of the struct's fields.\<close>

definition PROOF_OUTPUTS_FIELDS :: "(nat \<times> nat) list" where
  "PROOF_OUTPUTS_FIELDS = [(0, 8), (8, 40), (40, 48), (48, 80), (80, 112), (112, 144), (144, 176)]"

definition fields_at :: "bytes \<Rightarrow> bytes list" where
  "fields_at bs = map (\<lambda>(a, b). take (b - a) (drop a bs)) PROOF_OUTPUTS_FIELDS"

definition encoded_fields :: "proof_outputs \<Rightarrow> bytes list" where
  "encoded_fields p =
     [be_bytes 8 (po_input_slot p), be_bytes 32 (po_input_store_hash p), be_bytes 8 (po_output_slot p),
      be_bytes 32 (po_output_store_hash p), be_bytes 32 (po_execution_state_root p),
      be_bytes 32 (po_verified_contract_storage_slots_root p), be_bytes 32 (po_next_sync_committee_hash p)]"

section \<open>Properties\<close>

text \<open>C13: Decoding proof outputs succeeds with \<open>p\<close> exactly on the bytes that encoding \<open>p\<close> produces, and
  encoding always produces such bytes: the layout is a bijection between outputs and 176-byte strings.\<close>

theorem proof_outputs_round_trip:
  "(proof_outputs_from_bytes bs = Ok p \<longleftrightarrow> proof_outputs_to_bytes p = Ok bs)
   \<and> (\<exists>out. proof_outputs_to_bytes p = Ok out \<and> length out = 176)
   \<and> and_then (proof_outputs_to_bytes p) proof_outputs_from_bytes = Ok p"
  using po_codec.dec_iff [of bs p] po_codec.enc_total [of p] po_codec.dec_after_enc [of p]
  by (auto simp: PROOF_OUTPUTS_SIZE_def)

text \<open>C14: The public values have their documented type: encoding any outputs yields 176 bytes with each
  field, big-endian, at the offsets the struct documents; decoding gives exactly the fields found there
  for 176 bytes and the length error with both lengths for any other string, and never panics.\<close>

theorem public_values_are_typed:
  "(\<exists>out. proof_outputs_to_bytes p = Ok out \<and> length out = 176 \<and> fields_at out = encoded_fields p)
   \<and> (case proof_outputs_from_bytes bs of
        Ok q \<Rightarrow> length bs = 176 \<and> fields_at bs = encoded_fields q
      | Err e \<Rightarrow> length bs \<noteq> 176 \<and> e = InvalidInputLength 176 (length bs)
      | Panic \<Rightarrow> False)"
proof -
  have typed: "length out = 176 \<and> fields_at out = encoded_fields q" if "proof_outputs_to_bytes q = Ok out" for q out
    using that by (auto simp: proof_outputs_to_bytes_layout fields_at_def encoded_fields_def PROOF_OUTPUTS_FIELDS_def)
  have "\<exists>q. proof_outputs_from_bytes bs = Ok q \<and> proof_outputs_to_bytes q = Ok bs" if "length bs = 176"
    using that proof_outputs_from_bytes_total [of bs] po_codec.dec_iff [of bs] by (auto simp: PROOF_OUTPUTS_SIZE_def)
  with typed [of _ bs] typed [of p] po_codec.enc_total [of p] from_bytes_wrong_length [of bs] show ?thesis
    by (cases "length bs = 176") (auto simp: PROOF_OUTPUTS_SIZE_def)
qed

text \<open>C37: The consensus-only outputs encode to 144 bytes, but decoding never returns outputs: on every
  string of the length it accepts it panics, because it slices bytes 144 to 176 of 144.\<close>

theorem consensus_proof_outputs_do_not_round_trip:
  "(\<exists>out. consensus_proof_outputs_to_bytes p = Ok out \<and> length out = 144
      \<and> consensus_proof_outputs_from_bytes out = Panic)
   \<and> consensus_proof_outputs_from_bytes bs
       = (if length bs = 144 then Panic else Err (InvalidInputLength 144 (length bs)))"
proof -
  have "consensus_proof_outputs_from_bytes bs = Err (InvalidInputLength 144 (length bs))" if "length bs \<noteq> 144"
    using that by (simp add: consensus_proof_outputs_from_bytes_def CONSENSUS_PROOF_OUTPUTS_SIZE_def)
  then show ?thesis
    using consensus_from_bytes_panics
    by (auto simp: consensus_proof_outputs_to_bytes_layout CONSENSUS_PROOF_OUTPUTS_SIZE_def)
qed

text \<open>C34: The storage location is the slot Solidity gives to \<open>mapping[address]\<close>, the hash of the padded
  address and the padded mapping position; two locations agree only for the same address and
  position, or else exhibit two different 64-byte strings with the same hash.\<close>

theorem storage_location_binds_address:
  fixes keccak :: "bytes \<Rightarrow> b256"
  shows "get_storage_location_for_key keccak a i = (Ok (mapping_slot keccak (address_bytes a) [i]) :: (unit, _) outcome)
   \<and> (get_storage_location_for_key keccak a i = (get_storage_location_for_key keccak b j :: (unit, _) outcome)
      \<longrightarrow> (a = b \<and> i = j)
          \<or> (\<exists>xs ys. length xs = 64 \<and> length ys = 64 \<and> xs \<noteq> ys \<and> keccak xs = keccak ys))"
proof -
  have len: "length (left_pad32 (address_bytes c) @ left_pad32 [k]) = 64" for c k
    by (simp add: left_pad32_def)
  have "(\<exists>xs ys. length xs = 64 \<and> length ys = 64 \<and> xs \<noteq> ys \<and> keccak xs = keccak ys)"
    if "mapping_slot keccak (address_bytes a) [i] = mapping_slot keccak (address_bytes b) [j]"
      and "\<not> (a = b \<and> i = j)"
    using that len storage_preimage_inject [of a i b j] unfolding mapping_slot_def by blast
  then show ?thesis by (auto simp: storage_location_eq)
qed

theorem storage_location_binds_address_witness:
  "\<exists>xs ys. length xs = 64 \<and> length ys = 64 \<and> xs \<noteq> ys
     \<and> (\<lambda>bs :: bytes. 7 :: b256) xs = (\<lambda>bs. 7) ys"
  using storage_location_binds_address [of "\<lambda>bs. 7" "Address 1" 1 "Address 2" 1]
  by (simp add: storage_location_eq mapping_slot_def)

end
