(* ===== verification/Mpt.thy ===== *)
theory Mpt
  imports Types
begin

text \<open>
  \<open>golem-symbiotic-consensus-mpt-program/src/mpt.rs\<close>: verification of the account proof and of the
  storage slot proofs of the source contract, and the Merkle root of the verified slots.  Hashes,
  RLP, the trie proof verifier, the Poseidon sponge and the Merkle fold come from other crates and
  are the fields of the record \<open>mpt_env\<close>; its type parameter covers the values those crates keep
  opaque (field elements and sponge states).
\<close>

record 'm mpt_env =
  keccak256 :: "bytes \<Rightarrow> b256"
  nibbles_unpack :: "bytes \<Rightarrow> bytes"
  rlp_encode_account :: "trie_account \<Rightarrow> bytes"
  rlp_encode_u256 :: "u256 \<Rightarrow> bytes"
  verify_proof :: "b256 \<Rightarrow> bytes \<Rightarrow> bytes option \<Rightarrow> bytes list \<Rightarrow> string option"
  fp_from_bytes :: "bytes \<Rightarrow> (string, 'm) outcome"
  fp_to_bytes :: "'m \<Rightarrow> bytes"
  sponge_new :: "'m"
  sponge_absorb :: "'m \<Rightarrow> 'm list \<Rightarrow> 'm"
  sponge_squeeze :: "'m \<Rightarrow> 'm \<times> 'm" \<comment> \<open>the squeezed element and the mutated sponge\<close>
  compute_merkle_tree_depth_and_size :: "nat \<Rightarrow> nat \<times> nat"
  MAX_TREE_DEPTH :: nat
  get_merkle_zeros :: "'m list"
  fold_merkle_left :: "'m list \<Rightarrow> nat \<Rightarrow> nat \<Rightarrow> 'm list \<Rightarrow> 'm"

datatype mpt_error =
    InvalidAccountProof address string
  | InvalidStorageSlotProof b256 string
  | InvalidStorageSlotAddressMapping b256 address b256
  | MerkleHashError address u256 string
  | ExceedsMaxTreeDepth nat nat nat

section \<open>Operations\<close>

definition poseidon_hash :: "'m mpt_env \<Rightarrow> 'm list \<Rightarrow> 'm" where
  "poseidon_hash env input =
     (let hash = sponge_new env;
          hash = sponge_absorb env hash input
      in fst (sponge_squeeze env hash))"

definition hash_storage_slot :: "'m mpt_env \<Rightarrow> address \<Rightarrow> u256 \<Rightarrow> (string, 'm) outcome" where
  "hash_storage_slot env address value =
     (let address_slice = be_bytes 20 (address_word address);
          value_bytes = be_bytes 32 value
      in and_then (slice address_slice 0 20) (\<lambda>address20.
         and_then (copy_from_slice (replicate 32 0) 0 20 address20) (\<lambda>first.
         let first_field_bytes = first[20 := value_bytes ! 0] in
         and_then (slice value_bytes 1 32) (\<lambda>value31.
         and_then (copy_from_slice (replicate 32 0) 0 31 value31) (\<lambda>second_field_bytes.
         and_then (fp_from_bytes env first_field_bytes) (\<lambda>first_field.
         and_then (fp_from_bytes env second_field_bytes) (\<lambda>second_field.
         Ok (poseidon_hash env [first_field, second_field]))))))))"

text \<open>The body of the loop over the storage slots, and the loop with its vector of leaves.\<close>

definition verify_storage_slot ::
  "'m mpt_env \<Rightarrow> b256 \<Rightarrow> storage_slot \<Rightarrow> (mpt_error, 'm) outcome" where
  "verify_storage_slot env storage_root slot =
     (let key = ss_key slot;
          value = ss_expected_value slot;
          key_hash = keccak256 env (be_bytes 32 key);
          key_nibbles = nibbles_unpack env (be_bytes 32 key_hash);
          rlp_encoded_value = rlp_encode_u256 env value;
          address = ss_slot_key_address slot
      in and_then (get_storage_location_for_key (keccak256 env) address
                     SOURCE_CONTRACT_LOCKED_TOKENS_STORAGE_INDEX) (\<lambda>computed.
         if computed \<noteq> key then Err (InvalidStorageSlotAddressMapping key address computed)
         else
           case verify_proof env storage_root key_nibbles (Some rlp_encoded_value) (ss_mpt_proof slot) of
             Some e \<Rightarrow> Err (InvalidStorageSlotProof key e)
           | None \<Rightarrow> map_err (MerkleHashError address value) (hash_storage_slot env address value)))"

fun verify_storage_slots ::
  "'m mpt_env \<Rightarrow> b256 \<Rightarrow> storage_slot list \<Rightarrow> 'm list \<Rightarrow> (mpt_error, 'm list) outcome" where
  "verify_storage_slots env storage_root [] merkle_nodes = Ok merkle_nodes"
| "verify_storage_slots env storage_root (slot # slots) merkle_nodes =
     and_then (verify_storage_slot env storage_root slot) (\<lambda>leaf.
     verify_storage_slots env storage_root slots (merkle_nodes @ [leaf]))"

definition verify_storage_slot_proofs ::
  "'m mpt_env \<Rightarrow> b256 \<Rightarrow> contract_storage \<Rightarrow> (mpt_error, b256) outcome" where
  "verify_storage_slot_proofs env execution_state_root cs =
     (let address_hash = keccak256 env (be_bytes 20 (address_word (cs_address cs)));
          address_nibbles = nibbles_unpack env (be_bytes 32 address_hash);
          rlp_encoded_trie_account = rlp_encode_account env (cs_expected_value cs)
      in case verify_proof env execution_state_root address_nibbles (Some rlp_encoded_trie_account)
                (cs_mpt_proof cs) of
           Some e \<Rightarrow> Err (InvalidAccountProof (cs_address cs) e)
         | None \<Rightarrow>
             (let n_leaves = length (cs_storage_slots cs);
                  (depth, padded_size) = compute_merkle_tree_depth_and_size env n_leaves
              in if depth > MAX_TREE_DEPTH env
                 then Err (ExceedsMaxTreeDepth n_leaves depth (MAX_TREE_DEPTH env))
                 else
                   and_then (verify_storage_slots env (ta_storage_root (cs_expected_value cs))
                               (cs_storage_slots cs) []) (\<lambda>merkle_nodes.
                   let root = fold_merkle_left env merkle_nodes padded_size depth
                                (get_merkle_zeros env)
                   in and_then (copy_from_slice (replicate 32 0) 0 32 (fp_to_bytes env root))
                        (\<lambda>fixed_bytes. Ok (of_be_bytes fixed_bytes)))))"

section \<open>The leaf of a storage slot\<close>

text \<open>
  The two 32-byte field encodings a leaf is hashed from: the address with the first byte of the
  value, and the other 31 bytes of the value.  Both leave their most significant byte (the last
  one, the encoding being little-endian) zero.
\<close>

definition leaf_field1 :: "address \<Rightarrow> u256 \<Rightarrow> bytes" where
  "leaf_field1 a v = address_bytes a @ take 1 (be_bytes 32 v) @ replicate 11 0"

definition leaf_field2 :: "u256 \<Rightarrow> bytes" where
  "leaf_field2 v = drop 1 (be_bytes 32 v) @ [0]"

lemma length_leaf_field1 [simp]: "length (leaf_field1 a v) = 32"
  by (simp add: leaf_field1_def)

lemma length_leaf_field2 [simp]: "length (leaf_field2 v) = 32"
  by (simp add: leaf_field2_def)

lemma leaf_fields_inject:
  "leaf_field1 a v = leaf_field1 b w \<and> leaf_field2 v = leaf_field2 w \<longleftrightarrow> a = b \<and> v = w"
proof
  assume eq: "leaf_field1 a v = leaf_field1 b w \<and> leaf_field2 v = leaf_field2 w"
  then have "a = b" and "take 1 (be_bytes 32 v) = take 1 (be_bytes 32 w)"
    and "drop 1 (be_bytes 32 v) = drop 1 (be_bytes 32 w)"
    by (simp_all add: leaf_field1_def leaf_field2_def)
  then have "be_bytes 32 v = be_bytes 32 w"
    by (metis append_take_drop_id)
  with \<open>a = b\<close> show "a = b \<and> v = w"
    by (simp add: be_bytes_inject)
qed simp

lemma hash_storage_slot_fields:
  "hash_storage_slot env a v =
     and_then (fp_from_bytes env (leaf_field1 a v)) (\<lambda>x.
     and_then (fp_from_bytes env (leaf_field2 v)) (\<lambda>y.
     Ok (poseidon_hash env [x, y])))"
proof -
  obtain c cs where cs: "be_bytes 32 v = c # cs" "length cs = 31"
    using length_be_bytes [of 32 v] by (cases "be_bytes 32 v") auto
  have "(address_bytes a @ replicate 12 0)[20 := c] = address_bytes a @ c # replicate 11 0"
    by (simp add: list_update_next)
  then show ?thesis
    using cs
    by (simp add: hash_storage_slot_def Let_def slice_def copy_from_slice_def leaf_field1_def
        leaf_field2_def address_bytes_def)
qed

text \<open>
  \<open>Fp::from_bytes\<close> reads 32 bytes little-endian and refuses values that are not below the modulus
  of the Pallas base field, which is larger than \<open>2 ^ 254\<close>.
\<close>

definition le_value :: "bytes \<Rightarrow> nat" where
  "le_value bs = foldr (\<lambda>b acc. unat b + 256 * acc) bs 0"

definition fp_accepts_canonical :: "'m mpt_env \<Rightarrow> bool" where
  "fp_accepts_canonical env \<longleftrightarrow>
     (\<forall>bs. length bs = 32 \<and> le_value bs < 2 ^ 254 \<longrightarrow> (\<exists>x. fp_from_bytes env bs = Ok x))"

lemma le_value_append: "le_value (bs @ cs) = le_value bs + 256 ^ length bs * le_value cs"
  by (induction bs) (auto simp: le_value_def algebra_simps)

lemma le_value_less: "le_value bs < 256 ^ length bs"
proof (induction bs)
  case (Cons b bs)
  have "unat b < 256" using unsigned_less [where ?'a = nat, of b] by simp
  with Cons show ?case by (simp add: le_value_def)
qed (simp add: le_value_def)

lemma le_value_replicate_0 [simp]: "le_value (replicate n 0) = 0"
  by (induction n) (auto simp: le_value_def)

lemma le_value_top_zero: "le_value (bs @ [0]) < 256 ^ length bs"
  using le_value_less [of bs] by (simp add: le_value_append) (simp add: le_value_def)

lemma leaf_field1_canonical: "le_value (leaf_field1 a v) < 2 ^ 254"
proof -
  have "leaf_field1 a v = (address_bytes a @ take 1 (be_bytes 32 v) @ replicate 10 0) @ [0]"
    using replicate_add [of 10 1 "0::u8"] by (simp add: leaf_field1_def)
  then have "le_value (leaf_field1 a v) < 256 ^ 31"
    using le_value_top_zero [of "address_bytes a @ take 1 (be_bytes 32 v) @ replicate 10 0"]
    by simp
  then show ?thesis by simp
qed

lemma leaf_field2_canonical: "le_value (leaf_field2 v) < 2 ^ 254"
  using le_value_top_zero [of "drop 1 (be_bytes 32 v)"] by (simp add: leaf_field2_def)

lemma hash_storage_slot_total:
  "fp_accepts_canonical env \<Longrightarrow> \<exists>leaf. hash_storage_slot env a v = Ok leaf"
proof -
  assume "fp_accepts_canonical env"
  then obtain x y where "fp_from_bytes env (leaf_field1 a v) = Ok x"
    and "fp_from_bytes env (leaf_field2 v) = Ok y"
    using leaf_field1_canonical [of a v] leaf_field2_canonical [of v]
    by (metis fp_accepts_canonical_def length_leaf_field1 length_leaf_field2)
  then show ?thesis by (simp add: hash_storage_slot_fields)
qed

section \<open>What a verified contract storage is\<close>

definition account_verified :: "'m mpt_env \<Rightarrow> b256 \<Rightarrow> contract_storage \<Rightarrow> bool" where
  "account_verified env root cs \<longleftrightarrow>
     verify_proof env root
       (nibbles_unpack env (be_bytes 32 (keccak256 env (address_bytes (cs_address cs)))))
       (Some (rlp_encode_account env (cs_expected_value cs))) (cs_mpt_proof cs) = None"

definition slot_mapped :: "'m mpt_env \<Rightarrow> storage_slot \<Rightarrow> bool" where
  "slot_mapped env slot \<longleftrightarrow>
     ss_key slot = mapping_slot (keccak256 env) (address_bytes (ss_slot_key_address slot))
                     [SOURCE_CONTRACT_LOCKED_TOKENS_STORAGE_INDEX]"

definition slot_included :: "'m mpt_env \<Rightarrow> b256 \<Rightarrow> storage_slot \<Rightarrow> bool" where
  "slot_included env root slot \<longleftrightarrow>
     verify_proof env root
       (nibbles_unpack env (be_bytes 32 (keccak256 env (be_bytes 32 (ss_key slot)))))
       (Some (rlp_encode_u256 env (ss_expected_value slot))) (ss_mpt_proof slot) = None"

definition slot_leaf :: "'m mpt_env \<Rightarrow> b256 \<Rightarrow> storage_slot \<Rightarrow> 'm \<Rightarrow> bool" where
  "slot_leaf env root slot leaf \<longleftrightarrow>
     slot_mapped env slot \<and> slot_included env root slot \<and>
     hash_storage_slot env (ss_slot_key_address slot) (ss_expected_value slot) = Ok leaf"

lemmas slot_spec_defs = slot_mapped_def slot_included_def slot_leaf_def

lemma verify_storage_slot_Ok [guard_simps]:
  "verify_storage_slot env root slot = Ok leaf \<longleftrightarrow> slot_leaf env root slot leaf"
  by (auto simp: verify_storage_slot_def slot_spec_defs Let_def storage_location_eq
      map_err_Ok_iff split: option.splits)

lemma verify_storage_slots_Ok [guard_simps]:
  "verify_storage_slots env root slots acc = Ok nodes \<longleftrightarrow>
     (\<exists>leaves. list_all2 (slot_leaf env root) slots leaves \<and> nodes = acc @ leaves)"
proof (induction slots arbitrary: acc)
  case (Cons s slots)
  have "verify_storage_slots env root (s # slots) acc = Ok nodes \<longleftrightarrow>
      (\<exists>leaf leaves. slot_leaf env root s leaf \<and> list_all2 (slot_leaf env root) slots leaves \<and>
         nodes = acc @ leaf # leaves)"
    by (simp add: and_then_Ok_iff verify_storage_slot_Ok Cons.IH)
  then show ?case
    by (auto simp: list_all2_Cons1)
qed auto

lemma verify_storage_slots_try_fold:
  "verify_storage_slots env root slots acc =
     try_fold (\<lambda>nodes slot. and_then (verify_storage_slot env root slot) (\<lambda>leaf. Ok (nodes @ [leaf])))
       slots acc"
  by (induction slots arbitrary: acc) (auto simp: and_then_assoc)

lemma verify_storage_slots_Err:
  "verify_storage_slots env root slots acc = Err e \<longleftrightarrow>
     (\<exists>pre s post leaves. slots = pre @ s # post \<and> list_all2 (slot_leaf env root) pre leaves \<and>
        verify_storage_slot env root s = Err e)"
proof -
  have "verify_storage_slots env root slots acc = Err e \<longleftrightarrow>
     (\<exists>pre s post nodes. slots = pre @ s # post \<and> verify_storage_slots env root pre acc = Ok nodes \<and>
        verify_storage_slot env root s = Err e)"
    unfolding verify_storage_slots_try_fold try_fold_Err by (simp add: and_then_Err_iff)
  then show ?thesis
    by (simp add: verify_storage_slots_Ok)
qed

definition storage_root_commitment :: "'m mpt_env \<Rightarrow> 'm list \<Rightarrow> 'm" where
  "storage_root_commitment env leaves =
     (let (depth, padded_size) = compute_merkle_tree_depth_and_size env (length leaves)
      in fold_merkle_left env leaves padded_size depth (get_merkle_zeros env))"

lemma verify_storage_slot_proofs_Ok:
  "verify_storage_slot_proofs env root cs = Ok out \<longleftrightarrow>
     account_verified env root cs \<and>
     fst (compute_merkle_tree_depth_and_size env (length (cs_storage_slots cs))) \<le> MAX_TREE_DEPTH env \<and>
     (\<exists>leaves. list_all2 (slot_leaf env (ta_storage_root (cs_expected_value cs)))
                 (cs_storage_slots cs) leaves \<and>
        length (fp_to_bytes env (storage_root_commitment env leaves)) = 32 \<and>
        out = of_be_bytes (fp_to_bytes env (storage_root_commitment env leaves)))"
proof -
  obtain depth padded where tree:
    "compute_merkle_tree_depth_and_size env (length (cs_storage_slots cs)) = (depth, padded)"
    by (cases "compute_merkle_tree_depth_and_size env (length (cs_storage_slots cs))")
  have commit: "storage_root_commitment env leaves
      = fold_merkle_left env leaves padded depth (get_merkle_zeros env)"
    if "list_all2 P (cs_storage_slots cs) leaves" for P leaves
    using tree list_all2_lengthD [OF that] by (simp add: storage_root_commitment_def)
  show ?thesis
    by (auto simp: verify_storage_slot_proofs_def account_verified_def address_bytes_def Let_def
        tree commit outcome_simps guard_simps copy_from_slice_def
        split: option.splits if_splits cong: conj_cong)
qed

section \<open>Errors\<close>

text \<open>What a slot that is refused fails with: its mapping, its inclusion, then its leaf.\<close>

definition slot_error :: "'m mpt_env \<Rightarrow> b256 \<Rightarrow> storage_slot \<Rightarrow> mpt_error \<Rightarrow> bool" where
  "slot_error env root slot e \<longleftrightarrow>
     (let key = ss_key slot; a = ss_slot_key_address slot; v = ss_expected_value slot;
          computed = mapping_slot (keccak256 env) (address_bytes a) [SOURCE_CONTRACT_LOCKED_TOKENS_STORAGE_INDEX]
      in if computed \<noteq> key then e = InvalidStorageSlotAddressMapping key a computed
         else case verify_proof env root (nibbles_unpack env (be_bytes 32 (keccak256 env (be_bytes 32 key))))
                     (Some (rlp_encode_u256 env v)) (ss_mpt_proof slot) of
                Some r \<Rightarrow> e = InvalidStorageSlotProof key r
              | None \<Rightarrow> \<exists>r. hash_storage_slot env a v = Err r \<and> e = MerkleHashError a v r)"

lemma verify_storage_slot_Err: "verify_storage_slot env root slot = Err e \<longleftrightarrow> slot_error env root slot e"
  by (auto simp: verify_storage_slot_def slot_error_def Let_def storage_location_eq outcome_simps
      split: option.splits)

definition storage_error :: "'m mpt_env \<Rightarrow> b256 \<Rightarrow> contract_storage \<Rightarrow> mpt_error \<Rightarrow> bool" where
  "storage_error env root cs e \<longleftrightarrow>
     (let a = cs_address cs; n = length (cs_storage_slots cs);
          depth = fst (compute_merkle_tree_depth_and_size env n);
          storage_root = ta_storage_root (cs_expected_value cs)
      in case verify_proof env root (nibbles_unpack env (be_bytes 32 (keccak256 env (address_bytes a))))
                (Some (rlp_encode_account env (cs_expected_value cs))) (cs_mpt_proof cs) of
           Some r \<Rightarrow> e = InvalidAccountProof a r
         | None \<Rightarrow>
             if depth > MAX_TREE_DEPTH env then e = ExceedsMaxTreeDepth n depth (MAX_TREE_DEPTH env)
             else \<exists>pre slot post leaves. cs_storage_slots cs = pre @ slot # post
                    \<and> list_all2 (slot_leaf env storage_root) pre leaves
                    \<and> slot_error env storage_root slot e)"

lemma verify_storage_slot_proofs_Err:
  "verify_storage_slot_proofs env root cs = Err e \<longleftrightarrow> storage_error env root cs e"
proof -
  obtain depth padded where tree:
    "compute_merkle_tree_depth_and_size env (length (cs_storage_slots cs)) = (depth, padded)"
    by (cases "compute_merkle_tree_depth_and_size env (length (cs_storage_slots cs))")
  show ?thesis
    by (auto simp: verify_storage_slot_proofs_def storage_error_def Let_def tree outcome_simps
        verify_storage_slots_Err verify_storage_slot_Err address_bytes_def copy_from_slice_def
        split: option.splits if_splits)
qed

lemma hash_storage_slot_not_Panic:
  "(\<And>bs. fp_from_bytes env bs \<noteq> Panic) \<Longrightarrow> hash_storage_slot env a v \<noteq> Panic"
  by (auto simp: hash_storage_slot_fields outcome_simps)

lemma verify_storage_slots_not_Panic:
  "(\<And>bs. fp_from_bytes env bs \<noteq> Panic) \<Longrightarrow> verify_storage_slots env root slots acc \<noteq> Panic"
  using hash_storage_slot_not_Panic [of env]
  by (induction slots arbitrary: acc)
    (auto simp: outcome_simps verify_storage_slot_def Let_def storage_location_eq split: option.splits if_splits)

lemma verify_storage_slot_proofs_not_Panic:
  assumes "\<And>bs. fp_from_bytes env bs \<noteq> Panic" and "\<And>x. length (fp_to_bytes env x) = 32"
  shows "verify_storage_slot_proofs env root cs \<noteq> Panic"
  using verify_storage_slots_not_Panic [OF assms(1)] assms(2)
  by (auto simp: verify_storage_slot_proofs_def Let_def outcome_simps copy_from_slice_def
      split: option.splits prod.splits if_splits)

section \<open>A concrete environment\<close>

text \<open>
  Field elements are their encodings, a proof lists the bytes of the value, and the hash of a byte
  string is its number: enough structure to run the operations on concrete inputs.
\<close>

definition demo_mpt_env :: "bytes mpt_env" where
  "demo_mpt_env =
     \<lparr>keccak256 = of_be_bytes, nibbles_unpack = id, rlp_encode_account = (\<lambda>a. be_bytes 8 (ta_nonce a)),
      rlp_encode_u256 = be_bytes 32,
      verify_proof = (\<lambda>root path v proof. if v = Some (concat proof) then None else Some ''mismatch''),
      fp_from_bytes = (\<lambda>bs. if length bs = 32 \<and> le_value bs < 2 ^ 254 then Ok bs else Err ''range''),
      fp_to_bytes = (\<lambda>x. take 32 (x @ replicate 32 0)),
      sponge_new = [], sponge_absorb = (\<lambda>s xs. s @ concat xs), sponge_squeeze = (\<lambda>s. (s, s)),
      compute_merkle_tree_depth_and_size = (\<lambda>n. (n, 2 ^ n)), MAX_TREE_DEPTH = 16,
      get_merkle_zeros = [], fold_merkle_left = (\<lambda>nodes padded depth zeros. concat nodes)\<rparr>"

definition demo_slot :: storage_slot where
  "demo_slot = \<lparr>ss_key = mapping_slot of_be_bytes (address_bytes (Address 5)) [1],
                ss_slot_key_address = Address 5, ss_expected_value = 9,
                ss_mpt_proof = [be_bytes 32 (9 :: u256)]\<rparr>"

definition demo_storage :: contract_storage where
  "demo_storage =
     \<lparr>cs_address = Address 3,
      cs_expected_value = \<lparr>ta_nonce = 1, ta_balance = 0, ta_storage_root = 4, ta_code_hash = 2\<rparr>,
      cs_mpt_proof = [be_bytes 8 (1 :: u64)], cs_storage_slots = [demo_slot]\<rparr>"

lemma demo_fp_accepts: "fp_accepts_canonical demo_mpt_env"
  by (simp add: fp_accepts_canonical_def demo_mpt_env_def)

lemma demo_never_panics:
  "fp_from_bytes demo_mpt_env bs \<noteq> Panic" "length (fp_to_bytes demo_mpt_env x) = 32"
  by (simp_all add: demo_mpt_env_def)

definition demo_leaf :: bytes where
  "demo_leaf = leaf_field1 (Address 5) 9 @ leaf_field2 9"

lemma demo_slot_leaf: "slot_leaf demo_mpt_env root demo_slot demo_leaf"
  using leaf_field1_canonical [of "Address 5" 9] leaf_field2_canonical [of 9]
  by (simp add: slot_leaf_def slot_mapped_def slot_included_def hash_storage_slot_fields poseidon_hash_def
      demo_slot_def demo_mpt_env_def demo_leaf_def SOURCE_CONTRACT_LOCKED_TOKENS_STORAGE_INDEX_def)

lemma demo_storage_verified:
  "\<exists>out. verify_storage_slot_proofs demo_mpt_env root demo_storage = Ok out"
proof -
  have "list_all2 (slot_leaf demo_mpt_env 4) [demo_slot] [demo_leaf]"
    by (simp add: demo_slot_leaf)
  then show ?thesis
    using demo_never_panics(2)
    unfolding verify_storage_slot_proofs_Ok account_verified_def
    by (simp add: demo_storage_def demo_mpt_env_def) blast
qed

section \<open>Properties\<close>

text \<open>C8: Verifying the storage proofs succeeds exactly when the account is included under the state
  root, the tree is not too deep, and every slot is the locked-tokens slot of its address, is included
  with its value, and has a leaf; the result is the bytes of the Merkle root over the leaves in order.\<close>

theorem verified_storage_characterised:
  "verify_storage_slot_proofs env root cs = Ok out \<longleftrightarrow>
     account_verified env root cs \<and>
     fst (compute_merkle_tree_depth_and_size env (length (cs_storage_slots cs))) \<le> MAX_TREE_DEPTH env \<and>
     (\<exists>leaves. list_all2 (slot_leaf env (ta_storage_root (cs_expected_value cs))) (cs_storage_slots cs) leaves \<and>
        length (fp_to_bytes env (storage_root_commitment env leaves)) = 32 \<and>
        out = of_be_bytes (fp_to_bytes env (storage_root_commitment env leaves)))"
  by (rule verify_storage_slot_proofs_Ok)

text \<open>C18: Verification never panics, and it fails with exactly one classified error: the account's proof,
  then the tree depth, then the first slot in order that is refused, for its mapping or its inclusion.
  Hashing a leaf cannot fail, because both its field encodings are below the field's modulus.\<close>

theorem storage_errors_characterised:
  assumes "fp_accepts_canonical env" and "\<forall>bs. fp_from_bytes env bs \<noteq> Panic"
    and "\<forall>x. length (fp_to_bytes env x) = 32"
  shows "verify_storage_slot_proofs env root cs \<noteq> Panic
    \<and> (verify_storage_slot_proofs env root cs = Err e \<longleftrightarrow> storage_error env root cs e)
    \<and> verify_storage_slot_proofs env root cs \<noteq> Err (MerkleHashError a v r)"
proof -
  have "verify_storage_slot_proofs env root cs \<noteq> Panic"
    using assms(2,3) by (intro verify_storage_slot_proofs_not_Panic) auto
  have "\<not> slot_error env rt slot (MerkleHashError a v r)" for rt slot
    using hash_storage_slot_total [OF assms(1)]
    by (auto simp: slot_error_def Let_def split: option.split) (metis outcome.distinct(1))
  then have "\<not> storage_error env root cs (MerkleHashError a v r)"
    by (auto simp: storage_error_def Let_def split: option.splits if_splits)
  with \<open>verify_storage_slot_proofs env root cs \<noteq> Panic\<close> show ?thesis
    by (simp add: verify_storage_slot_proofs_Err)
qed

theorem storage_errors_characterised_witness:
  "verify_storage_slot_proofs demo_mpt_env 0 (demo_storage\<lparr>cs_mpt_proof := []\<rparr>)
     = Err (InvalidAccountProof (Address 3) ''mismatch'')"
proof -
  have "storage_error demo_mpt_env 0 (demo_storage\<lparr>cs_mpt_proof := []\<rparr>) (InvalidAccountProof (Address 3) ''mismatch'')"
    by (simp add: storage_error_def demo_storage_def) (simp add: demo_mpt_env_def)
  with storage_errors_characterised [OF demo_fp_accepts] demo_never_panics show ?thesis by blast
qed

text \<open>A leaf binds its address and value: two slots with the same leaf are the same address and
  value, or else exhibit two different pairs of field elements that Poseidon maps to one element.\<close>

theorem leaf_binds_address_and_value:
  assumes "hash_storage_slot env a v = Ok leaf" and "hash_storage_slot env b w = Ok leaf"
    and "\<forall>bs cs x. fp_from_bytes env bs = Ok x \<and> fp_from_bytes env cs = Ok x \<longrightarrow> bs = cs"
  shows "(a = b \<and> v = w) \<or> (\<exists>x y x' y'. [x, y] \<noteq> [x', y'] \<and> poseidon_hash env [x, y] = poseidon_hash env [x', y'])"
proof -
  from assms(1,2) obtain x y x' y' where
    f: "fp_from_bytes env (leaf_field1 a v) = Ok x" "fp_from_bytes env (leaf_field2 v) = Ok y"
      "fp_from_bytes env (leaf_field1 b w) = Ok x'" "fp_from_bytes env (leaf_field2 w) = Ok y'"
    and "poseidon_hash env [x, y] = poseidon_hash env [x', y']"
    by (auto simp: hash_storage_slot_fields outcome_simps)
  then show ?thesis
    using assms(3) leaf_fields_inject [of a v b w] by (cases "[x, y] = [x', y']") blast+
qed

theorem leaf_binds_address_and_value_witness:
  "\<exists>x y x' y'. [x, y] \<noteq> [x', y'] \<and>
     poseidon_hash (demo_mpt_env\<lparr>sponge_squeeze := \<lambda>s. ([], s)\<rparr>) [x, y]
     = poseidon_hash (demo_mpt_env\<lparr>sponge_squeeze := \<lambda>s. ([], s)\<rparr>) [x', y']"
proof -
  let ?env = "demo_mpt_env\<lparr>sponge_squeeze := \<lambda>s. ([], s)\<rparr>"
  have "hash_storage_slot ?env a v = Ok []" for a v
    using leaf_field1_canonical [of a v] leaf_field2_canonical [of v]
    by (simp add: hash_storage_slot_fields poseidon_hash_def demo_mpt_env_def)
  moreover have "\<forall>bs cs x. fp_from_bytes ?env bs = Ok x \<and> fp_from_bytes ?env cs = Ok x \<longrightarrow> bs = cs"
    by (auto simp: demo_mpt_env_def split: if_splits)
  ultimately have "(Address 1 = Address 2 \<and> (0 :: u256) = 0) \<or> ?thesis"
    by (intro leaf_binds_address_and_value)
  then show ?thesis by simp
qed

end
