(* ===== verification/Consensus_Program.thy ===== *)
theory Consensus_Program
  imports Mpt
begin

text \<open>
  \<open>golem-symbiotic-consensus-mpt-program/src/consensus.rs\<close> and \<open>src/main.rs\<close>: the zero-knowledge
  state transition with and without contract storage, and the zkVM entry point.  The mutable store
  of the code is threaded through the steps; a theorem at the end of the theory relates a chain of
  runs to one sequence of verified light-client events.
\<close>

datatype program_error =
    HashChainMismatch b256 b256 \<comment> \<open>expected, actual\<close>
  | InvalidUpdate nat string
  | InvalidFinalityUpdate string
  | MissingExecutionRoot
  | StoreHashingError string
  | ProgramMptError mpt_error

text \<open>\<open>From<MptError>\<close>: the conversion the question mark operator would apply; the program builds the error itself.\<close>

definition program_error_from :: "mpt_error \<Rightarrow> program_error" where
  [simp]: "program_error_from e = ProgramMptError e"

section \<open>Operations\<close>

text \<open>The loop over the sync committee updates; \<open>index\<close> is the counter of \<open>enumerate\<close>.\<close>

fun process_updates ::
  "'x light_client \<Rightarrow> u64 \<Rightarrow> b256 \<Rightarrow> 'x \<Rightarrow> nat \<Rightarrow> 'x lc_update list \<Rightarrow> 'x lc_store
   \<Rightarrow> (program_error, 'x lc_store) outcome" where
  "process_updates lc expected_current_slot genesis_root forks index [] store = Ok store"
| "process_updates lc expected_current_slot genesis_root forks index (update # updates) store =
     (case verify_update lc update expected_current_slot store genesis_root forks of
        Some err \<Rightarrow> Err (InvalidUpdate index err)
      | None \<Rightarrow> process_updates lc expected_current_slot genesis_root forks (Suc index) updates
                  (apply_update lc store update))"

definition process_finality_update ::
  "'x light_client \<Rightarrow> u64 \<Rightarrow> b256 \<Rightarrow> 'x \<Rightarrow> 'x lc_finality_update \<Rightarrow> 'x lc_store
   \<Rightarrow> (program_error, 'x lc_store) outcome" where
  "process_finality_update lc expected_current_slot genesis_root forks finality_update store =
     (case verify_finality_update lc finality_update expected_current_slot store genesis_root forks of
        Some err \<Rightarrow> Err (InvalidFinalityUpdate err)
      | None \<Rightarrow> Ok (apply_finality_update lc store finality_update))"

definition hash_store_or :: "string \<Rightarrow> 'x light_client \<Rightarrow> 'x lc_store \<Rightarrow> (program_error, b256) outcome" where
  "hash_store_or msg lc store =
     map_err (\<lambda>e. StoreHashingError (msg @ e)) (sha256_hash_helios_store lc store)"

definition sync_committee_hash :: "'x light_client \<Rightarrow> 'x lc_store \<Rightarrow> b256" where
  "sync_committee_hash lc store =
     (case lc_store.next_sync_committee store of Some c \<Rightarrow> tree_hash_root lc c | None \<Rightarrow> 0)"

definition consensus_program ::
  "'x light_client \<Rightarrow> 'x consensus_proof_inputs \<Rightarrow> (program_error, consensus_proof_outputs) outcome" where
  "consensus_program lc inputs =
     (let expected_current_slot = cpi_expected_current_slot inputs;
          genesis_root = cpi_genesis_root inputs;
          forks = cpi_forks inputs;
          store = cpi_store inputs;
          input_store_hash = cpi_store_hash inputs
      in and_then (hash_store_or ''Failed to hash store: '' lc store) (\<lambda>calculated.
         if calculated \<noteq> input_store_hash then Err (HashChainMismatch input_store_hash calculated)
         else
           let input_slot = beacon_slot (finalized_header store) in
           and_then (process_updates lc expected_current_slot genesis_root forks 0
                       (cpi_updates inputs) store) (\<lambda>store.
           and_then (process_finality_update lc expected_current_slot genesis_root forks
                       (cpi_finality_update inputs) store) (\<lambda>store.
           let output_slot = beacon_slot (finalized_header store);
               next_sync_committee_hash = sync_committee_hash lc store
           in case execution (finalized_header store) of
                None \<Rightarrow> Err MissingExecutionRoot
              | Some ex \<Rightarrow>
                  and_then (hash_store_or ''Failed to hash updated store: '' lc store) (\<lambda>output_store_hash.
                  Ok \<lparr>co_input_slot = input_slot, co_input_store_hash = input_store_hash,
                      co_output_slot = output_slot, co_output_store_hash = output_store_hash,
                      co_execution_state_root = state_root ex,
                      co_next_sync_committee_hash = next_sync_committee_hash\<rparr>)))))"

definition consensus_mpt_program ::
  "'x light_client \<Rightarrow> 'm mpt_env \<Rightarrow> 'x proof_inputs \<Rightarrow> bool
   \<Rightarrow> (program_error, proof_outputs) outcome" where
  "consensus_mpt_program lc env inputs debug_print =
     (let expected_current_slot = pi_expected_current_slot inputs;
          genesis_root = pi_genesis_root inputs;
          forks = pi_forks inputs;
          store = pi_store inputs;
          input_store_hash = pi_store_hash inputs
      in and_then (hash_store_or ''Failed to hash store: '' lc store) (\<lambda>calculated.
         if calculated \<noteq> input_store_hash then Err (HashChainMismatch input_store_hash calculated)
         else
           let input_slot = beacon_slot (finalized_header store) in
           and_then (process_updates lc expected_current_slot genesis_root forks 0
                       (pi_updates inputs) store) (\<lambda>store.
           and_then (process_finality_update lc expected_current_slot genesis_root forks
                       (pi_finality_update inputs) store) (\<lambda>store.
           case execution (finalized_header store) of
             None \<Rightarrow> Err MissingExecutionRoot
           | Some ex \<Rightarrow>
               and_then (map_err ProgramMptError
                           (verify_storage_slot_proofs env (state_root ex) (pi_contract_storage inputs)))
                 (\<lambda>slots_root.
               let output_slot = beacon_slot (finalized_header store);
                   next_sync_committee_hash = sync_committee_hash lc store
               in and_then (hash_store_or ''Failed to hash updated store: '' lc store) (\<lambda>output_store_hash.
                  Ok \<lparr>po_input_slot = input_slot, po_input_store_hash = input_store_hash,
                      po_output_slot = output_slot, po_output_store_hash = output_store_hash,
                      po_execution_state_root = state_root ex,
                      po_verified_contract_storage_slots_root = slots_root,
                      po_next_sync_committee_hash = next_sync_committee_hash\<rparr>))))))"

text \<open>
  The zkVM entry point reads CBOR-encoded inputs (\<open>decode\<close> stands for \<open>serde_cbor::from_slice\<close>),
  unwraps every result, and commits the bytes of the outputs.
\<close>

definition zk_main ::
  "(bytes \<Rightarrow> (string, 'x proof_inputs) outcome) \<Rightarrow> 'x light_client \<Rightarrow> 'm mpt_env \<Rightarrow> bytes
   \<Rightarrow> (decode_error, bytes) outcome" where
  "zk_main decode lc env encoded_inputs =
     and_then (unwrap (decode encoded_inputs)) (\<lambda>inputs.
     and_then (unwrap (consensus_mpt_program lc env inputs True)) (\<lambda>outputs.
     proof_outputs_to_bytes outputs))"

section \<open>Light-client events\<close>

text \<open>
  The specification of a run: a sequence of events, each verified against the store it is applied
  to, under the slot, genesis root and forks the run was given.
\<close>

datatype 'x lc_event = SyncUpdate "'x lc_update" | Finality "'x lc_finality_update"

record 'x lc_params =
  lp_expected_current_slot :: u64
  lp_genesis_root :: b256
  lp_forks :: 'x

fun event_verified :: "'x light_client \<Rightarrow> 'x lc_params \<Rightarrow> 'x lc_event \<Rightarrow> 'x lc_store \<Rightarrow> bool" where
  "event_verified lc p (SyncUpdate u) s \<longleftrightarrow>
     verify_update lc u (lp_expected_current_slot p) s (lp_genesis_root p) (lp_forks p) = None"
| "event_verified lc p (Finality u) s \<longleftrightarrow>
     verify_finality_update lc u (lp_expected_current_slot p) s (lp_genesis_root p) (lp_forks p) = None"

fun event_applied :: "'x light_client \<Rightarrow> 'x lc_event \<Rightarrow> 'x lc_store \<Rightarrow> 'x lc_store" where
  "event_applied lc (SyncUpdate u) s = apply_update lc s u"
| "event_applied lc (Finality u) s = apply_finality_update lc s u"

inductive accepted ::
  "'x light_client \<Rightarrow> 'x lc_store \<Rightarrow> ('x lc_params \<times> 'x lc_event) list \<Rightarrow> 'x lc_store \<Rightarrow> bool"
  for lc where
  accepted_nil: "accepted lc s [] s"
| accepted_cons: "event_verified lc p e s \<Longrightarrow> accepted lc (event_applied lc e s) es s'
    \<Longrightarrow> accepted lc s ((p, e) # es) s'"

inductive_simps accepted_Nil_simp [simp]: "accepted lc s [] s'"
inductive_simps accepted_Cons_simp [simp]: "accepted lc s (pe # es) s'"

lemma accepted_append:
  "accepted lc s (es @ fs) s'' \<longleftrightarrow> (\<exists>s'. accepted lc s es s' \<and> accepted lc s' fs s'')"
  by (induction es arbitrary: s) auto

lemma accepted_deterministic: "accepted lc s es s' \<Longrightarrow> accepted lc s es s'' \<Longrightarrow> s'' = s'"
  by (induction rule: accepted.induct) auto

definition run_params :: "'x consensus_proof_inputs \<Rightarrow> 'x lc_params" where
  "run_params i = \<lparr>lp_expected_current_slot = cpi_expected_current_slot i,
                   lp_genesis_root = cpi_genesis_root i, lp_forks = cpi_forks i\<rparr>"

definition run_events :: "'x consensus_proof_inputs \<Rightarrow> ('x lc_params \<times> 'x lc_event) list" where
  "run_events i = map (\<lambda>u. (run_params i, SyncUpdate u)) (cpi_updates i)
                  @ [(run_params i, Finality (cpi_finality_update i))]"

definition forget_storage :: "'x proof_inputs \<Rightarrow> 'x consensus_proof_inputs" where
  "forget_storage i =
     \<lparr>cpi_updates = pi_updates i, cpi_finality_update = pi_finality_update i,
      cpi_expected_current_slot = pi_expected_current_slot i, cpi_store = pi_store i,
      cpi_genesis_root = pi_genesis_root i, cpi_forks = pi_forks i, cpi_store_hash = pi_store_hash i\<rparr>"

section \<open>The runs meet the specification\<close>

lemma process_updates_Ok [guard_simps]:
  "process_updates lc (lp_expected_current_slot p) (lp_genesis_root p) (lp_forks p) n us s = Ok s'
   \<longleftrightarrow> accepted lc s (map (\<lambda>u. (p, SyncUpdate u)) us) s'"
  by (induction us arbitrary: n s) (auto split: option.splits)

lemma process_updates_append:
  "process_updates lc c g f n (us @ vs) s =
     and_then (process_updates lc c g f n us s) (process_updates lc c g f (n + length us) vs)"
  by (induction us arbitrary: n s) (auto split: option.splits)

lemma process_updates_Err:
  "process_updates lc (lp_expected_current_slot p) (lp_genesis_root p) (lp_forks p) n us s = Err e
   \<longleftrightarrow> (\<exists>pre u post sm r. us = pre @ u # post
         \<and> accepted lc s (map (\<lambda>u. (p, SyncUpdate u)) pre) sm
         \<and> verify_update lc u (lp_expected_current_slot p) sm (lp_genesis_root p) (lp_forks p) = Some r
         \<and> e = InvalidUpdate (n + length pre) r)" (is "?run n us s \<longleftrightarrow> ?first n us s")
proof
  show "?run n us s \<Longrightarrow> ?first n us s"
  proof (induction us arbitrary: n s)
    case (Cons u us)
    show ?case
    proof (cases "verify_update lc u (lp_expected_current_slot p) s (lp_genesis_root p) (lp_forks p)")
      case None
      with Cons obtain pre v post sm r where "us = pre @ v # post"
        "accepted lc (apply_update lc s u) (map (\<lambda>u. (p, SyncUpdate u)) pre) sm"
        "verify_update lc v (lp_expected_current_slot p) sm (lp_genesis_root p) (lp_forks p) = Some r"
        "e = InvalidUpdate (Suc n + length pre) r" by force
      with None have "u # us = (u # pre) @ v # post
          \<and> accepted lc s (map (\<lambda>u. (p, SyncUpdate u)) (u # pre)) sm
          \<and> verify_update lc v (lp_expected_current_slot p) sm (lp_genesis_root p) (lp_forks p) = Some r
          \<and> e = InvalidUpdate (n + length (u # pre)) r" by simp
      then show ?thesis by blast
    next
      case (Some r)
      with Cons.prems have "u # us = [] @ u # us
          \<and> accepted lc s (map (\<lambda>u. (p, SyncUpdate u)) []) s
          \<and> verify_update lc u (lp_expected_current_slot p) s (lp_genesis_root p) (lp_forks p) = Some r
          \<and> e = InvalidUpdate (n + length []) r" by simp
      then show ?thesis by blast
    qed
  qed simp
qed (auto simp: process_updates_append simp flip: process_updates_Ok [where n = n])

lemma process_updates_not_Panic [simp]: "process_updates lc c g f n us s \<noteq> Panic"
  by (induction us arbitrary: n s) (auto split: option.splits)

lemma process_finality_update_Ok [guard_simps]:
  "process_finality_update lc (lp_expected_current_slot p) (lp_genesis_root p) (lp_forks p) fu s = Ok s'
   \<longleftrightarrow> accepted lc s [(p, Finality fu)] s'"
  by (auto simp: process_finality_update_def split: option.splits)

lemma hash_store_or_Ok [guard_simps]:
  "hash_store_or msg lc s = Ok h \<longleftrightarrow> sha256_hash_helios_store lc s = Ok h"
  by (simp add: hash_store_or_def outcome_simps)

text \<open>The part of both programs before the outputs: hash check, updates, finality update.\<close>

definition reaches :: "'x light_client \<Rightarrow> 'x consensus_proof_inputs \<Rightarrow> 'x lc_store \<Rightarrow> bool" where
  "reaches lc i s' \<longleftrightarrow> sha256_hash_helios_store lc (cpi_store i) = Ok (cpi_store_hash i)
                      \<and> accepted lc (cpi_store i) (run_events i) s'"

lemma process_events_Ok:
  "accepted lc s (run_events i) s' \<longleftrightarrow>
     (\<exists>s1. process_updates lc (cpi_expected_current_slot i) (cpi_genesis_root i) (cpi_forks i) n
             (cpi_updates i) s = Ok s1
        \<and> process_finality_update lc (cpi_expected_current_slot i) (cpi_genesis_root i) (cpi_forks i)
             (cpi_finality_update i) s1 = Ok s')"
  using process_updates_Ok [of lc "run_params i" n "cpi_updates i"]
    process_finality_update_Ok [of lc "run_params i" "cpi_finality_update i"]
  by (simp add: run_events_def accepted_append run_params_def)

definition consensus_outputs ::
  "'x light_client \<Rightarrow> 'x consensus_proof_inputs \<Rightarrow> 'x lc_store \<Rightarrow> execution_header \<Rightarrow> b256
   \<Rightarrow> consensus_proof_outputs" where
  "consensus_outputs lc i s' ex out_hash =
     \<lparr>co_input_slot = beacon_slot (finalized_header (cpi_store i)),
      co_input_store_hash = cpi_store_hash i,
      co_output_slot = beacon_slot (finalized_header s'), co_output_store_hash = out_hash,
      co_execution_state_root = state_root ex,
      co_next_sync_committee_hash = sync_committee_hash lc s'\<rparr>"

lemma consensus_program_Ok [guard_simps]:
  "consensus_program lc i = Ok out \<longleftrightarrow>
     (\<exists>s' ex h. reaches lc i s' \<and> execution (finalized_header s') = Some ex
        \<and> sha256_hash_helios_store lc s' = Ok h \<and> out = consensus_outputs lc i s' ex h)"
  by (auto simp: consensus_program_def Let_def outcome_simps hash_store_or_Ok reaches_def
      process_events_Ok [where n = 0] consensus_outputs_def)

definition mpt_outputs :: "consensus_proof_outputs \<Rightarrow> b256 \<Rightarrow> proof_outputs" where
  "mpt_outputs out slots_root =
     \<lparr>po_input_slot = co_input_slot out, po_input_store_hash = co_input_store_hash out,
      po_output_slot = co_output_slot out, po_output_store_hash = co_output_store_hash out,
      po_execution_state_root = co_execution_state_root out,
      po_verified_contract_storage_slots_root = slots_root,
      po_next_sync_committee_hash = co_next_sync_committee_hash out\<rparr>"

lemma consensus_mpt_program_Ok [guard_simps]:
  "consensus_mpt_program lc env i dbg = Ok out \<longleftrightarrow>
     (\<exists>co r. consensus_program lc (forget_storage i) = Ok co
        \<and> verify_storage_slot_proofs env (co_execution_state_root co) (pi_contract_storage i) = Ok r
        \<and> out = mpt_outputs co r)"
proof -
  have "consensus_mpt_program lc env i dbg = Ok out \<longleftrightarrow>
     (\<exists>s' ex h r. reaches lc (forget_storage i) s' \<and> execution (finalized_header s') = Some ex
        \<and> sha256_hash_helios_store lc s' = Ok h
        \<and> verify_storage_slot_proofs env (state_root ex) (pi_contract_storage i) = Ok r
        \<and> out = mpt_outputs (consensus_outputs lc (forget_storage i) s' ex h) r)"
    by (auto simp: consensus_mpt_program_def Let_def outcome_simps hash_store_or_Ok reaches_def
        process_events_Ok [where n = 0] consensus_outputs_def mpt_outputs_def forget_storage_def)
  also have "\<dots> \<longleftrightarrow> (\<exists>co r. consensus_program lc (forget_storage i) = Ok co
        \<and> verify_storage_slot_proofs env (co_execution_state_root co) (pi_contract_storage i) = Ok r
        \<and> out = mpt_outputs co r)"
    by (fastforce simp: consensus_program_Ok consensus_outputs_def)
  finally show ?thesis .
qed

section \<open>Chains of runs\<close>

text \<open>Each run's input hash is the previous run's output hash, as the relying bridge checks.\<close>

fun hash_chained ::
  "'x light_client \<Rightarrow> b256 \<Rightarrow> ('x consensus_proof_inputs \<times> consensus_proof_outputs) list \<Rightarrow> bool" where
  "hash_chained lc h [] \<longleftrightarrow> True"
| "hash_chained lc h ((i, out) # runs) \<longleftrightarrow>
     consensus_program lc i = Ok out \<and> co_input_store_hash out = h
     \<and> hash_chained lc (co_output_store_hash out) runs"

fun final_hash :: "b256 \<Rightarrow> ('x consensus_proof_inputs \<times> consensus_proof_outputs) list \<Rightarrow> b256" where
  "final_hash h [] = h"
| "final_hash h ((i, out) # runs) = final_hash (co_output_store_hash out) runs"

fun final_slot :: "u64 \<Rightarrow> ('x consensus_proof_inputs \<times> consensus_proof_outputs) list \<Rightarrow> u64" where
  "final_slot n [] = n"
| "final_slot n ((i, out) # runs) = final_slot (co_output_slot out) runs"

definition run_log ::
  "('x consensus_proof_inputs \<times> consensus_proof_outputs) list \<Rightarrow> ('x lc_params \<times> 'x lc_event) list" where
  "run_log runs = concat (map (run_events \<circ> fst) runs)"

lemma run_log_simps [simp]:
  "run_log [] = []" "run_log ((i, out) # runs) = run_events i @ run_log runs"
  by (simp_all add: run_log_def)

text \<open>
  A second store with the same hash, at the point of the chain where a run starts from it: the
  store the previous runs reached, and the different one the next run was given.
\<close>

definition store_collision ::
  "'x light_client \<Rightarrow> 'x lc_store \<Rightarrow> ('x consensus_proof_inputs \<times> consensus_proof_outputs) list \<Rightarrow> bool"
where
  "store_collision lc s0 runs \<longleftrightarrow>
     (\<exists>pre i out post s. runs = pre @ (i, out) # post \<and> accepted lc s0 (run_log pre) s \<and> s \<noteq> cpi_store i
        \<and> sha256_hash_helios_store lc s = Ok (cpi_store_hash i)
        \<and> sha256_hash_helios_store lc (cpi_store i) = Ok (cpi_store_hash i))"

lemma store_collision_Cons:
  assumes "store_collision lc s' runs" and "accepted lc s0 (run_events i) s'"
  shows "store_collision lc s0 ((i, out) # runs)"
proof -
  from assms(1) obtain pre j o' post s where "runs = pre @ (j, o') # post" "accepted lc s' (run_log pre) s"
    and c: "s \<noteq> cpi_store j" "sha256_hash_helios_store lc s = Ok (cpi_store_hash j)"
      "sha256_hash_helios_store lc (cpi_store j) = Ok (cpi_store_hash j)"
    by (auto simp: store_collision_def)
  with assms(2) have "(i, out) # runs = ((i, out) # pre) @ (j, o') # post"
    and "accepted lc s0 (run_log ((i, out) # pre)) s"
    by (auto simp: accepted_append)
  with c show ?thesis unfolding store_collision_def by blast
qed

lemma chained_runs_accepted:
  "sha256_hash_helios_store lc s0 = Ok h \<Longrightarrow> hash_chained lc h runs \<Longrightarrow>
    store_collision lc s0 runs \<or>
    (\<exists>sN. accepted lc s0 (run_log runs) sN \<and> sha256_hash_helios_store lc sN = Ok (final_hash h runs)
       \<and> beacon_slot (finalized_header sN) = final_slot (beacon_slot (finalized_header s0)) runs)"
proof (induction runs arbitrary: s0 h)
  case (Cons run runs)
  obtain i out where run: "run = (i, out)" by (cases run)
  with Cons.prems obtain s' ex h' where s': "reaches lc i s'" "sha256_hash_helios_store lc s' = Ok h'"
    and out: "out = consensus_outputs lc i s' ex h'"
    by (auto simp: consensus_program_Ok)
  with run Cons.prems have chained: "hash_chained lc h' runs" and h: "cpi_store_hash i = h"
    by (auto simp: consensus_outputs_def)
  show ?case
  proof (cases "cpi_store i = s0")
    case True
    with s'(1) have step: "accepted lc s0 (run_events i) s'" by (simp add: reaches_def)
    from Cons.IH [OF s'(2) chained] show ?thesis
    proof
      assume "store_collision lc s' runs"
      with step run show ?thesis by (simp add: store_collision_Cons)
    next
      assume "\<exists>sN. accepted lc s' (run_log runs) sN \<and> sha256_hash_helios_store lc sN = Ok (final_hash h' runs)
         \<and> beacon_slot (finalized_header sN) = final_slot (beacon_slot (finalized_header s')) runs"
      with step run out show ?thesis by (auto simp: accepted_append consensus_outputs_def)
    qed
  next
    case False
    have "run # runs = [] @ (i, out) # runs" and "accepted lc s0 (run_log []) s0"
      using run by simp_all
    with False s'(1) h Cons.prems(1) show ?thesis
      unfolding store_collision_def reaches_def by metis
  qed
qed simp

text \<open>The hash check comes first, and nothing else reports a mismatch.\<close>

lemma process_updates_no_mismatch: "process_updates lc c g f n us s \<noteq> Err (HashChainMismatch h h')"
  by (induction us arbitrary: n s) (auto split: option.splits)

lemma consensus_program_mismatch:
  "consensus_program lc i = Err (HashChainMismatch h h') \<longleftrightarrow>
     h = cpi_store_hash i \<and> sha256_hash_helios_store lc (cpi_store i) = Ok h' \<and> h' \<noteq> h"
  by (auto simp: consensus_program_def Let_def outcome_simps hash_store_or_def process_updates_no_mismatch
      process_finality_update_def split: if_splits option.splits)

section \<open>A concrete light client\<close>

text \<open>Updates and finality updates are verified when their slot is ahead; a store hashes to its slot.\<close>

definition demo_light_client :: "nat light_client" where
  "demo_light_client =
     \<lparr>verify_update = (\<lambda>u c s g f. if beacon_slot (finalized_header s) < beacon_slot (update_finalized_header u)
                        then None else Some ''old''),
      apply_update = (\<lambda>s u. s\<lparr>finalized_header := update_finalized_header u, next_sync_committee := Some (update_rest u)\<rparr>),
      verify_finality_update = (\<lambda>u c s g f.
         if beacon_slot (finalized_header s) < beacon_slot (finality_finalized_header u)
         then None else Some ''not ahead''),
      apply_finality_update = (\<lambda>s u. s\<lparr>finalized_header := finality_finalized_header u\<rparr>),
      sha256_hash_helios_store = (\<lambda>s. Ok (ucast (beacon_slot (finalized_header s)))),
      tree_hash_root = of_nat\<rparr>"

definition demo_header :: "u64 \<Rightarrow> nat lc_header" where
  "demo_header slot =
     \<lparr>beacon_slot = slot, execution = Some \<lparr>state_root = 0, block_number = slot + 1000\<rparr>, header_rest = 0\<rparr>"

definition demo_store :: "u64 \<Rightarrow> nat lc_store" where
  "demo_store slot =
     \<lparr>finalized_header = demo_header slot, next_sync_committee = Some 7,
      previous_max_active_participants = 0, current_max_active_participants = 0, store_rest = 0\<rparr>"

definition demo_inputs :: "u64 \<Rightarrow> u64 \<Rightarrow> nat consensus_proof_inputs" where
  "demo_inputs from_slot to_slot =
     \<lparr>cpi_updates = [],
      cpi_finality_update = \<lparr>finality_finalized_header = demo_header to_slot, finality_rest = 0\<rparr>,
      cpi_expected_current_slot = 1000, cpi_store = demo_store from_slot, cpi_genesis_root = 1,
      cpi_forks = 0, cpi_store_hash = ucast from_slot\<rparr>"

definition demo_outputs :: "u64 \<Rightarrow> u64 \<Rightarrow> consensus_proof_outputs" where
  "demo_outputs from_slot to_slot =
     \<lparr>co_input_slot = from_slot, co_input_store_hash = ucast from_slot, co_output_slot = to_slot,
      co_output_store_hash = ucast to_slot, co_execution_state_root = 0, co_next_sync_committee_hash = 7\<rparr>"

lemmas demo_defs = demo_light_client_def demo_header_def demo_store_def demo_inputs_def demo_outputs_def

lemma demo_run:
  "consensus_program demo_light_client (demo_inputs a b) =
     (if a < b then Ok (demo_outputs a b) else Err (InvalidFinalityUpdate ''not ahead''))"
  by (simp add: consensus_program_def hash_store_or_def process_finality_update_def sync_committee_hash_def
      demo_defs Let_def)

section \<open>Properties\<close>

text \<open>C3: A chain of runs, each starting from the hash the previous one ended with, is one sequence of
  light-client updates, every one verified against the store the updates before it produced, and the
  last output hash and slot are those of the store they reach; unless some run was given a different
  store with the same hash.\<close>

theorem chained_runs_are_one_history:
  assumes "sha256_hash_helios_store lc s0 = Ok h" and "hash_chained lc h runs"
  shows "store_collision lc s0 runs \<or>
    (\<exists>sN. accepted lc s0 (run_log runs) sN \<and> sha256_hash_helios_store lc sN = Ok (final_hash h runs)
       \<and> beacon_slot (finalized_header sN) = final_slot (beacon_slot (finalized_header s0)) runs)"
  using assms by (rule chained_runs_accepted)

theorem chained_runs_are_one_history_witness:
  "let runs = [(demo_inputs 32 64, demo_outputs 32 64), (demo_inputs 64 96, demo_outputs 64 96)]
   in store_collision demo_light_client (demo_store 32) runs \<or>
      (\<exists>sN. accepted demo_light_client (demo_store 32) (run_log runs) sN
         \<and> sha256_hash_helios_store demo_light_client sN = Ok 96)"
proof -
  have "hash_chained demo_light_client 32
      [(demo_inputs 32 64, demo_outputs 32 64), (demo_inputs 64 96, demo_outputs 64 96)]"
    by (simp add: demo_run) (simp add: demo_outputs_def)
  moreover have "sha256_hash_helios_store demo_light_client (demo_store 32) = Ok 32"
    by (simp add: demo_defs)
  ultimately show ?thesis
    using chained_runs_are_one_history [of demo_light_client "demo_store 32" 32]
    by (fastforce simp: Let_def demo_outputs_def)
qed

text \<open>C7: The consensus transition succeeds exactly when the store hashes to the given hash, all updates
  and then the finality update are verified in order, and the store they reach has an execution header
  and hashes; its outputs are the slots, hashes, state root and sync committee of these two stores.\<close>

theorem consensus_program_characterised:
  "consensus_program lc i = Ok out \<longleftrightarrow>
     (\<exists>s' ex h. sha256_hash_helios_store lc (cpi_store i) = Ok (cpi_store_hash i)
        \<and> accepted lc (cpi_store i) (run_events i) s'
        \<and> execution (finalized_header s') = Some ex \<and> sha256_hash_helios_store lc s' = Ok h
        \<and> out = consensus_outputs lc i s' ex h)"
  by (auto simp: consensus_program_Ok reaches_def)

text \<open>C6: The full transition refines the consensus one: it succeeds exactly when the consensus
  transition on the same inputs succeeds and the contract storage is verified against the execution
  state root of its outputs, and it adds only the root of the verified slots to them.\<close>

theorem mpt_program_refines_consensus_program:
  "consensus_mpt_program lc env i dbg = Ok out \<longleftrightarrow>
     (\<exists>co r. consensus_program lc (forget_storage i) = Ok co
        \<and> verify_storage_slot_proofs env (co_execution_state_root co) (pi_contract_storage i) = Ok r
        \<and> out = mpt_outputs co r)"
  by (rule consensus_mpt_program_Ok)

text \<open>C26: How the transition refuses: a store that hashes to something else is a hash chain mismatch
  naming both hashes, and an invalid update is reported with the position of the first update that is
  not verified against the store the updates before it produced.\<close>

theorem rejections_name_the_first_fault:
  "(consensus_program lc i = Err (HashChainMismatch h h') \<longleftrightarrow>
      h = cpi_store_hash i \<and> sha256_hash_helios_store lc (cpi_store i) = Ok h' \<and> h' \<noteq> h)
   \<and> (consensus_program lc i = Err (InvalidUpdate k r) \<longleftrightarrow>
      sha256_hash_helios_store lc (cpi_store i) = Ok (cpi_store_hash i) \<and>
      (\<exists>pre u post sm. cpi_updates i = pre @ u # post \<and> k = length pre
         \<and> accepted lc (cpi_store i) (map (\<lambda>u. (run_params i, SyncUpdate u)) pre) sm
         \<and> verify_update lc u (cpi_expected_current_slot i) sm (cpi_genesis_root i) (cpi_forks i) = Some r))"
proof -
  have upd: "process_updates lc (cpi_expected_current_slot i) (cpi_genesis_root i) (cpi_forks i) 0 us s
      = Err (InvalidUpdate k r) \<longleftrightarrow> (\<exists>pre u post sm. us = pre @ u # post \<and> k = length pre
         \<and> accepted lc s (map (\<lambda>u. (run_params i, SyncUpdate u)) pre) sm
         \<and> verify_update lc u (cpi_expected_current_slot i) sm (cpi_genesis_root i) (cpi_forks i) = Some r)" for us s
    using process_updates_Err [of lc "run_params i" 0 us s "InvalidUpdate k r"]
    by (simp add: run_params_def) blast
  have "consensus_program lc i = Err (InvalidUpdate k r) \<longleftrightarrow>
      sha256_hash_helios_store lc (cpi_store i) = Ok (cpi_store_hash i) \<and>
      (\<exists>pre u post sm. cpi_updates i = pre @ u # post \<and> k = length pre
         \<and> accepted lc (cpi_store i) (map (\<lambda>u. (run_params i, SyncUpdate u)) pre) sm
         \<and> verify_update lc u (cpi_expected_current_slot i) sm (cpi_genesis_root i) (cpi_forks i) = Some r)"
    by (auto simp: consensus_program_def Let_def outcome_simps hash_store_or_def upd
        process_finality_update_def split: if_splits option.splits)
  with consensus_program_mismatch [of lc i h h'] show ?thesis by simp
qed

text \<open>C27: The zkVM entry point never returns an error: it commits bytes exactly when the input decodes
  and the transition succeeds on it, and the committed bytes decode to the transition's outputs;
  in every other case it aborts without a commitment.\<close>

theorem zk_main_commits_verified_outputs:
  "(zk_main decode lc env bs = Ok committed \<longleftrightarrow>
      (\<exists>i out. decode bs = Ok i \<and> consensus_mpt_program lc env i True = Ok out
         \<and> proof_outputs_from_bytes committed = Ok out))
   \<and> zk_main decode lc env bs \<noteq> Err e"
proof -
  have total: "\<exists>out. proof_outputs_to_bytes p = Ok out" for p
    using po_codec.enc_total [of p] by blast
  have ok: "zk_main decode lc env bs = Ok committed \<longleftrightarrow>
      (\<exists>i out. decode bs = Ok i \<and> consensus_mpt_program lc env i True = Ok out
         \<and> proof_outputs_from_bytes committed = Ok out)" for committed
    by (auto simp: zk_main_def outcome_simps po_codec.dec_iff)
  have "zk_main decode lc env bs \<noteq> Err e" for e
    using total by (auto simp: zk_main_def outcome_simps) (metis outcome.distinct(1))
  with ok show ?thesis by blast
qed

end
