(* ===== verification/Execution_Http.thy ===== *)
theory Execution_Http
  imports Provider_Io Env_Text Consensus_Program
begin

text \<open>
  \<open>golem-symbiotic-consensus-mpt/src/rpcs/execution/http.rs\<close>: collecting the deposit events of a
  block range in chunks with retries, turning their users into storage slots, fetching the account
  and storage proofs, and assembling and dry-running the proof inputs.
\<close>

section \<open>Events, responses and the environment\<close>

text \<open>The event \<open>TokensLocked\<close> of the contract bindings.\<close>

record tokens_locked =
  tl_user :: address
  tl_amount :: u256
  tl_when :: u256

text \<open>The parts of \<open>EIP1186AccountProofResponse\<close> (alloy) the program reads.\<close>

record storage_proof_response =
  sp_key :: b256
  sp_value :: u256
  sp_proof :: "bytes list"

record account_proof_response =
  ap_address :: address
  ap_balance :: u256
  ap_code_hash :: b256
  ap_nonce :: u64
  ap_storage_hash :: b256
  ap_account_proof :: "bytes list"
  ap_storage_proof :: "storage_proof_response list"

text \<open>
  What comes from outside: the RPC calls of an alloy provider, the event decoder of the \<open>sol!\<close>
  macro, the timer, the time another thread takes, the clock of a provider's world (in the unit of
  the timeouts), and the iteration order of a \<open>HashMap\<close>.
\<close>

record ('w, 'l) exec_env =
  get_logs :: "address \<Rightarrow> string \<Rightarrow> u64 \<Rightarrow> u64 \<Rightarrow> ('w, string, 'l list) io"
  tokens_locked_signature :: string
  decode_log :: "'l \<Rightarrow> tokens_locked option"
  get_proof :: "address \<Rightarrow> b256 list \<Rightarrow> u64 \<Rightarrow> ('w, string, account_proof_response) io"
  sleep :: "nat \<Rightarrow> 'w \<Rightarrow> 'w"
  run_blocking :: "'w \<Rightarrow> 'w"
  clock :: "'w \<Rightarrow> nat"
  hash_map_keys :: "(b256 \<rightharpoonup> address) \<Rightarrow> b256 list"

datatype http_error =
    LogsRpcError string
  | ExecutionHttpRpcError string
  | DryRunFailed program_error
  | DryRunJoinError

section \<open>Deposit events\<close>

definition CHUNK_SIZE :: u64 where
  "CHUNK_SIZE = 100"

definition MAX_RETRIES :: nat where
  "MAX_RETRIES = 3"

definition RETRY_BASE_DELAY :: nat where \<comment> \<open>seconds\<close>
  "RETRY_BASE_DELAY = 1"

definition EXECUTION_PROVIDER_TIMEOUT :: nat where \<comment> \<open>seconds\<close>
  "EXECUTION_PROVIDER_TIMEOUT = 20"

text \<open>Addition on \<open>u64\<close> with the overflow check of the language; \<open>Panic\<close> when it fails.\<close>

definition checked_add :: "u64 \<Rightarrow> u64 \<Rightarrow> ('e, u64) outcome" where
  "checked_add a b = (if unat a + unat b < 2 ^ 64 then Ok (a + b) else Panic)"

definition get_source_contract_event_chunk ::
  "('w, 'l) exec_env \<Rightarrow> address \<Rightarrow> u64 \<Rightarrow> u64 \<Rightarrow> ('w, http_error, tokens_locked list) io" where
  "get_source_contract_event_chunk env contract_address start end_block =
     io_bind (io_map_err LogsRpcError
                (get_logs env contract_address (tokens_locked_signature env) start end_block)) (\<lambda>logs.
     io_of (Ok (List.map_filter (decode_log env) logs)))"

text \<open>The inner loop: a failed chunk is tried again, after a delay that doubles each time.\<close>

function fetch_chunk_with_retries ::
  "('w, 'l) exec_env \<Rightarrow> address \<Rightarrow> u64 \<Rightarrow> u64 \<Rightarrow> nat \<Rightarrow> ('w, http_error, tokens_locked list) io" where
  "fetch_chunk_with_retries env contract_address start end_block retries w =
     (case get_source_contract_event_chunk env contract_address start end_block w of
        None \<Rightarrow> None
      | Some (Ok events, w') \<Rightarrow> Some (Ok events, w')
      | Some (Panic, w') \<Rightarrow> Some (Panic, w')
      | Some (Err e, w') \<Rightarrow>
          if retries < MAX_RETRIES
          then fetch_chunk_with_retries env contract_address start end_block (Suc retries)
                 (sleep env (RETRY_BASE_DELAY * 2 ^ retries) w')
          else Some (Err e, w'))"
  by pat_completeness auto
termination
  by (relation "measure (\<lambda>(env, a, s, e, retries, w). MAX_RETRIES - retries)") auto

declare fetch_chunk_with_retries.simps [simp del]

lemma chunk_progress:
  assumes "current \<le> end_block" and "(checked_add current CHUNK_SIZE :: (http_error, u64) outcome) = Ok far"
    and "(checked_add (min far end_block) 1 :: (http_error, u64) outcome) = Ok nxt"
  shows "current \<le> min far end_block" and "unat nxt = Suc (unat (min far end_block))"
proof -
  have far: "unat far = unat current + 100"
    using assms(2) by (auto simp: checked_add_def CHUNK_SIZE_def unat_word_ariths split: if_splits)
  then have "current \<le> far" by (simp add: word_le_nat_alt)
  with assms(1) show "current \<le> min far end_block" by simp
  show "unat nxt = Suc (unat (min far end_block))"
    using assms(3) by (auto simp: checked_add_def unat_word_ariths split: if_splits)
qed

function get_source_contract_events_from ::
  "('w, 'l) exec_env \<Rightarrow> address \<Rightarrow> u64 \<Rightarrow> u64 \<Rightarrow> tokens_locked list
   \<Rightarrow> ('w, http_error, tokens_locked list) io" where
  "get_source_contract_events_from env contract_address current_block end_block all_events w =
     (if current_block \<le> end_block then
        (case (checked_add current_block CHUNK_SIZE :: (http_error, u64) outcome) of
           Ok far \<Rightarrow>
             (let chunk_end = min far end_block in
              case fetch_chunk_with_retries env contract_address current_block chunk_end 0 w of
                None \<Rightarrow> None
              | Some (Ok events, w') \<Rightarrow>
                  (case (checked_add chunk_end 1 :: (http_error, u64) outcome) of
                     Ok next_block \<Rightarrow>
                       get_source_contract_events_from env contract_address next_block end_block
                         (all_events @ events) w'
                   | _ \<Rightarrow> Some (Panic, w'))
              | Some (Err e, w') \<Rightarrow> Some (Err e, w')
              | Some (Panic, w') \<Rightarrow> Some (Panic, w'))
         | _ \<Rightarrow> Some (Panic, w))
      else Some (Ok all_events, w))"
  by pat_completeness auto
termination
proof (relation "measure (\<lambda>(env, a, current, end_block, evs, w). Suc (unat end_block) - unat current)",
    goal_cases)
  case (2 env a current end_block evs w far chunk_end x y events w' nxt)
  then show ?case
    using chunk_progress [of current end_block far nxt] by (auto simp: word_le_nat_alt)
qed simp

definition get_source_contract_events_of ::
  "('w, 'l) exec_env \<Rightarrow> address \<Rightarrow> u64 \<Rightarrow> u64 \<Rightarrow> ('w, http_error, tokens_locked list) io" where
  "get_source_contract_events_of env contract_address start_block end_block =
     get_source_contract_events_from env contract_address start_block end_block []"

declare get_source_contract_events_from.simps [simp del]

section \<open>Storage slots of the users\<close>

definition addresses_attestation_pair_to_storage_slots ::
  "(bytes \<Rightarrow> b256) \<Rightarrow> tokens_locked list \<Rightarrow> ('e, b256 \<rightharpoonup> address) outcome" where
  "addresses_attestation_pair_to_storage_slots keccak events =
     try_fold (\<lambda>slots event.
         and_then (get_storage_location_for_key keccak (tl_user event)
                     SOURCE_CONTRACT_LOCKED_TOKENS_STORAGE_INDEX) (\<lambda>slot.
         Ok (slots(slot \<mapsto> tl_user event)))) events Map.empty"

text \<open>A slot of the response whose key was not asked for is a failed \<open>expect\<close>.\<close>

definition collect_storage_slot ::
  "(b256 \<rightharpoonup> address) \<Rightarrow> storage_proof_response \<Rightarrow> ('e, storage_slot) outcome" where
  "collect_storage_slot slot_addresses slot =
     and_then (expect (slot_addresses (sp_key slot))) (\<lambda>address.
     Ok \<lparr>ss_key = sp_key slot, ss_slot_key_address = address, ss_expected_value = sp_value slot,
         ss_mpt_proof = sp_proof slot\<rparr>)"

primrec collect_storage_slots ::
  "(b256 \<rightharpoonup> address) \<Rightarrow> storage_proof_response list \<Rightarrow> ('e, storage_slot list) outcome" where
  "collect_storage_slots slot_addresses [] = Ok []"
| "collect_storage_slots slot_addresses (slot # slots) =
     and_then (collect_storage_slot slot_addresses slot) (\<lambda>s.
     and_then (collect_storage_slots slot_addresses slots) (\<lambda>ss. Ok (s # ss)))"

section \<open>Proof inputs\<close>

definition get_proof_at ::
  "('w, 'l) exec_env \<Rightarrow> address \<Rightarrow> b256 list \<Rightarrow> u64 \<Rightarrow> ('w, http_error, account_proof_response) io" where
  "get_proof_at env contract_address storage_keys block =
     io_map_err ExecutionHttpRpcError (get_proof env contract_address storage_keys block)"

definition assemble_proof_inputs ::
  "'x consensus_proof_inputs \<Rightarrow> account_proof_response \<Rightarrow> storage_slot list \<Rightarrow> 'x proof_inputs" where
  "assemble_proof_inputs inputs response storage_slots =
     \<lparr>pi_updates = cpi_updates inputs, pi_finality_update = cpi_finality_update inputs,
      pi_expected_current_slot = cpi_expected_current_slot inputs, pi_store = cpi_store inputs,
      pi_genesis_root = cpi_genesis_root inputs, pi_forks = cpi_forks inputs,
      pi_store_hash = cpi_store_hash inputs,
      pi_contract_storage =
        \<lparr>cs_address = ap_address response,
         cs_expected_value = \<lparr>ta_nonce = ap_nonce response, ta_balance = ap_balance response,
                              ta_storage_root = ap_storage_hash response,
                              ta_code_hash = ap_code_hash response\<rparr>,
         cs_mpt_proof = ap_account_proof response, cs_storage_slots = storage_slots\<rparr>\<rparr>"

definition prepare_mpt_proof_inputs_from ::
  "('w, 'l) exec_env \<Rightarrow> 'x light_client \<Rightarrow> 'm mpt_env \<Rightarrow> bool \<Rightarrow> address \<Rightarrow> u64 \<Rightarrow> u64
   \<Rightarrow> 'x consensus_proof_inputs \<Rightarrow> ('w, http_error, 'x proof_inputs) io" where
  "prepare_mpt_proof_inputs_from env lc mpt enable_debug contract_address input_block_number
       output_block_number validated_inputs =
     io_bind (get_source_contract_events_of env contract_address input_block_number
                output_block_number) (\<lambda>contract_events.
     io_bind (io_of (addresses_attestation_pair_to_storage_slots (keccak256 mpt) contract_events))
       (\<lambda>slot_addresses.
     io_bind (get_proof_at env contract_address (hash_map_keys env slot_addresses)
                output_block_number) (\<lambda>response.
     io_bind (io_of (collect_storage_slots slot_addresses (ap_storage_proof response)))
       (\<lambda>storage_slots.
     let proof_inputs = assemble_proof_inputs validated_inputs response
                          (sort_key ss_slot_key_address storage_slots)
     in io_bind (spawn_blocking (run_blocking env) DryRunJoinError DryRunFailed
                   (consensus_mpt_program lc mpt proof_inputs enable_debug)) (\<lambda>_.
        io_of (Ok proof_inputs))))))"

section \<open>The proxy over several providers\<close>

record 'w execution_http_proxy =
  eh_principal_provider :: 'w
  eh_backup_providers :: "'w list"
  eh_source_state_bridge_contract_address :: address
  eh_validation_timeout :: nat

definition get_source_contract_address ::
  "(string \<rightharpoonup> string) \<Rightarrow> (string \<Rightarrow> address option) \<Rightarrow> (config_error, address) outcome" where
  "get_source_contract_address env_var parse_address =
     and_then (ok_or (MissingVariable ''TOKEN_BRIDGE_ADDRESS'') (env_var ''TOKEN_BRIDGE_ADDRESS''))
       (\<lambda>s. ok_or (InvalidAddress s) (parse_address s))"

text \<open>
  \<open>parse_url\<close> parses a URL and connects to it, \<open>parse_address\<close> is the address parser of
  \<open>alloy_primitives\<close>.
\<close>

definition execution_http_proxy_from_env ::
  "(string \<rightharpoonup> string) \<Rightarrow> (string \<Rightarrow> 'w option) \<Rightarrow> (string \<Rightarrow> address option)
   \<Rightarrow> (config_error, 'w execution_http_proxy) outcome" where
  "execution_http_proxy_from_env env_var parse_url parse_address =
     and_then (validation_timeout_from env_var ''EXECUTION_PROOF_INPUT_VALIDATION_TIMEOUT'')
       (\<lambda>validation_timeout.
     and_then (ok_or (MissingVariable ''SOURCE_EXECUTION_HTTP_RPCS'') (env_var ''SOURCE_EXECUTION_HTTP_RPCS''))
       (\<lambda>source_execution_http_urls.
     case rpc_urls parse_url source_execution_http_urls of
       [] \<Rightarrow> Err (NoValidUrls ''SOURCE_EXECUTION_HTTP_RPCS'')
     | principal_provider # providers \<Rightarrow>
         and_then (get_source_contract_address env_var parse_address) (\<lambda>contract_address.
         Ok \<lparr>eh_principal_provider = principal_provider, eh_backup_providers = providers,
             eh_source_state_bridge_contract_address = contract_address,
             eh_validation_timeout = validation_timeout\<rparr>)))"

definition execution_http_proxy_try_from_env ::
  "(string \<rightharpoonup> string) \<Rightarrow> (string \<Rightarrow> 'w option) \<Rightarrow> (string \<Rightarrow> address option)
   \<Rightarrow> ('e, 'w execution_http_proxy) outcome" where
  "execution_http_proxy_try_from_env env_var parse_url parse_address =
     unwrap (execution_http_proxy_from_env env_var parse_url parse_address)"

definition execution_prepare_consensus_mpt_proof_inputs ::
  "(http_error, 'x proof_inputs) runtime \<Rightarrow> ('w, 'l) exec_env \<Rightarrow> 'x light_client \<Rightarrow> 'm mpt_env \<Rightarrow> bool
   \<Rightarrow> 'w execution_http_proxy \<Rightarrow> u64 \<Rightarrow> u64 \<Rightarrow> u64 \<Rightarrow> u64 \<Rightarrow> 'x consensus_proof_inputs \<Rightarrow> b256
   \<Rightarrow> nat \<times> (http_error query_error, 'x proof_inputs_with_window) outcome" where
  "execution_prepare_consensus_mpt_proof_inputs rt env lc mpt enable_debug proxy input_slot output_slot
       input_block_number output_block_number validated_inputs expected_output_store_hash =
     (let (t, output) = query_with_fallback rt (eh_principal_provider proxy) (eh_backup_providers proxy)
            (future_of (clock env)
               (prepare_mpt_proof_inputs_from env lc mpt enable_debug
                  (eh_source_state_bridge_contract_address proxy) input_block_number
                  output_block_number validated_inputs))
            (eh_validation_timeout proxy)
      in (t, and_then output (\<lambda>output.
             Ok \<lparr>w_input_slot = input_slot, w_expected_output_slot = output_slot,
                 w_input_block_number = input_block_number,
                 w_expected_output_block_number = output_block_number,
                 w_proof_inputs = output,
                 w_expected_output_store_hash = expected_output_store_hash\<rparr>)))"

definition get_source_contract_events ::
  "(http_error, tokens_locked list) runtime \<Rightarrow> ('w, 'l) exec_env \<Rightarrow> 'w execution_http_proxy
   \<Rightarrow> u64 \<Rightarrow> u64 \<Rightarrow> nat \<times> (http_error query_error, tokens_locked list) outcome" where
  "get_source_contract_events rt env proxy start_block end_block =
     query_with_fallback rt (eh_principal_provider proxy) (eh_backup_providers proxy)
       (future_of (clock env)
          (get_source_contract_events_of env (eh_source_state_bridge_contract_address proxy)
             start_block end_block))
       EXECUTION_PROVIDER_TIMEOUT"

section \<open>Retries and chunks\<close>

lemma fetch_chunk_fails:
  "fetch_chunk_with_retries env a s e 0 w = Some (Err err, w') \<longleftrightarrow>
     (\<exists>e1 w1 e2 w2 e3 w3.
        get_source_contract_event_chunk env a s e w = Some (Err e1, w1) \<and>
        get_source_contract_event_chunk env a s e (sleep env 1 w1) = Some (Err e2, w2) \<and>
        get_source_contract_event_chunk env a s e (sleep env 2 w2) = Some (Err e3, w3) \<and>
        get_source_contract_event_chunk env a s e (sleep env 4 w3) = Some (Err err, w'))"
proof -
  have step: "fetch_chunk_with_retries env a s e n w = Some (Err err, w') \<longleftrightarrow>
      (\<exists>e1 w1. get_source_contract_event_chunk env a s e w = Some (Err e1, w1) \<and>
         (if n < 3 then fetch_chunk_with_retries env a s e (Suc n) (sleep env (2 ^ n) w1)
                         = Some (Err err, w')
          else e1 = err \<and> w1 = w'))" for n w
    by (subst fetch_chunk_with_retries.simps)
      (auto simp: MAX_RETRIES_def RETRY_BASE_DELAY_def split: option.splits outcome.splits)
  show ?thesis
    by (simp add: step [of 0] step [of "Suc 0"] step [of "Suc (Suc 0)"]
        step [of "Suc (Suc (Suc 0))"])
qed

lemma map_filter_append: "List.map_filter f (xs @ ys) = List.map_filter f xs @ List.map_filter f ys"
  by (simp add: List.map_filter_def)

text \<open>
  \<open>serves\<close>: a successful log query of the provider returns the logs of exactly the blocks asked for,
  in block order, as \<open>eth_getLogs\<close> does; failed queries are not restricted.
\<close>

definition serves :: "('w, 'l) exec_env \<Rightarrow> address \<Rightarrow> (nat \<Rightarrow> 'l list) \<Rightarrow> bool" where
  "serves env a logs_of \<longleftrightarrow>
     (\<forall>s e w logs w'. get_logs env a (tokens_locked_signature env) s e w = Some (Ok logs, w')
        \<longrightarrow> logs = concat (map logs_of [unat s..<Suc (unat e)]))"

definition block_events :: "('w, 'l) exec_env \<Rightarrow> (nat \<Rightarrow> 'l list) \<Rightarrow> nat \<Rightarrow> nat \<Rightarrow> tokens_locked list" where
  "block_events env logs_of lo hi =
     List.map_filter (decode_log env) (concat (map logs_of [lo..<Suc hi]))"

lemma block_events_split:
  "lo \<le> mid \<Longrightarrow> mid \<le> hi \<Longrightarrow>
   block_events env logs_of lo mid @ block_events env logs_of (Suc mid) hi
   = block_events env logs_of lo hi"
  using upt_add_eq_append [of lo "Suc mid" "hi - mid"]
  by (simp add: block_events_def flip: map_filter_append del: upt_Suc)

lemma block_events_empty: "hi < lo \<Longrightarrow> block_events env logs_of lo hi = []"
  by (simp add: block_events_def List.map_filter_def del: upt_Suc)

lemma fetch_chunk_events:
  "fetch_chunk_with_retries env a s e n w = Some (Ok events, w') \<Longrightarrow> serves env a logs_of
    \<Longrightarrow> events = block_events env logs_of (unat s) (unat e)"
proof (induction env a s e n w rule: fetch_chunk_with_retries.induct)
  case (1 env a s e n w)
  show ?case
  proof (cases "get_source_contract_event_chunk env a s e w")
    case None
    with "1.prems" show ?thesis by (simp add: fetch_chunk_with_retries.simps [of env a s e n w])
  next
    case (Some r)
    obtain res w1 where r: "r = (res, w1)" by (cases r)
    show ?thesis
    proof (cases res)
      case (Ok evs)
      with Some r "1.prems"(1) have "get_source_contract_event_chunk env a s e w = Some (Ok events, w')"
        by (simp add: fetch_chunk_with_retries.simps [of env a s e n w])
      with "1.prems"(2) show ?thesis
        unfolding serves_def
        by (fastforce simp: get_source_contract_event_chunk_def outcome_simps block_events_def
            simp del: upt_Suc)
    next
      case (Err err)
      with Some r "1.prems"(1) have "n < MAX_RETRIES" and "fetch_chunk_with_retries env a s e (Suc n)
          (sleep env (RETRY_BASE_DELAY * 2 ^ n) w1) = Some (Ok events, w')"
        by (simp_all add: fetch_chunk_with_retries.simps [of env a s e n w] split: if_splits)
      with "1.IH" [OF Some r [symmetric] Err] "1.prems"(2) show ?thesis by blast
    next
      case Panic
      with Some r "1.prems"(1) show ?thesis
        by (simp add: fetch_chunk_with_retries.simps [of env a s e n w])
    qed
  qed
qed

lemma events_from_step:
  assumes "get_source_contract_events_from env a cur hi acc w = Some (Ok events, w')" and "cur \<le> hi"
  obtains mid nxt evs w1 where "unat cur \<le> unat mid" "unat mid \<le> unat hi" "unat nxt = Suc (unat mid)"
    "fetch_chunk_with_retries env a cur mid 0 w = Some (Ok evs, w1)"
    "get_source_contract_events_from env a nxt hi (acc @ evs) w1 = Some (Ok events, w')"
proof -
  from assms obtain far where far: "(checked_add cur CHUNK_SIZE :: (http_error, u64) outcome) = Ok far"
    by (subst (asm) get_source_contract_events_from.simps) (auto split: outcome.splits)
  with assms obtain evs w1 where evs: "fetch_chunk_with_retries env a cur (min far hi) 0 w = Some (Ok evs, w1)"
    by (subst (asm) get_source_contract_events_from.simps)
      (auto simp: Let_def split: outcome.splits option.splits)
  with assms far obtain nxt where nxt: "(checked_add (min far hi) 1 :: (http_error, u64) outcome) = Ok nxt"
    and rest: "get_source_contract_events_from env a nxt hi (acc @ evs) w1 = Some (Ok events, w')"
    by (subst (asm) get_source_contract_events_from.simps)
      (auto simp: Let_def split: outcome.splits option.splits)
  from chunk_progress [OF assms(2) far nxt] evs rest show ?thesis
    by (intro that [of "min far hi" nxt evs w1]) (auto simp flip: word_le_nat_alt)
qed

lemma events_from_covers:
  "get_source_contract_events_from env a cur hi acc w = Some (Ok events, w') \<Longrightarrow> serves env a logs_of
    \<Longrightarrow> events = acc @ block_events env logs_of (unat cur) (unat hi)"
proof (induction "Suc (unat hi) - unat cur" arbitrary: cur acc w rule: less_induct)
  case less
  show ?case
  proof (cases "cur \<le> hi")
    case True
    with less.prems(1) obtain mid nxt evs w1 where
      bounds: "unat cur \<le> unat mid" "unat mid \<le> unat hi" "unat nxt = Suc (unat mid)"
      and evs: "fetch_chunk_with_retries env a cur mid 0 w = Some (Ok evs, w1)"
      and rest: "get_source_contract_events_from env a nxt hi (acc @ evs) w1 = Some (Ok events, w')"
      by (rule events_from_step)
    from bounds have "Suc (unat hi) - unat nxt < Suc (unat hi) - unat cur" by simp
    from less.hyps [OF this rest less.prems(2)] fetch_chunk_events [OF evs less.prems(2)] bounds
    show ?thesis by (simp add: block_events_split)
  next
    case False
    with less.prems show ?thesis
      by (auto simp: get_source_contract_events_from.simps [of env a cur] block_events_empty
          word_le_nat_alt)
  qed
qed

section \<open>The slot map and the assembled slots\<close>

definition locked_tokens_slot :: "(bytes \<Rightarrow> b256) \<Rightarrow> address \<Rightarrow> b256" where
  "locked_tokens_slot keccak a =
     mapping_slot keccak (address_bytes a) [SOURCE_CONTRACT_LOCKED_TOKENS_STORAGE_INDEX]"

lemma slot_map_invariant:
  assumes "\<forall>k a. m k = Some a \<longrightarrow> locked_tokens_slot keccak a = k \<and> a \<in> U"
  shows "\<exists>m'. try_fold (\<lambda>slots event.
         and_then (get_storage_location_for_key keccak (tl_user event)
                     SOURCE_CONTRACT_LOCKED_TOKENS_STORAGE_INDEX) (\<lambda>slot.
         Ok (slots(slot \<mapsto> tl_user event)))) events m = (Ok m' :: ('e, _) outcome)
      \<and> (\<forall>k a. m' k = Some a \<longrightarrow> locked_tokens_slot keccak a = k \<and> a \<in> U \<union> tl_user ` set events)
      \<and> dom m' = dom m \<union> locked_tokens_slot keccak ` tl_user ` set events"
  using assms
proof (induction events arbitrary: m U)
  case (Cons e es)
  let ?m = "m(locked_tokens_slot keccak (tl_user e) \<mapsto> tl_user e)"
  have inv: "\<forall>k a. ?m k = Some a \<longrightarrow> locked_tokens_slot keccak a = k \<and> a \<in> insert (tl_user e) U"
    using Cons.prems by auto
  from Cons.IH [of ?m "insert (tl_user e) U", OF inv] show ?case
    by (fastforce simp: storage_location_eq locked_tokens_slot_def)
qed auto

lemma slot_map:
  obtains m where "addresses_attestation_pair_to_storage_slots keccak events = (Ok m :: ('e, _) outcome)"
    and "\<And>k a. m k = Some a \<Longrightarrow> locked_tokens_slot keccak a = k \<and> a \<in> tl_user ` set events"
    and "dom m = locked_tokens_slot keccak ` tl_user ` set events"
  using slot_map_invariant [of Map.empty keccak "{}" events]
  by (auto simp: addresses_attestation_pair_to_storage_slots_def)

definition slot_from :: "(b256 \<rightharpoonup> address) \<Rightarrow> storage_proof_response \<Rightarrow> storage_slot \<Rightarrow> bool" where
  "slot_from m r s \<longleftrightarrow> m (sp_key r) = Some (ss_slot_key_address s) \<and> ss_key s = sp_key r
     \<and> ss_expected_value s = sp_value r \<and> ss_mpt_proof s = sp_proof r"

lemma collect_storage_slot_Ok: "collect_storage_slot m r = Ok s \<longleftrightarrow> slot_from m r s"
  by (cases s) (auto simp: collect_storage_slot_def outcome_simps slot_from_def)

lemma collect_storage_slots_Ok: "collect_storage_slots m rs = Ok ss \<longleftrightarrow> list_all2 (slot_from m) rs ss"
proof (induction rs arbitrary: ss)
  case (Cons r rs)
  show ?case
    by (auto simp: outcome_simps collect_storage_slot_Ok Cons.IH list_all2_Cons1)
qed auto

lemma collect_storage_slots_Panic:
  "collect_storage_slots m rs = Panic \<longleftrightarrow> (\<exists>r \<in> set rs. m (sp_key r) = None)"
proof (induction rs)
  case (Cons r rs)
  show ?case
    by (cases "m (sp_key r)") (auto simp: outcome_simps collect_storage_slot_def Cons.IH)
qed simp

lemma collect_storage_slots_not_Err [simp]: "collect_storage_slots m rs \<noteq> Err e"
proof (induction rs)
  case (Cons r rs)
  then show ?case
    by (cases "m (sp_key r)") (auto simp: outcome_simps collect_storage_slot_def)
qed simp

lemma slot_map_Ok:
  assumes "addresses_attestation_pair_to_storage_slots keccak events = (Ok m :: ('e, _) outcome)"
  shows "dom m = locked_tokens_slot keccak ` tl_user ` set events"
    and "\<forall>k a. m k = Some a \<longrightarrow> locked_tokens_slot keccak a = k \<and> a \<in> tl_user ` set events"
    and "finite (dom m)"
proof -
  obtain m' where "addresses_attestation_pair_to_storage_slots keccak events = (Ok m' :: ('e, _) outcome)"
    "\<And>k a. m' k = Some a \<Longrightarrow> locked_tokens_slot keccak a = k \<and> a \<in> tl_user ` set events"
    "dom m' = locked_tokens_slot keccak ` tl_user ` set events"
    using slot_map [of keccak events, where ?'e = 'e] by blast
  with assms show "dom m = locked_tokens_slot keccak ` tl_user ` set events"
    and "\<forall>k a. m k = Some a \<longrightarrow> locked_tokens_slot keccak a = k \<and> a \<in> tl_user ` set events"
    by simp_all
  then show "finite (dom m)" by simp
qed

lemma slot_map_not_Panic [simp]:
  "addresses_attestation_pair_to_storage_slots keccak events \<noteq> (Panic :: ('e, _) outcome)"
  using slot_map [of keccak events, where ?'e = 'e] by (metis outcome.distinct(3))

section \<open>What prepared inputs hold\<close>

text \<open>
  The documented behaviour of the calls: they report failures as errors, \<open>eth_getProof\<close> answers
  with one storage proof per requested key, and the keys of a map are iterated in some order.
\<close>

definition calls_return :: "('w, 'l) exec_env \<Rightarrow> bool" where
  "calls_return env \<longleftrightarrow>
     (\<forall>a sg s e w w'. get_logs env a sg s e w \<noteq> Some (Panic, w')) \<and>
     (\<forall>a ks b w w'. get_proof env a ks b w \<noteq> Some (Panic, w'))"

definition proofs_as_requested :: "('w, 'l) exec_env \<Rightarrow> bool" where
  "proofs_as_requested env \<longleftrightarrow>
     (\<forall>a ks b w r w'. get_proof env a ks b w = Some (Ok r, w')
        \<longrightarrow> sp_key ` set (ap_storage_proof r) = set ks) \<and>
     (\<forall>m. finite (dom m) \<longrightarrow> set (hash_map_keys env m) = dom m)"

lemma fetch_chunk_not_Panic:
  "calls_return env \<Longrightarrow> fetch_chunk_with_retries env a s e n w \<noteq> Some (Panic, w')"
proof (induction env a s e n w rule: fetch_chunk_with_retries.induct)
  case (1 env a s e n w)
  have "get_source_contract_event_chunk env a s e w \<noteq> Some (Panic, w1)" for w1
    using "1.prems" by (auto simp: get_source_contract_event_chunk_def outcome_simps calls_return_def)
  with 1 show ?case
    by (subst fetch_chunk_with_retries.simps) (auto split: option.split outcome.split)
qed

lemma events_from_not_Panic:
  "calls_return env \<Longrightarrow> unat hi + unat CHUNK_SIZE < 2 ^ 64
    \<Longrightarrow> get_source_contract_events_from env a cur hi acc w \<noteq> Some (Panic, w')"
proof (induction env a cur hi acc w rule: get_source_contract_events_from.induct)
  case (1 env a cur hi acc w)
  show ?case
  proof (cases "cur \<le> hi")
    case True
    with "1.prems"(2) have far: "(checked_add cur CHUNK_SIZE :: (http_error, u64) outcome) = Ok (cur + CHUNK_SIZE)"
      by (simp add: checked_add_def word_le_nat_alt)
    have "unat (min (cur + CHUNK_SIZE) hi) \<le> unat hi" by (simp flip: word_le_nat_alt)
    with "1.prems"(2) have nxt: "(checked_add (min (cur + CHUNK_SIZE) hi) 1 :: (http_error, u64) outcome)
        = Ok (min (cur + CHUNK_SIZE) hi + 1)"
      by (simp add: checked_add_def CHUNK_SIZE_def)
    show ?thesis
      using 1 True far nxt fetch_chunk_not_Panic [OF "1.prems"(1)]
      by (subst get_source_contract_events_from.simps)
        (auto simp: Let_def split: option.split outcome.split)
  qed (subst get_source_contract_events_from.simps, simp)
qed

text \<open>The data of a successful preparation, from the events to the dry run.\<close>

definition prepared_from ::
  "('w, 'l) exec_env \<Rightarrow> 'm mpt_env \<Rightarrow> address \<Rightarrow> u64 \<Rightarrow> tokens_locked list \<Rightarrow> account_proof_response
   \<Rightarrow> storage_slot list \<Rightarrow> bool" where
  "prepared_from env mpt a block events r slots \<longleftrightarrow>
     (\<exists>m w w'. dom m = locked_tokens_slot (keccak256 mpt) ` tl_user ` set events
        \<and> (\<forall>k u. m k = Some u \<longrightarrow> locked_tokens_slot (keccak256 mpt) u = k \<and> u \<in> tl_user ` set events)
        \<and> get_proof env a (hash_map_keys env m) block w = Some (Ok r, w')
        \<and> list_all2 (slot_from m) (ap_storage_proof r) slots)"

lemma prepare_Ok:
  assumes "prepare_mpt_proof_inputs_from env lc mpt dbg a lo hi cpi w = Some (Ok inputs, w')"
  obtains events w1 r slots out where
    "get_source_contract_events_of env a lo hi w = Some (Ok events, w1)"
    "prepared_from env mpt a hi events r slots"
    "inputs = assemble_proof_inputs cpi r (sort_key ss_slot_key_address slots)"
    "consensus_mpt_program lc mpt inputs dbg = Ok out"
proof -
  from assms obtain events w1 m r w2 w3 slots out where
    "get_source_contract_events_of env a lo hi w = Some (Ok events, w1)"
    and m: "addresses_attestation_pair_to_storage_slots (keccak256 mpt) events
              = (Ok m :: (http_error, _) outcome)"
    and "get_proof env a (hash_map_keys env m) hi w2 = Some (Ok r, w3)"
    and "list_all2 (slot_from m) (ap_storage_proof r) slots"
    and "inputs = assemble_proof_inputs cpi r (sort_key ss_slot_key_address slots)"
    and "consensus_mpt_program lc mpt inputs dbg = Ok out"
    by (auto simp: prepare_mpt_proof_inputs_from_def outcome_simps get_proof_at_def Let_def
        collect_storage_slots_Ok)
  moreover note slot_map_Ok [OF m]
  ultimately show ?thesis
    by (intro that [of events w1 r slots out]) (unfold prepared_from_def, blast+)
qed

lemma forget_storage_assemble [simp]: "forget_storage (assemble_proof_inputs cpi r slots) = cpi"
  by (simp add: forget_storage_def assemble_proof_inputs_def)

lemma assembled_slots [simp]:
  "cs_storage_slots (pi_contract_storage (assemble_proof_inputs cpi r slots)) = slots"
  "ap_address r = cs_address (pi_contract_storage (assemble_proof_inputs cpi r slots))"
  by (simp_all add: assemble_proof_inputs_def)

lemma list_all2_member_right:
  "list_all2 P xs ys \<Longrightarrow> y \<in> set ys \<Longrightarrow> \<exists>x \<in> set xs. P x y"
  by (metis in_set_conv_nth list_all2_conv_all_nth)

lemma list_all2_member_left:
  "list_all2 P xs ys \<Longrightarrow> x \<in> set xs \<Longrightarrow> \<exists>y \<in> set ys. P x y"
  by (metis in_set_conv_nth list_all2_conv_all_nth)

lemma prepared_slots_of_users:
  assumes "prepared_from env mpt a block events r slots" and "s \<in> set slots"
  shows "slot_mapped mpt s \<and> ss_slot_key_address s \<in> tl_user ` set events"
  using assms
  by (fastforce simp: prepared_from_def slot_from_def slot_mapped_def locked_tokens_slot_def
      dest: list_all2_member_right)

lemma prepared_slots_complete:
  assumes "prepared_from env mpt a block events r slots" and "proofs_as_requested env"
  shows "ss_key ` set slots = locked_tokens_slot (keccak256 mpt) ` tl_user ` set events"
proof -
  from assms(1) obtain m w w' where dom: "dom m = locked_tokens_slot (keccak256 mpt) ` tl_user ` set events"
    and r: "get_proof env a (hash_map_keys env m) block w = Some (Ok r, w')"
    and slots: "list_all2 (slot_from m) (ap_storage_proof r) slots"
    by (auto simp: prepared_from_def)
  from dom have "finite (dom m)" by simp
  with r assms(2) have "sp_key ` set (ap_storage_proof r) = dom m"
    unfolding proofs_as_requested_def by blast
  moreover from slots have "map ss_key slots = map sp_key (ap_storage_proof r)"
    by (induction rule: list_all2_induct) (auto simp: slot_from_def)
  then have "ss_key ` set slots = sp_key ` set (ap_storage_proof r)"
    by (metis set_map)
  ultimately show ?thesis using dom by simp
qed

lemma prepare_not_Panic:
  assumes "calls_return env" and "proofs_as_requested env" and "unat hi + unat CHUNK_SIZE < 2 ^ 64"
  shows "prepare_mpt_proof_inputs_from env lc mpt dbg a lo hi cpi w \<noteq> Some (Panic, w')"
proof
  assume panic: "prepare_mpt_proof_inputs_from env lc mpt dbg a lo hi cpi w = Some (Panic, w')"
  have no_panic: "get_source_contract_events_of env a lo hi w \<noteq> Some (Panic, w1)" for w1
    using events_from_not_Panic [OF assms(1,3)] by (simp add: get_source_contract_events_of_def)
  from panic obtain events w1 m where
    m: "addresses_attestation_pair_to_storage_slots (keccak256 mpt) events = (Ok m :: (http_error, _) outcome)"
    and r: "get_proof_at env a (hash_map_keys env m) hi w1 = Some (Panic, w')
      \<or> (\<exists>r w2. get_proof_at env a (hash_map_keys env m) hi w1 = Some (Ok r, w2)
        \<and> collect_storage_slots m (ap_storage_proof r) = (Panic :: (http_error, _) outcome))"
    by (simp add: prepare_mpt_proof_inputs_from_def outcome_simps Let_def no_panic) blast
  note fin = slot_map_Ok(3) [OF m]
  from r assms(1) obtain r w2 where r: "get_proof env a (hash_map_keys env m) hi w1 = Some (Ok r, w2)"
    and "\<exists>p \<in> set (ap_storage_proof r). m (sp_key p) = None"
    by (auto simp: get_proof_at_def outcome_simps calls_return_def collect_storage_slots_Panic)
  moreover from r assms(2) fin have "sp_key ` set (ap_storage_proof r) = dom m"
    unfolding proofs_as_requested_def by blast
  ultimately show False by (metis domIff image_eqI)
qed

section \<open>A concrete provider\<close>

text \<open>One deposit, in block 1050, by the user of the concrete slot; proofs are built per requested key.\<close>

definition demo_event :: tokens_locked where
  "demo_event = \<lparr>tl_user = Address 5, tl_amount = 9, tl_when = 1\<rparr>"

definition demo_logs :: "nat \<Rightarrow> tokens_locked list" where
  "demo_logs block = (if block = 1050 then [demo_event] else [])"

definition demo_proof :: "b256 list \<Rightarrow> account_proof_response" where
  "demo_proof keys =
     \<lparr>ap_address = Address 3, ap_balance = 0, ap_code_hash = 2, ap_nonce = 1, ap_storage_hash = 4,
      ap_account_proof = [be_bytes 8 (1 :: u64)],
      ap_storage_proof = map (\<lambda>k. \<lparr>sp_key = k, sp_value = 9, sp_proof = [be_bytes 32 (9 :: u256)]\<rparr>) keys\<rparr>"

definition demo_exec_env :: "(nat, tokens_locked) exec_env" where
  "demo_exec_env =
     \<lparr>get_logs = (\<lambda>a sg s e w. Some (Ok (if unat s \<le> 1050 \<and> 1050 \<le> unat e then [demo_event] else []), Suc w)),
      tokens_locked_signature = ''TokensLocked(address,uint256,uint256)'', decode_log = Some,
      get_proof = (\<lambda>a ks b w. Some (Ok (demo_proof ks), Suc w)),
      sleep = (\<lambda>d w. w + d), run_blocking = Suc, clock = id,
      hash_map_keys = (\<lambda>m. sorted_list_of_set (dom m))\<rparr>"

lemma demo_logs_range:
  "concat (map demo_logs [lo..<hi]) = (if lo \<le> 1050 \<and> 1050 < hi then [demo_event] else [])"
  by (induction hi) (auto simp: demo_logs_def)

lemma demo_serves: "serves demo_exec_env a demo_logs"
  by (auto simp: serves_def demo_exec_env_def demo_logs_range simp del: upt_Suc)

lemma demo_calls_return: "calls_return demo_exec_env"
  by (simp add: calls_return_def demo_exec_env_def)

lemma demo_proofs_as_requested: "proofs_as_requested demo_exec_env"
  by (auto simp: proofs_as_requested_def demo_exec_env_def demo_proof_def image_image)

lemma demo_chunk: "get_source_contract_event_chunk demo_exec_env a s e w =
    Some (Ok (if unat s \<le> 1050 \<and> 1050 \<le> unat e then [demo_event] else []), Suc w)"
  by (simp add: get_source_contract_event_chunk_def demo_exec_env_def io_bind_def io_map_err_def io_of_def)

lemma demo_events: "get_source_contract_events_of demo_exec_env a 1032 1064 w = Some (Ok [demo_event], Suc w)"
  by (simp add: get_source_contract_events_of_def get_source_contract_events_from.simps checked_add_def
      CHUNK_SIZE_def fetch_chunk_with_retries.simps demo_chunk min_def)

definition demo_update :: "nat lc_update" where
  "demo_update = \<lparr>update_finalized_header = demo_header 40, update_rest = 7\<rparr>"

definition demo_consensus_inputs :: "nat consensus_proof_inputs" where
  "demo_consensus_inputs = (demo_inputs 32 64)\<lparr>cpi_updates := [demo_update]\<rparr>"

lemma demo_consensus_run: "consensus_program demo_light_client demo_consensus_inputs = Ok (demo_outputs 32 64)"
  by (simp add: consensus_program_def hash_store_or_def process_finality_update_def sync_committee_hash_def
      demo_defs demo_consensus_inputs_def demo_update_def Let_def)

definition demo_proof_inputs :: "nat proof_inputs" where
  "demo_proof_inputs =
     assemble_proof_inputs demo_consensus_inputs (demo_proof [ss_key demo_slot]) [demo_slot]"

lemma demo_slot_map:
  "addresses_attestation_pair_to_storage_slots of_be_bytes [demo_event]
   = Ok [ss_key demo_slot \<mapsto> Address 5]"
  by (simp add: addresses_attestation_pair_to_storage_slots_def storage_location_eq demo_event_def demo_slot_def
      SOURCE_CONTRACT_LOCKED_TOKENS_STORAGE_INDEX_def)

lemma demo_dry_run: "\<exists>out. consensus_mpt_program demo_light_client demo_mpt_env demo_proof_inputs dbg = Ok out"
proof -
  have "pi_contract_storage demo_proof_inputs = demo_storage"
    by (simp add: demo_proof_inputs_def assemble_proof_inputs_def demo_storage_def demo_proof_def)
  then show ?thesis
    using demo_storage_verified [of "co_execution_state_root (demo_outputs 32 64)"]
    by (auto simp: consensus_mpt_program_Ok demo_consensus_run demo_proof_inputs_def)
qed

lemma demo_prepared:
  "prepare_mpt_proof_inputs_from demo_exec_env demo_light_client demo_mpt_env dbg a 1032 1064
     demo_consensus_inputs w = Some (Ok demo_proof_inputs, Suc (Suc (Suc w)))"
proof -
  let ?m = "[ss_key demo_slot \<mapsto> Address 5]"
  have keys: "hash_map_keys demo_exec_env ?m = [ss_key demo_slot]"
    by (simp add: demo_exec_env_def)
  have answer: "get_proof_at demo_exec_env a [ss_key demo_slot] 1064 (Suc w)
      = Some (Ok (demo_proof [ss_key demo_slot]), Suc (Suc w))"
    by (simp add: get_proof_at_def io_map_err_def demo_exec_env_def)
  have slots: "(collect_storage_slots ?m (ap_storage_proof (demo_proof [ss_key demo_slot])) :: (http_error, _) outcome)
      = Ok [demo_slot]"
    by (simp add: collect_storage_slot_def demo_proof_def) (simp add: demo_slot_def)
  obtain out where run: "consensus_mpt_program demo_light_client demo_mpt_env demo_proof_inputs dbg = Ok out"
    using demo_dry_run by blast
  have "keccak256 demo_mpt_env = of_be_bytes" by (simp add: demo_mpt_env_def)
  then show ?thesis
    using run
    by (simp add: prepare_mpt_proof_inputs_from_def io_bind_def demo_events io_of_def demo_slot_map keys answer
        slots spawn_blocking_def join_blocking_def flip: demo_proof_inputs_def)
      (simp add: demo_exec_env_def)
qed

section \<open>Properties\<close>

text \<open>C15: When the provider serves its logs by block range, collecting the deposit events of a range in
  chunks, retrying failed chunks, returns exactly the events of the blocks from the first to the last
  inclusive, each once and in order: no block is skipped at a chunk boundary or read twice.\<close>

theorem collected_events_cover_range:
  assumes "serves env a logs_of"
    and "get_source_contract_events_of env a start_block end_block w = Some (Ok events, w')"
  shows "events = List.map_filter (decode_log env)
           (concat (map logs_of [unat start_block..<Suc (unat end_block)]))"
  using events_from_covers [OF assms(2) [unfolded get_source_contract_events_of_def] assms(1)]
  by (simp add: block_events_def)

theorem collected_events_cover_range_witness:
  "[demo_event] = List.map_filter Some (concat (map demo_logs [1032..<1065]))"
  using collected_events_cover_range [OF demo_serves demo_events] by (simp add: demo_exec_env_def del: upt_Suc)

text \<open>A chunk is given up exactly after four failed queries, with waits of one, two and four seconds
  between them, and the error reported is the last one.\<close>

theorem chunk_gives_up_after_four_failures:
  "fetch_chunk_with_retries env a s e 0 w = Some (Err err, w') \<longleftrightarrow>
     (\<exists>e1 w1 e2 w2 e3 w3.
        get_source_contract_event_chunk env a s e w = Some (Err e1, w1) \<and>
        get_source_contract_event_chunk env a s e (sleep env 1 w1) = Some (Err e2, w2) \<and>
        get_source_contract_event_chunk env a s e (sleep env 2 w2) = Some (Err e3, w3) \<and>
        get_source_contract_event_chunk env a s e (sleep env 4 w3) = Some (Err err, w'))"
  by (rule fetch_chunk_fails)

text \<open>C16: Prepared inputs carry the validated consensus inputs unchanged and slots sorted by address, each
  the locked-tokens slot of a user with a deposit event in the range; when the provider proves the
  requested keys, every such user's slot is there; and the transition succeeds on them.\<close>

theorem prepared_inputs_hold_depositors_slots:
  assumes "prepare_mpt_proof_inputs_from env lc mpt dbg a lo hi cpi w = Some (Ok inputs, w')"
  shows "\<exists>events w1 out. get_source_contract_events_of env a lo hi w = Some (Ok events, w1)
    \<and> forget_storage inputs = cpi
    \<and> sorted (map ss_slot_key_address (cs_storage_slots (pi_contract_storage inputs)))
    \<and> (\<forall>s \<in> set (cs_storage_slots (pi_contract_storage inputs)).
         slot_mapped mpt s \<and> ss_slot_key_address s \<in> tl_user ` set events)
    \<and> (proofs_as_requested env \<longrightarrow> ss_key ` set (cs_storage_slots (pi_contract_storage inputs))
         = locked_tokens_slot (keccak256 mpt) ` tl_user ` set events)
    \<and> consensus_mpt_program lc mpt inputs dbg = Ok out"
proof -
  from assms obtain events w1 r slots out where
    ev: "get_source_contract_events_of env a lo hi w = Some (Ok events, w1)"
    and pf: "prepared_from env mpt a hi events r slots"
    and inputs: "inputs = assemble_proof_inputs cpi r (sort_key ss_slot_key_address slots)"
    and run: "consensus_mpt_program lc mpt inputs dbg = Ok out"
    by (rule prepare_Ok)
  have "\<forall>s \<in> set slots. slot_mapped mpt s \<and> ss_slot_key_address s \<in> tl_user ` set events"
    using prepared_slots_of_users [OF pf] by blast
  moreover have "proofs_as_requested env
      \<longrightarrow> ss_key ` set slots = locked_tokens_slot (keccak256 mpt) ` tl_user ` set events"
    using prepared_slots_complete [OF pf] by blast
  ultimately show ?thesis
    using ev run by (intro exI [of _ events] exI [of _ w1] exI [of _ out]) (simp add: inputs)
qed

theorem prepared_inputs_hold_depositors_slots_witness:
  "\<exists>events w1 out. get_source_contract_events_of demo_exec_env (Address 3) 1032 1064 0 = Some (Ok events, w1)
     \<and> ss_key ` set (cs_storage_slots (pi_contract_storage demo_proof_inputs))
         = locked_tokens_slot (keccak256 demo_mpt_env) ` tl_user ` set events
     \<and> consensus_mpt_program demo_light_client demo_mpt_env demo_proof_inputs True = Ok out"
  using prepared_inputs_hold_depositors_slots [OF demo_prepared [of True "Address 3" 0]] demo_proofs_as_requested
  by blast

text \<open>Preparation aborts with a panic when the provider answers with a storage proof for a key that was
  not requested; when it answers the requested keys and no block number is near the end of the
  64-bit range, no answer of it makes preparation panic.\<close>

theorem preparation_panics_only_on_unrequested_keys:
  assumes "calls_return env" and "unat hi + 100 < 2 ^ 64"
  shows "(proofs_as_requested env
      \<longrightarrow> prepare_mpt_proof_inputs_from env lc mpt dbg a lo hi cpi w \<noteq> Some (Panic, w'))
    \<and> ((collect_storage_slots m rs :: (http_error, _) outcome) = Panic \<longleftrightarrow> (\<exists>r \<in> set rs. sp_key r \<notin> dom m))"
proof -
  have "prepare_mpt_proof_inputs_from env lc mpt dbg a lo hi cpi w \<noteq> Some (Panic, w')" if "proofs_as_requested env"
    using prepare_not_Panic [OF assms(1) that, of hi lc mpt dbg a lo cpi w w'] assms(2)
    by (simp add: CHUNK_SIZE_def)
  then show ?thesis
    by (simp add: collect_storage_slots_Panic domIff)
qed

theorem preparation_panics_only_on_unrequested_keys_witness:
  "prepare_mpt_proof_inputs_from demo_exec_env demo_light_client demo_mpt_env True (Address 3) 1032 1064
     demo_consensus_inputs 0 \<noteq> Some (Panic, 9)"
  using preparation_panics_only_on_unrequested_keys [OF demo_calls_return, of 1064 demo_light_client
      demo_mpt_env True "Address 3" 1032 demo_consensus_inputs 0 9] demo_proofs_as_requested
  by simp

text \<open>A configuration whose list of URLs is joined by commas is read back as those URLs in order: the
  first is the principal provider and the others are the backups; the contract address and the
  timeout, 300 seconds when unset, come from their variables.\<close>

theorem execution_proxy_configured_from_list:
  assumes "env_var ''SOURCE_EXECUTION_HTTP_RPCS'' = Some (join_with (CHR '','') urls)"
    and "urls \<noteq> []" and "\<forall>u \<in> set urls. CHR '','' \<notin> set u \<and> trim u \<noteq> []"
    and "List.map_filter (parse_url \<circ> trim) urls = p # ps"
    and "env_var ''TOKEN_BRIDGE_ADDRESS'' = Some s" and "parse_address s = Some a"
    and "env_var ''EXECUTION_PROOF_INPUT_VALIDATION_TIMEOUT'' = map_option show_u64 secs"
  shows "execution_http_proxy_from_env env_var parse_url parse_address =
     Ok \<lparr>eh_principal_provider = p, eh_backup_providers = ps, eh_source_state_bridge_contract_address = a,
         eh_validation_timeout = (case secs of None \<Rightarrow> 300 | Some t \<Rightarrow> unat t)\<rparr>"
proof -
  have "rpc_urls parse_url (join_with (CHR '','') urls) = p # ps"
    using rpc_urls_join [of urls parse_url] assms(2-4) by simp
  with assms show ?thesis
    by (cases secs) (simp_all add: execution_http_proxy_from_env_def validation_timeout_from_def
        get_source_contract_address_def parse_show_u64)
qed

theorem execution_proxy_configured_from_list_witness:
  "execution_http_proxy_from_env
     [''SOURCE_EXECUTION_HTTP_RPCS'' \<mapsto> ''http://a,http://b'', ''TOKEN_BRIDGE_ADDRESS'' \<mapsto> ''0x05'',
      ''EXECUTION_PROOF_INPUT_VALIDATION_TIMEOUT'' \<mapsto> ''60'']
     Some (\<lambda>s. Some (Address 5))
   = Ok \<lparr>eh_principal_provider = ''http://a'', eh_backup_providers = [''http://b''],
         eh_source_state_bridge_contract_address = Address 5, eh_validation_timeout = 60\<rparr>"
proof -
  have sixty: "show_u64 60 = ''60''"
    by (simp add: show_u64_def decimal.simps digit_char_def char_of_def bit_0)
  have trimmed: "trim ''http://a'' = ''http://a''" "trim ''http://b'' = ''http://b''"
    by (simp_all add: trim_def is_space_def)
  show ?thesis
    by (subst execution_proxy_configured_from_list
        [where urls = "[''http://a'', ''http://b'']" and p = "''http://a''" and ps = "[''http://b'']"
          and secs = "Some 60" and a = "Address 5"])
      (simp_all add: sixty trimmed List.map_filter_def)
qed

text \<open>Queries that always complete keep the two loops of the collection from hanging.\<close>

definition queries_complete :: "('w, 'l) exec_env \<Rightarrow> bool" where
  "queries_complete env = (\<forall>a sg s e w. get_logs env a sg s e w \<noteq> None)"

lemma chunk_completes: "queries_complete env \<Longrightarrow> get_source_contract_event_chunk env a s e w \<noteq> None"
  by (auto simp: queries_complete_def get_source_contract_event_chunk_def io_bind_def io_map_err_def
      io_of_def split: option.split outcome.split)

lemma fetch_chunk_completes: "queries_complete env \<Longrightarrow> fetch_chunk_with_retries env a s e n w \<noteq> None"
proof (induction env a s e n w rule: fetch_chunk_with_retries.induct)
  case (1 env a s e n w)
  then show ?case
    using chunk_completes [OF "1.prems", of a s e w]
    by (subst fetch_chunk_with_retries.simps) (auto split: option.split outcome.split)
qed

lemma events_from_completes:
  "queries_complete env \<Longrightarrow> get_source_contract_events_from env a cur hi acc w \<noteq> None"
proof (induction env a cur hi acc w rule: get_source_contract_events_from.induct)
  case (1 env a cur hi acc w)
  have fetched: "(fetch_chunk_with_retries env a s e n v = None) = False" for s e n v
    using fetch_chunk_completes [OF "1.prems"] by simp
  from 1 show ?case
    by (subst get_source_contract_events_from.simps)
      (auto simp: Let_def fetched split: option.split outcome.split)
qed

section \<open>How many queries a collection makes\<close>

text \<open>The same provider, with the number of its log queries counted beside its world.\<close>

definition counted :: "('w, 'l) exec_env \<Rightarrow> ('w \<times> nat, 'l) exec_env" where
  "counted env =
     \<lparr>get_logs = (\<lambda>a sg s e (w, n). map_option (map_prod id (\<lambda>w'. (w', Suc n))) (get_logs env a sg s e w)),
      tokens_locked_signature = tokens_locked_signature env, decode_log = decode_log env,
      get_proof = (\<lambda>a ks b (w, n). map_option (map_prod id (\<lambda>w'. (w', n))) (get_proof env a ks b w)),
      sleep = (\<lambda>d. map_prod (sleep env d) id), run_blocking = map_prod (run_blocking env) id,
      clock = (\<lambda>(w, n). clock env w), hash_map_keys = hash_map_keys env\<rparr>"

text \<open>The chunks of a range.\<close>

definition chunks :: "u64 \<Rightarrow> u64 \<Rightarrow> nat" where
  "chunks lo hi = (if lo \<le> hi then Suc ((unat hi - unat lo) div Suc (unat CHUNK_SIZE)) else 0)"

lemma counted_chunk:
  "get_source_contract_event_chunk (counted env) a s e (w, n)
   = map_option (map_prod id (\<lambda>w'. (w', Suc n))) (get_source_contract_event_chunk env a s e w)"
  by (simp add: get_source_contract_event_chunk_def counted_def io_bind_def io_map_err_def io_of_def
      split: option.split outcome.split prod.split)

lemma fetch_chunk_queries:
  "fetch_chunk_with_retries (counted env) a s e k (w, n) = Some (r, w', n') \<Longrightarrow> k \<le> MAX_RETRIES
    \<Longrightarrow> n' \<le> n + Suc (MAX_RETRIES - k)"
proof (induction "MAX_RETRIES - k" arbitrary: k w n)
  case 0
  then show ?case
    by (subst (asm) fetch_chunk_with_retries.simps)
      (auto simp: counted_chunk split: option.splits outcome.splits)
next
  case (Suc d)
  have "n' \<le> Suc n + Suc (MAX_RETRIES - Suc k)"
    if "fetch_chunk_with_retries (counted env) a s e (Suc k) (v, Suc n) = Some (r, w', n')" for v
    using Suc(1) [OF _ that] Suc(2) by simp
  moreover have "sleep (counted env) t (v, m) = (sleep env t v, m)" for t v m
    by (simp add: counted_def)
  moreover from Suc(2) have "MAX_RETRIES - k = Suc (MAX_RETRIES - Suc k)" by simp
  ultimately show ?case
    using Suc(3) by (subst (asm) fetch_chunk_with_retries.simps)
      (auto simp: counted_chunk split: option.splits outcome.splits if_splits)
qed

lemma chunks_step:
  assumes "cur \<le> hi" and "(checked_add cur CHUNK_SIZE :: (http_error, u64) outcome) = Ok far"
    and "(checked_add (min far hi) 1 :: (http_error, u64) outcome) = Ok nxt"
  shows "chunks cur hi = Suc (chunks nxt hi)"
proof -
  note step = chunk_progress [OF assms]
  have far: "unat far = unat cur + 100"
    using assms(2) by (auto simp: checked_add_def CHUNK_SIZE_def unat_word_ariths split: if_splits)
  show ?thesis
  proof (cases "far < hi")
    case True
    then have "min far hi = far" by simp
    with True have "unat nxt = unat cur + 101" "unat cur + 101 \<le> unat hi"
      using step(2) far by (simp_all add: word_less_nat_alt)
    then show ?thesis
      using assms(1) by (simp add: chunks_def CHUNK_SIZE_def word_le_nat_alt le_div_geq)
  next
    case False
    then have "min far hi = hi" by simp
    with False have "unat nxt = Suc (unat hi)" "unat hi \<le> unat cur + 100"
      using step(2) far by (simp_all add: not_less word_le_nat_alt)
    then show ?thesis
      using assms(1) by (simp add: chunks_def CHUNK_SIZE_def word_le_nat_alt)
  qed
qed

lemma events_from_queries:
  "get_source_contract_events_from (counted env) a cur hi acc (w, n) = Some (r, w', n')
    \<Longrightarrow> n' \<le> n + 4 * chunks cur hi"
proof (induction "Suc (unat hi) - unat cur" arbitrary: cur acc w n rule: less_induct)
  case less
  show ?case
  proof (cases "cur \<le> hi")
    case True
    show ?thesis
    proof (cases "checked_add cur CHUNK_SIZE :: (http_error, u64) outcome")
      case (Ok far)
      have once: "m' \<le> n + 4" if "fetch_chunk_with_retries (counted env) a cur (min far hi) 0 (w, n) = Some (q, v', m')" for q v' m'
        using fetch_chunk_queries [OF that] by (simp add: MAX_RETRIES_def)
      have more: "n' \<le> m' + 4 * chunks nxt hi"
        if "(checked_add (min far hi) 1 :: (http_error, u64) outcome) = Ok nxt"
          and "get_source_contract_events_from (counted env) a nxt hi acc' (v', m') = Some (r, w', n')" for nxt acc' v' m'
        using chunk_progress [OF True Ok that(1)] True
        by (intro less.hyps [OF _ that(2)]) (simp add: word_le_nat_alt)
      have "1 \<le> chunks cur hi" using True by (simp add: chunks_def)
      with less.prems True Ok once more chunks_step [OF True Ok] show ?thesis
        by (subst (asm) get_source_contract_events_from.simps)
          (fastforce simp: Let_def split: option.splits outcome.splits)
    qed (use less.prems True in \<open>simp_all add: get_source_contract_events_from.simps [of _ _ cur]\<close>)
  qed (use less.prems in \<open>simp add: get_source_contract_events_from.simps [of _ _ cur]\<close>)
qed

text \<open>Counting changes nothing else.\<close>

definition uncount :: "('r \<times> 'w \<times> nat) option \<Rightarrow> ('r \<times> 'w) option" where
  "uncount = map_option (map_prod id fst)"

lemma uncount_simps [simp]:
  "uncount None = None" "uncount (Some (r, w, n)) = Some (r, w)"
  by (simp_all add: uncount_def)

lemma uncount_fetch:
  "uncount (fetch_chunk_with_retries (counted env) a s e k (w, n)) = fetch_chunk_with_retries env a s e k w"
proof (induction env a s e k w arbitrary: n rule: fetch_chunk_with_retries.induct)
  case (1 env a s e k w)
  have sleeps: "sleep (counted env) t (v, m) = (sleep env t v, m)" for t v m
    by (simp add: counted_def)
  show ?case
  proof (cases "get_source_contract_event_chunk env a s e w")
    case None
    then show ?thesis
      by (simp add: fetch_chunk_with_retries.simps [of _ a s e k] counted_chunk)
  next
    case (Some q)
    with 1 show ?thesis
      by (cases q; cases "fst q")
        (auto simp: fetch_chunk_with_retries.simps [of _ a s e k] counted_chunk sleeps)
  qed
qed

lemma uncount_events:
  "uncount (get_source_contract_events_from (counted env) a cur hi acc (w, n))
   = get_source_contract_events_from env a cur hi acc w"
proof (induction env a cur hi acc w arbitrary: n rule: get_source_contract_events_from.induct)
  case (1 env a cur hi acc w)
  show ?case
  proof (cases "cur \<le> hi")
    case True
    show ?thesis
    proof (cases "checked_add cur CHUNK_SIZE :: (http_error, u64) outcome")
      case (Ok far)
      have fetched: "uncount (fetch_chunk_with_retries (counted env) a cur (min far hi) 0 (w, n))
          = fetch_chunk_with_retries env a cur (min far hi) 0 w"
        by (rule uncount_fetch)
      show ?thesis
      proof (cases "fetch_chunk_with_retries (counted env) a cur (min far hi) 0 (w, n)")
        case None
        with fetched True Ok show ?thesis
          by (simp add: get_source_contract_events_from.simps [of _ a cur] flip: fetched)
      next
        case (Some q)
        obtain r v m where q: "q = (r, v, m)" by (cases q)
        with Some fetched have plain: "fetch_chunk_with_retries env a cur (min far hi) 0 w = Some (r, v)" by simp
        show ?thesis
          using True Ok Some q plain "1.IH" [OF True Ok refl plain refl]
          by (cases r) (auto simp: get_source_contract_events_from.simps [of _ a cur] Let_def split: outcome.split)
      qed
    qed (use True in \<open>simp_all add: get_source_contract_events_from.simps [of _ a cur]\<close>)
  qed (simp add: get_source_contract_events_from.simps [of _ a cur])
qed

text \<open>C28: Event collection terminates within a bound: when every log query of the provider completes, with
  an answer or an error, collecting the events of any range completes, after at most four queries for
  each chunk of 101 blocks the range spans.\<close>

theorem event_collection_terminates:
  assumes "\<forall>a sg s e w. get_logs env a sg s e w \<noteq> None"
  shows "\<exists>r w' n. get_source_contract_events_of env a start_block end_block w = Some (r, w')
     \<and> get_source_contract_events_of (counted env) a start_block end_block (w, 0) = Some (r, w', n)
     \<and> n \<le> (if start_block \<le> end_block then 4 * Suc ((unat end_block - unat start_block) div 101) else 0)"
proof -
  have "queries_complete env" using assms by (simp add: queries_complete_def)
  from events_from_completes [OF this, of a start_block end_block "[]" w]
    uncount_events [of env a start_block end_block "[]" w 0]
  obtain r w' n where count: "get_source_contract_events_from (counted env) a start_block end_block [] (w, 0) = Some (r, w', n)"
    and plain: "get_source_contract_events_from env a start_block end_block [] w = Some (r, w')"
    by (cases "get_source_contract_events_from (counted env) a start_block end_block [] (w, 0)") auto
  from events_from_queries [OF count] count plain show ?thesis
    by (auto simp: get_source_contract_events_of_def chunks_def CHUNK_SIZE_def)
qed

theorem event_collection_terminates_witness:
  "\<exists>r w' n. get_source_contract_events_of (counted demo_exec_env) (Address 3) 1000 1201 (0, 0) = Some (r, w', n) \<and> n \<le> 8"
  using event_collection_terminates [of demo_exec_env "Address 3" 1000 1201 0]
  by (auto simp: demo_exec_env_def)

end
