(* ===== verification/Transition_System.thy ===== *)
theory Transition_System
  imports Main
begin

text \<open>
  Executions of a step relation, shared by the detector, the prover loop and the composed process: the
  induction over executions, invariants, and simulation of a detailed system by an abstract one.
\<close>

section \<open>Executions\<close>

inductive leads_to :: "('s \<Rightarrow> 's \<Rightarrow> bool) \<Rightarrow> 's \<Rightarrow> 's \<Rightarrow> bool" for step s where
  leads_to_refl: "leads_to step s s"
| leads_to_step: "leads_to step s t \<Longrightarrow> step t u \<Longrightarrow> leads_to step s u"

lemma leads_to_one: "step s t \<Longrightarrow> leads_to step s t"
  by (rule leads_to_step [OF leads_to_refl])

lemma leads_to_trans: "leads_to step t u \<Longrightarrow> leads_to step s t \<Longrightarrow> leads_to step s u"
  by (induction rule: leads_to.induct) (auto intro: leads_to_step)

text \<open>A property of the first state that every step from a state reached so far keeps.\<close>

lemma leads_to_invariant:
  assumes "leads_to step s t" and "invar s"
    and "\<And>t u. leads_to step s t \<Longrightarrow> step t u \<Longrightarrow> invar t \<Longrightarrow> invar u"
  shows "invar t"
  using assms(1)
  by (induction rule: leads_to.induct) (use assms(2,3) in blast)+

section \<open>Simulation\<close>

text \<open>
  An abstraction of the states under which every step is a step of the abstract system or changes
  nothing there, as long as an invariant of the detailed system holds.
\<close>

locale simulation =
  fixes step :: "'c \<Rightarrow> 'c \<Rightarrow> bool"
    and spec :: "'a \<Rightarrow> 'a \<Rightarrow> bool"
    and invar :: "'c \<Rightarrow> bool"
    and abstract :: "'c \<Rightarrow> 'a"
  assumes inv_step: "step s t \<Longrightarrow> invar s \<Longrightarrow> invar t"
    and simulated: "step s t \<Longrightarrow> invar s \<Longrightarrow> abstract t = abstract s \<or> spec (abstract s) (abstract t)"
begin

lemma inv_reached: "leads_to step s t \<Longrightarrow> invar s \<Longrightarrow> invar t"
  by (erule leads_to_invariant) (auto intro: inv_step)

lemma refines: "leads_to step s t \<Longrightarrow> invar s \<Longrightarrow> leads_to spec (abstract s) (abstract t)"
proof (induction rule: leads_to.induct)
  case (leads_to_step t u)
  with simulated [of t u] inv_reached [of s t] show ?case
    by (auto intro: leads_to.leads_to_step)
qed (rule leads_to_refl)

end

section \<open>Observed executions\<close>

text \<open>
  A step may be observed; a run collects what was observed, in order.  A detailed system refines an
  abstract one when every step is, with the same observation, a step there, or changes nothing there
  and is not observed: its runs are then runs of the abstract system with the same observations.
\<close>

inductive observes :: "('s \<Rightarrow> 'a option \<Rightarrow> 's \<Rightarrow> bool) \<Rightarrow> 's \<Rightarrow> 'a list \<Rightarrow> 's \<Rightarrow> bool" for step s where
  observes_refl: "observes step s [] s"
| observes_silent: "observes step s tr t \<Longrightarrow> step t None u \<Longrightarrow> observes step s tr u"
| observes_observed: "observes step s tr t \<Longrightarrow> step t (Some a) u \<Longrightarrow> observes step s (tr @ [a]) u"

lemma observes_leads_to:
  assumes "observes step s tr t" and "\<And>t a u. step t a u \<Longrightarrow> plain t u"
  shows "leads_to plain s t"
  using assms(1) by (induction rule: observes.induct) (use assms(2) in \<open>blast intro: leads_to.intros\<close>)+

lemma leads_to_observes:
  assumes "leads_to plain s t" and "\<And>t u. plain t u \<Longrightarrow> \<exists>a. step t a u"
  shows "\<exists>tr. observes step s tr t"
  using assms(1)
proof (induction rule: leads_to.induct)
  case (leads_to_step t u)
  from assms(2) [OF leads_to_step(2)] obtain a where "step t a u" ..
  with leads_to_step(3) show ?case by (cases a) (blast intro: observes.intros)+
qed (blast intro: observes_refl)

locale labelled_simulation =
  fixes step :: "'c \<Rightarrow> 'a option \<Rightarrow> 'c \<Rightarrow> bool"
    and spec :: "'m \<Rightarrow> 'a option \<Rightarrow> 'm \<Rightarrow> bool"
    and invar :: "'c \<Rightarrow> bool"
    and abstract :: "'c \<Rightarrow> 'm"
  assumes inv_step: "step s a t \<Longrightarrow> invar s \<Longrightarrow> invar t"
    and simulated: "step s a t \<Longrightarrow> invar s
      \<Longrightarrow> spec (abstract s) a (abstract t) \<or> a = None \<and> abstract t = abstract s"
begin

lemma refines_traces: "observes step s tr t \<Longrightarrow> invar s \<Longrightarrow> observes spec (abstract s) tr (abstract t) \<and> invar t"
proof (induction rule: observes.induct)
  case (observes_silent tr t u)
  then show ?case using simulated [of t None u] inv_step [of t None u] by (auto intro: observes.observes_silent)
next
  case (observes_observed tr t a u)
  then show ?case using simulated [of t "Some a" u] inv_step [of t "Some a" u] by (auto intro: observes.observes_observed)
qed (simp add: observes_refl)

end

end
