(* ===== verification/Finality_Detector.thy ===== *)
theory Finality_Detector
  imports Types Transition_System
begin

text \<open>
  \<open>golem-symbiotic-consensus-mpt/src/api/finality_change_detector.rs\<close>: the validation actor, the
  event handlers of the finality change detector, and the system of the two tasks with the channels
  between them.  The handlers are functions of the detector's local variables; the system is a step
  relation, because the scheduler, the bridge and the RPC providers choose what happens next.
\<close>

section \<open>Messages\<close>

record detector_update =
  upd_slot :: u64
  upd_store_hash :: b256

record job_input =
  job_slot :: u64
  job_store_hash :: b256
  job_next_expected_output :: "detector_update option"

section \<open>The validation actor\<close>

text \<open>
  One job of the actor, over the function \<open>prepare\<close> that prepares the proof inputs of a window
  (\<open>ConsensusHttpProxy::prepare_consensus_mpt_proof_inputs\<close>, modelled elsewhere).  In dual mode
  both windows are computed by \<open>join!\<close>, so a panic of either ends the actor; an error of the current
  window is reported before one of the next window.
\<close>

type_synonym ('e, 'x) preparer =
  "u64 \<Rightarrow> b256 \<Rightarrow> bool \<Rightarrow> ('e, 'x proof_inputs_with_window) outcome"

definition validate_and_prepare_job ::
  "('e, 'x) preparer \<Rightarrow> job_input \<Rightarrow> ('e, 'x dual_proof_inputs_with_window) outcome" where
  "validate_and_prepare_job prepare job =
     (case job_next_expected_output job of
        Some next_expected_output \<Rightarrow>
          (let current = prepare (job_slot job) (job_store_hash job) True;
               nxt = prepare (upd_slot next_expected_output) (upd_store_hash next_expected_output) True
           in if current = Panic \<or> nxt = Panic then Panic
              else and_then current (\<lambda>current_res.
                   and_then nxt (\<lambda>next_res.
                   Ok \<lparr>current_window = current_res, next_window = Some next_res\<rparr>)))
      | None \<Rightarrow>
          and_then (prepare (job_slot job) (job_store_hash job) True) (\<lambda>current_res.
          Ok \<lparr>current_window = current_res, next_window = None\<rparr>))"

section \<open>The detector's event handlers\<close>

record detector =
  d_slot :: u64
  d_store_hash :: b256
  d_latest_slot :: u64
  d_in_flight :: bool
  d_stale :: bool
  d_next_expected_output :: "detector_update option"

definition detector_init :: "u64 \<Rightarrow> b256 \<Rightarrow> detector_update option \<Rightarrow> detector" where
  "detector_init slot store_hash pipeline_inflight_next_expected_output =
     \<lparr>d_slot = slot, d_store_hash = store_hash, d_latest_slot = slot, d_in_flight = False,
      d_stale = False, d_next_expected_output = pipeline_inflight_next_expected_output\<rparr>"

text \<open>
  A handler goes on with the new local variables, having sent at most one job and at most one
  output, or it breaks out of the loop, after which the process exits.
\<close>

datatype 'x reaction =
    Continue detector "job_input option" "'x dual_proof_inputs_with_window option"
  | Exit

definition filtered_next :: "u64 \<Rightarrow> detector_update option \<Rightarrow> detector_update option" where
  "filtered_next slot next_expected_output =
     (case next_expected_output of
        Some n \<Rightarrow> if upd_slot n \<noteq> slot then Some n else None
      | None \<Rightarrow> None)"

text \<open>\<open>job_open\<close>: the actor still holds the receiving end of the job channel.\<close>

definition try_start_validation_job ::
  "bool \<Rightarrow> u64 \<Rightarrow> b256 \<Rightarrow> detector_update option \<Rightarrow> bool \<Rightarrow> (unit, bool \<times> job_input) outcome" where
  "try_start_validation_job job_open slot store_hash next_expected_output in_flight =
     (let job = \<lparr>job_slot = slot, job_store_hash = store_hash,
                 job_next_expected_output = filtered_next slot next_expected_output\<rparr>
      in if job_open then Ok (True, job) else Err ())"

definition start_job :: "bool \<Rightarrow> detector \<Rightarrow> 'x reaction" where
  "start_job job_open d =
     (case try_start_validation_job job_open (d_slot d) (d_store_hash d)
             (d_next_expected_output d) (d_in_flight d) of
        Ok (in_flight, job) \<Rightarrow> Continue (d\<lparr>d_in_flight := in_flight\<rparr>) (Some job) None
      | _ \<Rightarrow> Exit)"

definition on_stage :: "detector_update \<Rightarrow> detector \<Rightarrow> detector" where
  "on_stage update d =
     (let d = d\<lparr>d_next_expected_output := Some update\<rparr>
      in if d_in_flight d then d\<lparr>d_stale := True\<rparr> else d)"

definition on_advance :: "detector_update \<Rightarrow> detector \<Rightarrow> detector" where
  "on_advance update d =
     (let d = d\<lparr>d_slot := upd_slot update, d_store_hash := upd_store_hash update\<rparr>;
          d = d\<lparr>d_latest_slot := d_slot d\<rparr>;
          d = (if d_in_flight d then d\<lparr>d_stale := True\<rparr> else d)
      in case d_next_expected_output d of
           Some n \<Rightarrow> if upd_slot n = d_slot d then d\<lparr>d_next_expected_output := None\<rparr> else d
         | None \<Rightarrow> d)"

text \<open>\<open>out_open\<close>: the receiver of the finality output has not been dropped.\<close>

definition on_result ::
  "bool \<Rightarrow> bool \<Rightarrow> ('e, 'x dual_proof_inputs_with_window) outcome \<Rightarrow> detector \<Rightarrow> 'x reaction" where
  "on_result job_open out_open result d =
     (let d = d\<lparr>d_in_flight := False\<rparr> in
      case result of
        Ok dual \<Rightarrow>
          if d_stale d then start_job job_open (d\<lparr>d_stale := False\<rparr>)
          else
            let output_slot = w_expected_output_slot (current_window dual) in
            if w_input_slot (current_window dual) = d_slot d then
              if w_expected_output_slot (current_window dual) > d_latest_slot d then
                case next_window dual of
                  Some nw \<Rightarrow>
                    if w_expected_output_slot nw > d_latest_slot d then
                      if out_open then Continue (d\<lparr>d_latest_slot := output_slot\<rparr>) None (Some dual)
                      else Exit
                    else Continue (d\<lparr>d_latest_slot := output_slot\<rparr>) None None
                | None \<Rightarrow>
                    if out_open then Continue (d\<lparr>d_latest_slot := output_slot\<rparr>) None (Some dual)
                    else Exit
              else Continue d None None
            else Continue d None None
      | _ \<Rightarrow> Continue d None None)"

definition on_tick :: "bool \<Rightarrow> detector \<Rightarrow> 'x reaction" where
  "on_tick job_open d = (if \<not> d_in_flight d then start_job job_open d else Continue d None None)"

section \<open>The tasks and their channels\<close>

datatype actor_state = ActorIdle | ActorWorking job_input | ActorStopped

text \<open>
  The ghost field \<open>log\<close> records what the outside sees: bridge advancements and emitted proof inputs,
  the latest last, each emission with the detector's variables before it.
\<close>

datatype 'x log_entry =
    LogAdvance detector_update
  | LogEmit detector "'x dual_proof_inputs_with_window"

record ('e, 'x) system =
  det :: detector
  job_queue :: "job_input list"
  actor :: actor_state
  result_queue :: "('e, 'x dual_proof_inputs_with_window) outcome list"
  stage_queue :: "detector_update list"
  advance_queue :: "detector_update list"
  output_queue :: "'x dual_proof_inputs_with_window list"
  output_open :: bool
  running :: bool
  log :: "'x log_entry list"

definition CHANNEL_CAPACITY :: nat where
  "CHANNEL_CAPACITY = 1"

definition system_init :: "detector \<Rightarrow> ('e, 'x) system" where
  "system_init d =
     \<lparr>det = d, job_queue = [], actor = ActorIdle, result_queue = [], stage_queue = [],
      advance_queue = [], output_queue = [], output_open = True, running = True, log = []\<rparr>"

text \<open>
  The effect of a reaction on the system.  A send on a full channel suspends the detector, which
  handles no other event until there is room: the step is then not enabled (\<open>reaction_fits\<close>).
\<close>

definition reaction_fits :: "('e, 'x) system \<Rightarrow> 'x reaction \<Rightarrow> bool" where
  "reaction_fits s r \<longleftrightarrow>
     (case r of
        Continue d job out \<Rightarrow>
          (job \<noteq> None \<longrightarrow> length (job_queue s) < CHANNEL_CAPACITY) \<and>
          (out \<noteq> None \<longrightarrow> length (output_queue s) < CHANNEL_CAPACITY)
      | Exit \<Rightarrow> True)"

definition react :: "('e, 'x) system \<Rightarrow> 'x reaction \<Rightarrow> ('e, 'x) system" where
  "react s r =
     (case r of
        Continue d job out \<Rightarrow>
          s\<lparr>det := d,
            job_queue := job_queue s @ (case job of Some j \<Rightarrow> [j] | None \<Rightarrow> []),
            output_queue := output_queue s @ (case out of Some o' \<Rightarrow> [o'] | None \<Rightarrow> []),
            log := log s @ (case out of Some o' \<Rightarrow> [LogEmit (det s) o'] | None \<Rightarrow> [])\<rparr>
      | Exit \<Rightarrow> s\<lparr>running := False\<rparr>)"

text \<open>
  \<open>Prep\<close> holds the ways the RPC providers may let window preparation turn out: the actor runs each
  job with one of them.
\<close>

inductive system_step ::
  "('e, 'x) preparer set \<Rightarrow> ('e, 'x) system \<Rightarrow> ('e, 'x) system \<Rightarrow> bool" for Prep where
  send_stage: "running s \<Longrightarrow> length (stage_queue s) < CHANNEL_CAPACITY \<Longrightarrow>
    system_step Prep s (s\<lparr>stage_queue := stage_queue s @ [u]\<rparr>)"
| send_advance: "running s \<Longrightarrow> length (advance_queue s) < CHANNEL_CAPACITY \<Longrightarrow>
    system_step Prep s (s\<lparr>advance_queue := advance_queue s @ [u]\<rparr>)"
| recv_stage: "running s \<Longrightarrow> stage_queue s = u # us \<Longrightarrow>
    system_step Prep s (s\<lparr>stage_queue := us, det := on_stage u (det s)\<rparr>)"
| recv_advance: "running s \<Longrightarrow> advance_queue s = u # us \<Longrightarrow>
    system_step Prep s (s\<lparr>advance_queue := us, det := on_advance u (det s),
                          log := log s @ [LogAdvance u]\<rparr>)"
| recv_result: "running s \<Longrightarrow> result_queue s = r # rs \<Longrightarrow>
    reaction = on_result (actor s \<noteq> ActorStopped) (output_open s) r (det s) \<Longrightarrow>
    reaction_fits s reaction \<Longrightarrow>
    system_step Prep s (react (s\<lparr>result_queue := rs\<rparr>) reaction)"
| tick: "running s \<Longrightarrow> reaction = on_tick (actor s \<noteq> ActorStopped) (det s) \<Longrightarrow>
    reaction_fits s reaction \<Longrightarrow> system_step Prep s (react s reaction)"
| actor_recv: "running s \<Longrightarrow> actor s = ActorIdle \<Longrightarrow> job_queue s = j # js \<Longrightarrow>
    system_step Prep s (s\<lparr>job_queue := js, actor := ActorWorking j\<rparr>)"
| actor_done: "running s \<Longrightarrow> actor s = ActorWorking j \<Longrightarrow> prepare \<in> Prep \<Longrightarrow>
    r = validate_and_prepare_job prepare j \<Longrightarrow> r \<noteq> Panic \<Longrightarrow>
    length (result_queue s) < CHANNEL_CAPACITY \<Longrightarrow>
    system_step Prep s (s\<lparr>actor := ActorIdle, result_queue := result_queue s @ [r]\<rparr>)"
| actor_panic: "running s \<Longrightarrow> actor s = ActorWorking j \<Longrightarrow> prepare \<in> Prep \<Longrightarrow>
    validate_and_prepare_job prepare j = Panic \<Longrightarrow>
    system_step Prep s (s\<lparr>actor := ActorStopped\<rparr>)"
| take_output: "running s \<Longrightarrow> output_open s \<Longrightarrow> output_queue s = o' # os \<Longrightarrow>
    system_step Prep s (s\<lparr>output_queue := os\<rparr>)"
| drop_output: "running s \<Longrightarrow> system_step Prep s (s\<lparr>output_open := False\<rparr>)"

abbreviation steps :: "('e, 'x) preparer set \<Rightarrow> ('e, 'x) system \<Rightarrow> ('e, 'x) system \<Rightarrow> bool" where
  "steps Prep \<equiv> leads_to (system_step Prep)"

abbreviation reachable :: "('e, 'x) preparer set \<Rightarrow> detector \<Rightarrow> ('e, 'x) system \<Rightarrow> bool" where
  "reachable Prep d0 \<equiv> steps Prep (system_init d0)"

lemmas steps_one = leads_to_one [of "system_step Prep" for Prep]
lemmas reach_init = leads_to_refl [of "system_step Prep" "system_init d0" for Prep d0]
lemmas reach_step = leads_to_step [of "system_step Prep" "system_init d0" for Prep d0]

section \<open>Handlers\<close>

definition current_job :: "detector \<Rightarrow> job_input" where
  "current_job d =
     \<lparr>job_slot = d_slot d, job_store_hash = d_store_hash d,
      job_next_expected_output = filtered_next (d_slot d) (d_next_expected_output d)\<rparr>"

lemma start_job_eq [simp]:
  "start_job job_open d =
     (if job_open then Continue (d\<lparr>d_in_flight := True\<rparr>) (Some (current_job d)) None else Exit)"
  by (simp add: start_job_def try_start_validation_job_def current_job_def Let_def)

lemma on_tick_eq:
  "on_tick job_open d =
     (if d_in_flight d then Continue d None None
      else if job_open then Continue (d\<lparr>d_in_flight := True\<rparr>) (Some (current_job d)) None else Exit)"
  by (simp add: on_tick_def)

lemma current_job_in_flight [simp]: "current_job (d\<lparr>d_in_flight := b\<rparr>) = current_job d"
  and current_job_stale [simp]: "current_job (d\<lparr>d_stale := b\<rparr>) = current_job d"
  and current_job_latest [simp]: "current_job (d\<lparr>d_latest_slot := l\<rparr>) = current_job d"
  by (simp_all add: current_job_def)

lemma on_stage_simps [simp]:
  "d_slot (on_stage u d) = d_slot d" "d_store_hash (on_stage u d) = d_store_hash d"
  "d_latest_slot (on_stage u d) = d_latest_slot d" "d_in_flight (on_stage u d) = d_in_flight d"
  "d_stale (on_stage u d) \<longleftrightarrow> d_in_flight d \<or> d_stale d"
  "d_next_expected_output (on_stage u d) = Some u"
  by (simp_all add: on_stage_def Let_def)

lemma on_advance_simps [simp]:
  "d_slot (on_advance u d) = upd_slot u" "d_store_hash (on_advance u d) = upd_store_hash u"
  "d_latest_slot (on_advance u d) = upd_slot u" "d_in_flight (on_advance u d) = d_in_flight d"
  "d_stale (on_advance u d) \<longleftrightarrow> d_in_flight d \<or> d_stale d"
  "d_next_expected_output (on_advance u d) = filtered_next (upd_slot u) (d_next_expected_output d)"
  by (simp_all add: on_advance_def Let_def filtered_next_def split: option.splits)

text \<open>What an emission satisfies, and when a fresh result is emitted.\<close>

definition ahead :: "u64 \<Rightarrow> 'x dual_proof_inputs_with_window \<Rightarrow> bool" where
  "ahead latest dual \<longleftrightarrow>
     w_expected_output_slot (current_window dual) > latest \<and>
     (\<forall>nw \<in> set_option (next_window dual). w_expected_output_slot nw > latest)"

abbreviation output_slot_of :: "'x dual_proof_inputs_with_window \<Rightarrow> u64" where
  "output_slot_of dual \<equiv> w_expected_output_slot (current_window dual)"

lemma on_result_emits:
  "on_result job_open out_open r d = Continue d' job (Some dual) \<longleftrightarrow>
     r = Ok dual \<and> \<not> d_stale d \<and> w_input_slot (current_window dual) = d_slot d
     \<and> ahead (d_latest_slot d) dual \<and> out_open \<and> job = None
     \<and> d' = d\<lparr>d_in_flight := False, d_latest_slot := output_slot_of dual\<rparr>"
  by (auto simp: on_result_def ahead_def Let_def split: outcome.splits option.splits)

lemma on_result_starts:
  "on_result job_open out_open r d = Continue d' (Some j) out \<longleftrightarrow>
     is_ok r \<and> d_stale d \<and> job_open \<and> j = current_job d \<and> out = None
     \<and> d' = d\<lparr>d_in_flight := True, d_stale := False\<rparr>"
  by (auto simp: on_result_def Let_def split: outcome.splits option.splits)

lemma on_result_exits:
  "on_result job_open out_open r d = Exit \<Longrightarrow>
     is_ok r \<and> (if d_stale d then \<not> job_open else \<not> out_open)"
  by (auto simp: on_result_def Let_def split: outcome.splits option.splits if_splits)

lemma on_result_quiet:
  assumes "on_result job_open out_open r d = Continue d' None None"
  shows "d' = d\<lparr>d_in_flight := False, d_latest_slot := d_latest_slot d'\<rparr>"
    and "d_latest_slot d \<le> d_latest_slot d'"
  using assms
  by (auto simp: on_result_def Let_def less_imp_le split: outcome.splits option.splits if_splits)

lemma on_result_cases:
  obtains (emit) dual where "r = Ok dual" "\<not> d_stale d"
      "w_input_slot (current_window dual) = d_slot d" "ahead (d_latest_slot d) dual" "out_open"
      "on_result job_open out_open r d
         = Continue (d\<lparr>d_in_flight := False, d_latest_slot := output_slot_of dual\<rparr>) None (Some dual)"
    | (restart) "is_ok r" "d_stale d" "job_open"
      "on_result job_open out_open r d
         = Continue (d\<lparr>d_in_flight := True, d_stale := False\<rparr>) (Some (current_job d)) None"
    | (quiet) l where "d_latest_slot d \<le> l"
      "on_result job_open out_open r d
         = Continue (d\<lparr>d_in_flight := False, d_latest_slot := l\<rparr>) None None"
    | (exit) "is_ok r" "if d_stale d then \<not> job_open else \<not> out_open"
      "on_result job_open out_open r d = Exit"
proof (cases "on_result job_open out_open r d")
  case (Continue d' job out)
  show ?thesis
  proof (cases out)
    case None
    show ?thesis
    proof (cases job)
      case None
      with \<open>out = None\<close> Continue
      have "on_result job_open out_open r d = Continue d' None None" by simp
      note on_result_quiet [OF this] this
      then show ?thesis by (intro quiet [of "d_latest_slot d'"]) auto
    next
      case (Some j)
      with Continue on_result_starts [of job_open out_open r d d' j out] show ?thesis
        by (auto intro: restart)
    qed
  next
    case (Some dual)
    with Continue on_result_emits [of job_open out_open r d d' job dual] show ?thesis
      by (auto intro: emit)
  qed
qed (use on_result_exits exit in blast)

section \<open>One job at a time\<close>

definition working :: "('e, 'x) system \<Rightarrow> job_input list" where
  "working s = (case actor s of ActorWorking j \<Rightarrow> [j] | _ \<Rightarrow> [])"

definition pending :: "('e, 'x) system \<Rightarrow> nat" where
  "pending s = length (job_queue s) + length (working s) + length (result_queue s)"

definition single_flight :: "('e, 'x) system \<Rightarrow> bool" where
  "single_flight s \<longleftrightarrow>
     (if actor s = ActorStopped then pending s = 0 \<and> d_in_flight (det s)
      else pending s = (if d_in_flight (det s) then 1 else 0))"

lemma react_simps [simp]:
  "det (react s (Continue d job out)) = d"
  "job_queue (react s (Continue d job out)) = job_queue s @ (case job of Some j \<Rightarrow> [j] | None \<Rightarrow> [])"
  "actor (react s r) = actor s" "result_queue (react s r) = result_queue s"
  "running (react s r) \<longleftrightarrow> running s \<and> r \<noteq> Exit" "output_open (react s r) = output_open s"
  "stage_queue (react s r) = stage_queue s" "advance_queue (react s r) = advance_queue s"
  "log (react s (Continue d job out)) = log s @ (case out of Some o' \<Rightarrow> [LogEmit (det s) o'] | None \<Rightarrow> [])"
  "log (react s Exit) = log s"
  by (simp_all add: react_def split: reaction.splits)

lemma working_upd [simp]:
  "working (s\<lparr>det := d\<rparr>) = working s" "working (s\<lparr>result_queue := rs\<rparr>) = working s"
  "working (s\<lparr>stage_queue := us\<rparr>) = working s" "working (s\<lparr>advance_queue := us\<rparr>) = working s"
  "working (s\<lparr>job_queue := js\<rparr>) = working s" "working (s\<lparr>log := l\<rparr>) = working s"
  "working (s\<lparr>output_queue := os\<rparr>) = working s" "working (s\<lparr>output_open := b\<rparr>) = working s"
  "working (s\<lparr>actor := ActorIdle\<rparr>) = []" "working (s\<lparr>actor := ActorStopped\<rparr>) = []"
  "working (s\<lparr>actor := ActorWorking j\<rparr>) = [j]" "working (react s r) = working s"
  by (simp_all add: working_def)

lemma single_flight_step:
  assumes "system_step Prep s t" and "single_flight s" and "running t"
  shows "single_flight t"
  using assms
proof (induction rule: system_step.induct)
  case (recv_result s r rs reaction)
  then have "actor s \<noteq> ActorStopped" "d_in_flight (det s)" "job_queue s = []" "working s = []" "rs = []"
    by (auto simp: single_flight_def pending_def split: if_splits)
  with recv_result show ?case
    by (cases rule: on_result_cases [where job_open = "actor s \<noteq> ActorStopped" and out_open = "output_open s" and r = r and d = "det s"])
      (auto simp: single_flight_def pending_def)
next
  case (tick s reaction)
  then show ?case
    by (auto simp: single_flight_def pending_def on_tick_eq split: if_splits)
next
  case (actor_recv s j js)
  then show ?case by (auto simp: single_flight_def pending_def working_def split: if_splits)
next
  case (actor_done s j prepare r)
  then show ?case by (auto simp: single_flight_def pending_def working_def split: if_splits)
next
  case (actor_panic s j prepare)
  then show ?case by (auto simp: single_flight_def pending_def working_def split: if_splits)
qed (auto simp: single_flight_def pending_def split: if_splits)

lemma step_from_running: "system_step Prep s t \<Longrightarrow> running s"
  by (auto elim: system_step.cases)

lemma reachable_single_flight:
  assumes "reachable Prep (detector_init slot h nx) s" and "running s"
  shows "single_flight s"
  using assms
proof (induction rule: leads_to.induct)
  case leads_to_refl
  show ?case by (simp add: single_flight_def pending_def system_init_def working_def detector_init_def)
next
  case (leads_to_step s t)
  then show ?case by (blast intro: single_flight_step dest: step_from_running)
qed

section \<open>Fresh results answer the current windows\<close>

text \<open>
  Unless marked stale, whatever is outstanding belongs to the windows the detector now tracks.
\<close>

definition answers :: "('e, 'x) preparer set \<Rightarrow> job_input \<Rightarrow> 'x dual_proof_inputs_with_window \<Rightarrow> bool" where
  "answers Prep job dual \<longleftrightarrow> (\<exists>prepare \<in> Prep. validate_and_prepare_job prepare job = Ok dual)"

definition fresh :: "('e, 'x) preparer set \<Rightarrow> ('e, 'x) system \<Rightarrow> bool" where
  "fresh Prep s \<longleftrightarrow> d_stale (det s) \<or>
     (\<forall>j \<in> set (job_queue s) \<union> set (working s). j = current_job (det s)) \<and>
     (\<forall>dual. Ok dual \<in> set (result_queue s) \<longrightarrow> answers Prep (current_job (det s)) dual)"

lemma idle_nothing_pending:
  "single_flight s \<Longrightarrow> \<not> d_in_flight (det s) \<Longrightarrow> job_queue s = [] \<and> working s = [] \<and> result_queue s = []"
  by (auto simp: single_flight_def pending_def split: if_splits)

lemma fresh_step:
  assumes "system_step Prep s t" and "single_flight s" and "running t" and "fresh Prep s"
  shows "fresh Prep t"
  using assms
proof (induction rule: system_step.induct)
  case (recv_stage s u us)
  then show ?case using idle_nothing_pending [of s] by (auto simp: fresh_def)
next
  case (recv_advance s u us)
  then show ?case using idle_nothing_pending [of s] by (auto simp: fresh_def)
next
  case (recv_result s r rs reaction)
  then have empty: "job_queue s = []" "working s = []" "rs = []"
    by (auto simp: single_flight_def pending_def split: if_splits)
  with recv_result show ?case
    by (cases rule: on_result_cases [where job_open = "actor s \<noteq> ActorStopped" and out_open = "output_open s" and r = r and d = "det s"])
      (auto simp: fresh_def)
next
  case (tick s reaction)
  then show ?case
    using idle_nothing_pending [of s] by (auto simp: fresh_def on_tick_eq split: if_splits)
next
  case (actor_recv s j js)
  then show ?case by (auto simp: fresh_def working_def)
next
  case (actor_done s j prepare r)
  then show ?case by (auto simp: fresh_def working_def answers_def)
next
  case (actor_panic s j prepare)
  then show ?case by (auto simp: fresh_def working_def)
qed (auto simp: fresh_def)

lemma reachable_fresh:
  assumes "reachable Prep (detector_init slot h nx) s" and "running s"
  shows "fresh Prep s"
  using assms
proof (induction rule: leads_to.induct)
  case leads_to_refl
  show ?case by (simp add: fresh_def system_init_def working_def)
next
  case (leads_to_step s t)
  then show ?case
    by (blast intro: fresh_step reachable_single_flight dest: step_from_running)
qed

section \<open>The log\<close>

text \<open>
  The specification of the detector's outside behaviour, as a function of the log alone: a state of
  the base slot (the last accepted output, or the bridge head after an advancement) and of the
  bridge head with its store hash.  Every emission starts at the bridge head, answers a job for it,
  and moves strictly ahead of the base in both windows.
\<close>

record bridge =
  base_slot :: u64
  head_slot :: u64
  head_store_hash :: b256

fun bridge_next :: "bridge \<Rightarrow> 'x log_entry \<Rightarrow> bridge" where
  "bridge_next b (LogAdvance u) =
     \<lparr>base_slot = upd_slot u, head_slot = upd_slot u, head_store_hash = upd_store_hash u\<rparr>"
| "bridge_next b (LogEmit d dual) = b\<lparr>base_slot := output_slot_of dual\<rparr>"

fun entry_ok :: "('e, 'x) preparer set \<Rightarrow> bridge \<Rightarrow> 'x log_entry \<Rightarrow> bool" where
  "entry_ok Prep b (LogAdvance u) \<longleftrightarrow> True"
| "entry_ok Prep b (LogEmit d dual) \<longleftrightarrow>
     d_slot d = head_slot b \<and> d_store_hash d = head_store_hash b \<and>
     w_input_slot (current_window dual) = head_slot b \<and>
     answers Prep (current_job d) dual \<and> ahead (base_slot b) dual"

fun log_ok :: "('e, 'x) preparer set \<Rightarrow> bridge \<Rightarrow> 'x log_entry list \<Rightarrow> bool" where
  "log_ok Prep b [] \<longleftrightarrow> True"
| "log_ok Prep b (e # es) \<longleftrightarrow> entry_ok Prep b e \<and> log_ok Prep (bridge_next b e) es"

lemma log_ok_snoc:
  "log_ok Prep b (es @ [e]) \<longleftrightarrow> log_ok Prep b es \<and> entry_ok Prep (foldl bridge_next b es) e"
  by (induction es arbitrary: b) auto

lemma ahead_mono: "l \<le> l' \<Longrightarrow> ahead l' dual \<Longrightarrow> ahead l dual"
  by (auto simp: ahead_def)

text \<open>The detector's variables are the state the log describes; its latest slot may run ahead.\<close>

definition tracks :: "bridge \<Rightarrow> detector \<Rightarrow> bool" where
  "tracks b d \<longleftrightarrow> d_slot d = head_slot b \<and> d_store_hash d = head_store_hash b
                   \<and> base_slot b \<le> d_latest_slot d"

definition log_inv :: "('e, 'x) preparer set \<Rightarrow> bridge \<Rightarrow> ('e, 'x) system \<Rightarrow> bool" where
  "log_inv Prep b s \<longleftrightarrow>
     log_ok Prep b (log s) \<and> (running s \<longrightarrow> tracks (foldl bridge_next b (log s)) (det s))"

lemma log_inv_step:
  assumes "system_step Prep s t" and "single_flight s" and "fresh Prep s" and "log_inv Prep b s"
  shows "log_inv Prep b t"
  using assms
proof (induction rule: system_step.induct)
  case (recv_stage s u us)
  then show ?case by (simp add: log_inv_def tracks_def)
next
  case (recv_advance s u us)
  then show ?case by (simp add: log_inv_def tracks_def log_ok_snoc)
next
  case (recv_result s r rs reaction)
  show ?case
  proof (cases rule: on_result_cases [where job_open = "actor s \<noteq> ActorStopped"
        and out_open = "output_open s" and r = r and d = "det s"])
    case (emit dual)
    with recv_result have "answers Prep (current_job (det s)) dual"
      by (auto simp: fresh_def)
    with recv_result emit show ?thesis
      by (auto simp: log_inv_def tracks_def log_ok_snoc intro: ahead_mono)
  qed (use recv_result in \<open>auto simp: log_inv_def tracks_def\<close>)
next
  case (tick s reaction)
  then show ?case by (auto simp: log_inv_def tracks_def on_tick_eq)
qed (auto simp: log_inv_def tracks_def)

lemma reachable_log_inv:
  assumes "reachable Prep (detector_init slot h nx) s"
  shows "log_inv Prep \<lparr>base_slot = slot, head_slot = slot, head_store_hash = h\<rparr> s"
  using assms
proof (induction rule: leads_to.induct)
  case leads_to_refl
  show ?case by (simp add: log_inv_def system_init_def tracks_def detector_init_def)
next
  case (leads_to_step s t)
  then show ?case
    by (blast intro: log_inv_step reachable_single_flight reachable_fresh dest: step_from_running)
qed

text \<open>Two emissions with no advancement between them: the later one is strictly ahead.\<close>

lemma log_ok_append: "log_ok Prep b (es @ fs) \<longleftrightarrow> log_ok Prep b es \<and> log_ok Prep (foldl bridge_next b es) fs"
  by (induction es arbitrary: b) auto

definition is_emit :: "'x log_entry \<Rightarrow> bool" where
  "is_emit e \<longleftrightarrow> (\<exists>d dual. e = LogEmit d dual)"

lemma base_grows:
  "log_ok Prep b es \<Longrightarrow> list_all is_emit es \<Longrightarrow> base_slot b \<le> base_slot (foldl bridge_next b es)"
proof (induction es arbitrary: b)
  case (Cons e es)
  then obtain d dual where e: "e = LogEmit d dual" by (auto simp: is_emit_def)
  with Cons.prems have "base_slot b \<le> output_slot_of dual" by (auto simp: ahead_def)
  moreover from Cons have "base_slot (bridge_next b e) \<le> base_slot (foldl bridge_next (bridge_next b e) es)"
    by simp
  ultimately have "base_slot b \<le> base_slot (foldl bridge_next (bridge_next b e) es)"
    using e by simp
  then show ?case by simp
qed simp

lemma emissions_increase:
  assumes "log_ok Prep b (pre @ LogEmit d dual # mid @ LogEmit d' dual' # post)"
    and "list_all is_emit mid"
  shows "output_slot_of dual < output_slot_of dual'"
proof -
  define b' where "b' = bridge_next (foldl bridge_next b pre) (LogEmit d dual)"
  from assms(1) have "log_ok Prep b' mid" and "ahead (base_slot (foldl bridge_next b' mid)) dual'"
    by (simp_all add: log_ok_append b'_def)
  with base_grows [OF this(1) assms(2)] show ?thesis
    by (auto simp: ahead_def b'_def)
qed

section \<open>When the process exits, and when it should\<close>

definition exit_inv :: "('e, 'x) system \<Rightarrow> bool" where
  "exit_inv s \<longleftrightarrow> running s \<or> \<not> output_open s"

lemma exit_inv_step:
  assumes "system_step Prep s t" and "single_flight s"
  shows "exit_inv t"
  using assms
proof (induction rule: system_step.induct)
  case (recv_result s r rs reaction)
  then have "actor s \<noteq> ActorStopped"
    by (auto simp: single_flight_def pending_def split: if_splits)
  with recv_result show ?case
    by (cases rule: on_result_cases [where job_open = "actor s \<noteq> ActorStopped"
          and out_open = "output_open s" and r = r and d = "det s"])
      (auto simp: exit_inv_def split: if_splits)
next
  case (tick s reaction)
  then show ?case by (auto simp: exit_inv_def on_tick_eq single_flight_def split: if_splits)
qed (auto simp: exit_inv_def)

lemma reachable_exit_inv:
  assumes "reachable Prep (detector_init slot h nx) s"
  shows "exit_inv s"
  using assms
proof (cases rule: leads_to.cases)
  case (leads_to_step s')
  then show ?thesis
    by (blast intro: exit_inv_step reachable_single_flight dest: step_from_running)
qed (simp add: exit_inv_def system_init_def)

text \<open>
  Once the actor has stopped, nothing is pending, the detector waits for a result that never comes,
  and no step emits anything or ends the process.
\<close>

definition stuck :: "('e, 'x) system \<Rightarrow> bool" where
  "stuck s \<longleftrightarrow> running s \<and> actor s = ActorStopped \<and> pending s = 0 \<and> d_in_flight (det s)"

definition emissions :: "('e, 'x) system \<Rightarrow> 'x log_entry list" where
  "emissions s = filter is_emit (log s)"

lemma stuck_step:
  assumes "system_step Prep s t" and "stuck s"
  shows "stuck t \<and> emissions t = emissions s"
  using assms
proof (induction rule: system_step.induct)
  case (tick s reaction)
  then show ?case by (auto simp: stuck_def pending_def on_tick_eq emissions_def)
qed (auto simp: stuck_def pending_def emissions_def is_emit_def)

lemma stuck_forever:
  "steps Prep s t \<Longrightarrow> stuck s \<Longrightarrow> stuck t \<and> emissions t = emissions s"
  by (induction rule: leads_to.induct) (auto dest: stuck_step)

text \<open>
  The latest slot goes back only with an advancement, and an emission takes it further: until the bridge
  advances, whatever is emitted ends past it.
\<close>

lemma latest_slot_step:
  assumes "system_step Prep s t"
  shows "log t = log s \<and> d_latest_slot (det s) \<le> d_latest_slot (det t)
    \<or> (\<exists>u. log t = log s @ [LogAdvance u])
    \<or> (\<exists>dual. log t = log s @ [LogEmit (det s) dual] \<and> d_latest_slot (det s) < output_slot_of dual
          \<and> d_latest_slot (det t) = output_slot_of dual)"
  using assms
proof (induction rule: system_step.induct)
  case (recv_result s r rs reaction)
  show ?case
    by (cases rule: on_result_cases [where job_open = "actor s \<noteq> ActorStopped" and out_open = "output_open s" and r = r and d = "det s"])
      (use recv_result(3) in \<open>simp_all add: ahead_def\<close>, simp_all add: react_def)
next
  case (tick s reaction)
  then show ?case by (auto simp: on_tick_eq react_def)
qed simp_all

lemma advance_no_emit: "\<not> is_emit (LogAdvance v)"
  by (simp add: is_emit_def)

lemma later_emissions_past:
  assumes "steps Prep s t" and "bound \<le> d_latest_slot (det s)"
  shows "\<exists>es. log t = log s @ es \<and> (list_all is_emit es \<longrightarrow> bound \<le> d_latest_slot (det t))
    \<and> (\<forall>d dual. LogEmit d dual \<in> set (takeWhile is_emit es) \<longrightarrow> bound < output_slot_of dual)"
  using assms
proof (induction rule: leads_to.induct)
  case (leads_to_step t u)
  then obtain es where es: "log t = log s @ es" "list_all is_emit es \<Longrightarrow> bound \<le> d_latest_slot (det t)"
    and past: "\<And>d dual. LogEmit d dual \<in> set (takeWhile is_emit es) \<Longrightarrow> bound < output_slot_of dual"
    by blast
  from latest_slot_step [OF leads_to_step(2)] show ?case
  proof (elim disjE exE conjE)
    assume "log u = log t" and "d_latest_slot (det t) \<le> d_latest_slot (det u)"
    with es past show ?thesis by (intro exI [of _ es]) auto
  next
    fix v assume "log u = log t @ [LogAdvance v]"
    with es(1) past show ?thesis
      by (intro exI [of _ "es @ [LogAdvance v]"]) (simp add: takeWhile_tail advance_no_emit)
  next
    fix dual assume log: "log u = log t @ [LogEmit (det t) dual]" and slots: "d_latest_slot (det t) < output_slot_of dual"
      "d_latest_slot (det u) = output_slot_of dual"
    have "bound < output_slot_of dual'"
      if "LogEmit d dual' \<in> set (takeWhile is_emit (es @ [LogEmit (det t) dual]))" for d dual'
    proof (cases "list_all is_emit es")
      case True
      then have "takeWhile is_emit es = es" by (auto simp: list_all_iff takeWhile_eq_all_conv)
      with True that es(2) slots past show ?thesis
        by (auto simp: takeWhile_append list_all_iff split: if_splits)
    next
      case False
      with that past show ?thesis by (auto simp: takeWhile_append list_all_iff split: if_splits)
    qed
    with es log slots show ?thesis
      by (intro exI [of _ "es @ [LogEmit (det t) dual]"]) auto
  qed
qed simp

section \<open>The contract of the window preparer\<close>

lemma validate_and_prepare_job_Ok:
  "validate_and_prepare_job prepare job = Ok dual \<longleftrightarrow>
     prepare (job_slot job) (job_store_hash job) True = Ok (current_window dual) \<and>
     (case job_next_expected_output job of
        None \<Rightarrow> next_window dual = None
      | Some n \<Rightarrow> \<exists>w. prepare (upd_slot n) (upd_store_hash n) True = Ok w \<and> next_window dual = Some w)"
  by (cases dual) (auto simp: validate_and_prepare_job_def Let_def and_then_Ok_iff split: option.split)

locale window_preparer =
  fixes Prep :: "('e, 'x) preparer set"
  assumes prepared_input: "prepare \<in> Prep \<Longrightarrow> prepare slot h True = Ok w \<Longrightarrow> w_input_slot w = slot"
    and prepared_progress:
      "prepare \<in> Prep \<Longrightarrow> prepare slot h True = Ok w \<Longrightarrow> slot < w_expected_output_slot w"
begin

lemma answer_windows:
  assumes "answers Prep job dual"
  shows "w_input_slot (current_window dual) = job_slot job"
    and "job_slot job < output_slot_of dual"
    and "map_option w_input_slot (next_window dual)
         = map_option upd_slot (job_next_expected_output job)"
    and "\<forall>nw \<in> set_option (next_window dual). w_input_slot nw < w_expected_output_slot nw"
  using assms
  by (auto simp: answers_def validate_and_prepare_job_Ok dest: prepared_input prepared_progress
      split: option.splits) (metis prepared_input prepared_progress)+

lemma fresh_result_matches:
  assumes "reachable Prep (detector_init slot h nx) s" and "running s"
    and "Ok dual \<in> set (result_queue s)" and "\<not> d_stale (det s)"
  shows "w_input_slot (current_window dual) = d_slot (det s)"
  using reachable_fresh [OF assms(1,2)] assms(3,4) answer_windows(1)
  by (fastforce simp: fresh_def current_job_def)

end

section \<open>A concrete run\<close>

text \<open>Preparation that reaches the next epoch, and the run in which its first window is emitted.\<close>

definition demo_window :: "u64 \<Rightarrow> u64 \<Rightarrow> nat proof_inputs_with_window" where
  "demo_window input output =
     \<lparr>w_input_slot = input, w_expected_output_slot = output, w_input_block_number = input,
      w_expected_output_block_number = output,
      w_proof_inputs =
        \<lparr>pi_updates = [],
         pi_finality_update =
           \<lparr>finality_finalized_header = \<lparr>beacon_slot = output, execution = None, header_rest = 0\<rparr>, finality_rest = 0\<rparr>,
         pi_expected_current_slot = 0,
         pi_store = \<lparr>finalized_header = \<lparr>beacon_slot = input, execution = None, header_rest = 0\<rparr>,
                     next_sync_committee = None, previous_max_active_participants = 0,
                     current_max_active_participants = 0, store_rest = 0\<rparr>,
         pi_genesis_root = 0, pi_forks = 0, pi_store_hash = 0,
         pi_contract_storage =
           \<lparr>cs_address = Address 0,
            cs_expected_value = \<lparr>ta_nonce = 0, ta_balance = 0, ta_storage_root = 0, ta_code_hash = 0\<rparr>,
            cs_mpt_proof = [], cs_storage_slots = []\<rparr>\<rparr>,
      w_expected_output_store_hash = 0\<rparr>"

definition demo_prepare :: "u64 \<Rightarrow> (string, nat) preparer" where
  "demo_prepare reach slot h validate = Ok (demo_window slot reach)"

definition demo_dual :: "u64 \<Rightarrow> nat dual_proof_inputs_with_window" where
  "demo_dual reach = \<lparr>current_window = demo_window 32 reach, next_window = None\<rparr>"

definition demo_detector :: "u64 \<Rightarrow> detector" where
  "demo_detector latest = (detector_init 32 32 None)\<lparr>d_latest_slot := latest\<rparr>"

definition demo_busy :: "u64 \<Rightarrow> detector" where
  "demo_busy latest = (demo_detector latest)\<lparr>d_in_flight := True\<rparr>"

lemma demo_window_slots [simp]:
  "w_input_slot (demo_window i out) = i" "w_expected_output_slot (demo_window i out) = out"
  by (simp_all add: demo_window_def)

lemmas demo_detector_defs = demo_busy_def demo_detector_def detector_init_def

lemma demo_detector_32: "detector_init 32 32 None = demo_detector 32"
  by (simp add: demo_detector_defs)

definition demo_job :: job_input where
  "demo_job = \<lparr>job_slot = 32, job_store_hash = 32, job_next_expected_output = None\<rparr>"

lemma demo_job_current: "current_job (demo_detector l) = demo_job" "current_job (demo_busy l) = demo_job"
  by (simp_all add: current_job_def demo_detector_defs filtered_next_def demo_job_def)

lemma demo_job_answer: "validate_and_prepare_job (demo_prepare reach) demo_job = Ok (demo_dual reach)"
  by (simp add: validate_and_prepare_job_def demo_job_def demo_prepare_def demo_dual_def)

text \<open>The states of a round: quiet, with a job queued, in work, answered, and its output not yet taken.\<close>

definition demo_state ::
  "detector \<Rightarrow> job_input list \<Rightarrow> actor_state \<Rightarrow> 'x dual_proof_inputs_with_window list
   \<Rightarrow> 'x dual_proof_inputs_with_window list \<Rightarrow> 'x log_entry list \<Rightarrow> ('e, 'x) system"
where
  "demo_state d jobs a results outs l =
     \<lparr>det = d, job_queue = jobs, actor = a, result_queue = map Ok results, stage_queue = [],
      advance_queue = [], output_queue = outs, output_open = True, running = True, log = l\<rparr>"

lemma demo_state_init: "demo_state (demo_detector 32) [] ActorIdle [] [] [] = system_init (demo_detector 32)"
  by (simp add: demo_state_def system_init_def)

lemma demo_tick: "system_step Prep (demo_state (demo_detector a) [] ActorIdle [] [] l)
    (demo_state (demo_busy a) [demo_job] ActorIdle [] [] l)"
proof -
  let ?s = "demo_state (demo_detector a) [] ActorIdle [] [] l"
  have r: "on_tick (actor ?s \<noteq> ActorStopped) (det ?s) = Continue (demo_busy a) (Some demo_job) None"
    by (simp add: on_tick_eq demo_state_def demo_job_current) (simp add: demo_detector_defs)
  have "system_step Prep ?s (react ?s (Continue (demo_busy a) (Some demo_job) None))"
    by (rule tick) (simp_all add: r reaction_fits_def, simp_all add: demo_state_def CHANNEL_CAPACITY_def)
  then show ?thesis by (simp add: react_def demo_state_def)
qed

lemma demo_recv: "system_step Prep (demo_state d [demo_job] ActorIdle [] [] l)
    (demo_state d [] (ActorWorking demo_job) [] [] l)"
  using actor_recv [of "demo_state d [demo_job] ActorIdle [] [] l" demo_job "[]" Prep]
  by (simp add: demo_state_def)

lemma demo_done:
  assumes "prepare \<in> Prep" and "validate_and_prepare_job prepare demo_job = Ok dual"
  shows "system_step Prep (demo_state d [] (ActorWorking demo_job) [] [] l) (demo_state d [] ActorIdle [dual] [] l)"
  using assms actor_done [of "demo_state d [] (ActorWorking demo_job) [] [] l" demo_job prepare Prep]
  by (simp add: demo_state_def CHANNEL_CAPACITY_def)

lemma demo_emit:
  fixes dual :: "'x dual_proof_inputs_with_window" and Prep :: "('e, 'x) preparer set"
  assumes "a < output_slot_of dual" and "w_input_slot (current_window dual) = 32" and "next_window dual = None"
  shows "system_step Prep (demo_state (demo_busy a) [] ActorIdle [dual] [] l)
    (demo_state (demo_detector (output_slot_of dual)) [] ActorIdle [] [dual] (l @ [LogEmit (demo_busy a) dual]))"
proof -
  let ?s = "demo_state (demo_busy a) [] ActorIdle [dual] [] l :: ('e, 'x) system"
  have r: "on_result (actor ?s \<noteq> ActorStopped) (output_open ?s) (Ok dual :: ('e, _) outcome) (det ?s)
      = Continue (demo_detector (output_slot_of dual)) None (Some dual)"
    unfolding on_result_emits using assms
    by (simp add: demo_state_def demo_detector_defs ahead_def)
  have "system_step Prep ?s (react (?s\<lparr>result_queue := []\<rparr>)
      (Continue (demo_detector (output_slot_of dual)) None (Some dual)))"
    by (rule recv_result [where r = "Ok dual"])
      (simp_all add: r reaction_fits_def, simp_all add: demo_state_def CHANNEL_CAPACITY_def)
  then show ?thesis by (simp add: react_def demo_state_def)
qed

lemma demo_take: "system_step Prep (demo_state d [] ActorIdle [] [o'] l) (demo_state d [] ActorIdle [] [] l)"
  using take_output [of "demo_state d [] ActorIdle [] [o'] l" o' "[]" Prep]
  by (simp add: demo_state_def)

lemma demo_round:
  assumes "reachable Prep d0 (demo_state (demo_detector a) [] ActorIdle [] [] l)"
    and "prepare \<in> Prep" and "validate_and_prepare_job prepare demo_job = Ok dual"
    and "a < output_slot_of dual" and "w_input_slot (current_window dual) = 32" and "next_window dual = None"
  shows "reachable Prep d0 (demo_state (demo_detector (output_slot_of dual)) [] ActorIdle [] []
           (l @ [LogEmit (demo_busy a) dual]))"
  using reach_step [OF reach_step [OF reach_step [OF reach_step [OF reach_step [OF assms(1) demo_tick]
        demo_recv] demo_done [OF assms(2,3)]] demo_emit [OF assms(4-6)]] demo_take] .

lemma demo_start: "reachable Prep (detector_init 32 32 None) (demo_state (demo_detector 32) [] ActorIdle [] [] [])"
  by (simp add: demo_detector_32 demo_state_init reach_init)

definition demo_log :: "nat log_entry list" where
  "demo_log = [LogEmit (demo_busy 32) (demo_dual 64), LogEmit (demo_busy 64) (demo_dual 96)]"

lemma demo_two_rounds:
  "reachable (range demo_prepare) (detector_init 32 32 None)
     (demo_state (demo_detector 96) [] ActorIdle [] [] demo_log)"
proof -
  have dual: "output_slot_of (demo_dual r) = r" "w_input_slot (current_window (demo_dual r)) = 32"
    "next_window (demo_dual r) = None" for r
    by (simp_all add: demo_dual_def)
  have "reachable (range demo_prepare) (detector_init 32 32 None)
      (demo_state (demo_detector 64) [] ActorIdle [] [] [LogEmit (demo_busy 32) (demo_dual 64)])"
    using demo_round [OF demo_start _ demo_job_answer [of 64], of "range demo_prepare"] by (simp add: dual)
  from demo_round [OF this _ demo_job_answer [of 96]] show ?thesis by (simp add: demo_log_def dual)
qed

lemma demo_stopped:
  "reachable {\<lambda>slot h v. Panic} (detector_init 32 32 None)
     (demo_state (demo_busy 32) [] ActorStopped [] [] [] :: (string, nat) system)"
proof -
  have "system_step {\<lambda>slot h v. Panic} (demo_state (demo_busy 32) [] (ActorWorking demo_job) [] [] [])
      (demo_state (demo_busy 32) [] ActorStopped [] [] [] :: (string, nat) system)"
    using actor_panic [of "demo_state (demo_busy 32) [] (ActorWorking demo_job) [] [] []" demo_job
        "\<lambda>slot h v. Panic" "{\<lambda>slot h v. Panic}"]
    by (simp add: demo_state_def validate_and_prepare_job_def demo_job_def)
  from reach_step [OF reach_step [OF reach_step [OF demo_start demo_tick] demo_recv] this] show ?thesis .
qed

section \<open>Properties\<close>

text \<open>C19: In every reachable state of the detector and its actor, at most one validation job is queued,
  in work or answered, and it is exactly one while the detector considers a job in flight and the
  actor lives: the result a job produces is never confused with another's.\<close>

theorem one_job_at_a_time:
  assumes "reachable Prep (detector_init slot h nx) s" and "running s"
  shows "length (job_queue s) + length (working s) + length (result_queue s)
         = (if d_in_flight (det s) \<and> actor s \<noteq> ActorStopped then 1 else 0)"
  using reachable_single_flight [OF assms]
  by (auto simp: single_flight_def pending_def split: if_splits)

theorem one_job_at_a_time_witness:
  "length (job_queue (demo_state (demo_busy 32) [demo_job] ActorIdle [] [] [] :: (string, nat) system))
   + length (working (demo_state (demo_busy 32) [demo_job] ActorIdle [] [] [] :: (string, nat) system))
   + length (result_queue (demo_state (demo_busy 32) [demo_job] ActorIdle [] [] [] :: (string, nat) system)) = 1"
  using one_job_at_a_time [OF reach_step [OF demo_start demo_tick, of "{} :: (string, nat) preparer set"]]
  by (simp add: demo_state_def demo_detector_defs)

text \<open>Whatever the interleaving of advancements, stagings, results and ticks, every emission starts at
  the bridge head of the moment, answers a job for the windows then tracked (never a stale one), and
  lies strictly ahead of the head and of everything emitted since the head last moved.\<close>

theorem emissions_are_sound:
  assumes "reachable Prep (detector_init slot h nx) s"
  shows "log_ok Prep \<lparr>base_slot = slot, head_slot = slot, head_store_hash = h\<rparr> (log s)"
  using reachable_log_inv [OF assms] by (simp add: log_inv_def)

theorem emissions_are_sound_witness:
  "log_ok (range demo_prepare) \<lparr>base_slot = 32, head_slot = 32, head_store_hash = 32\<rparr> demo_log"
  using emissions_are_sound [OF demo_two_rounds] by (simp add: demo_state_def)

text \<open>Between two advancements of the bridge, emitted output slots strictly increase: no finalized
  slot is proved twice and none is proved backwards.\<close>

theorem emitted_slots_increase:
  assumes "reachable Prep (detector_init slot h nx) s"
    and "log s = pre @ LogEmit d dual # mid @ LogEmit d' dual' # post" and "list_all is_emit mid"
  shows "output_slot_of dual < output_slot_of dual'"
proof -
  from reachable_log_inv [OF assms(1)] assms(2)
  have "log_ok Prep \<lparr>base_slot = slot, head_slot = slot, head_store_hash = h\<rparr>
      (pre @ LogEmit d dual # mid @ LogEmit d' dual' # post)"
    by (simp add: log_inv_def)
  from emissions_increase [OF this assms(3)] show ?thesis .
qed

theorem emitted_slots_increase_witness:
  "output_slot_of (demo_dual 64) < output_slot_of (demo_dual 96)"
  using emitted_slots_increase [OF demo_two_rounds, of "[]" "demo_busy 32" "demo_dual 64" "[]" "demo_busy 64"
      "demo_dual 96" "[]"]
  by (simp add: demo_state_def demo_log_def)

text \<open>The process ends by itself only after the receiver of its output was dropped: no result, no
  staging, no advancement and no failure of the actor makes a reachable detector exit otherwise.\<close>

theorem exits_only_without_receiver:
  assumes "reachable Prep (detector_init slot h nx) s" and "output_open s"
  shows "running s"
  using reachable_exit_inv [OF assms(1)] assms(2) by (simp add: exit_inv_def)

theorem exits_only_without_receiver_witness:
  "running (demo_state (demo_busy 32) [] ActorStopped [] [] [] :: (string, nat) system)"
  using exits_only_without_receiver [OF demo_stopped] by (simp add: demo_state_def)

text \<open>C35: Once a panic has stopped the validation actor, the detector never emits again, and the process
  does not exit either: it waits for a result that cannot come.\<close>

theorem actor_panic_silences_detector:
  assumes "reachable Prep (detector_init slot h nx) s" and "running s" and "actor s = ActorStopped"
    and "steps Prep s t"
  shows "running t \<and> actor t = ActorStopped \<and> emissions t = emissions s"
proof -
  from reachable_single_flight [OF assms(1,2)] assms(2,3) have "stuck s"
    by (simp add: stuck_def single_flight_def)
  from stuck_forever [OF assms(4) this] show ?thesis by (simp add: stuck_def)
qed

theorem actor_panic_silences_detector_witness:
  "emissions (demo_state (demo_busy 32) [] ActorStopped [] [] [] :: (string, nat) system) = []
   \<and> running (demo_state (demo_busy 32) [] ActorStopped [] [] [] :: (string, nat) system)"
  using actor_panic_silences_detector [OF demo_stopped _ _ leads_to_refl]
  by (simp add: demo_state_def emissions_def)

text \<open>C36: A result whose current window is ahead but whose next window is not is swallowed: handling it
  emits nothing, and from then on, whatever happens, every emission before the next advancement of the
  bridge ends past it, so that the finality it reached is not emitted until the bridge advances.\<close>

theorem next_window_behind_swallows_current:
  assumes "running s" and "result_queue s = Ok dual # rs" and "\<not> d_stale (det s)"
    and "w_input_slot (current_window dual) = d_slot (det s)" and "d_latest_slot (det s) < output_slot_of dual"
    and "next_window dual = Some nw" and "w_expected_output_slot nw \<le> d_latest_slot (det s)"
  shows "let t = react (s\<lparr>result_queue := rs\<rparr>)
                   (on_result (actor s \<noteq> ActorStopped) (output_open s) (Ok dual) (det s))
    in system_step Prep s t \<and> running t \<and> log t = log s \<and> output_queue t = output_queue s
       \<and> (\<forall>u. steps Prep t u \<longrightarrow> (\<exists>es. log u = log t @ es
            \<and> (\<forall>d dual'. LogEmit d dual' \<in> set (takeWhile is_emit es)
                 \<longrightarrow> output_slot_of dual < output_slot_of dual')))"
proof -
  let ?d = "(det s)\<lparr>d_in_flight := False, d_latest_slot := output_slot_of dual\<rparr>"
  let ?t = "react (s\<lparr>result_queue := rs\<rparr>) (Continue ?d None None)"
  have r: "on_result (actor s \<noteq> ActorStopped) (output_open s) (Ok dual) (det s) = Continue ?d None None"
    using assms(3-7) by (simp add: on_result_def Let_def)
  have step: "system_step Prep s ?t"
    by (rule recv_result [OF assms(1,2)]) (simp_all add: r reaction_fits_def)
  have "log ?t = log s" "output_queue ?t = output_queue s" by (simp_all add: react_def)
  moreover have "\<exists>es. log u = log ?t @ es \<and> (\<forall>d dual'. LogEmit d dual' \<in> set (takeWhile is_emit es)
      \<longrightarrow> output_slot_of dual < output_slot_of dual')" if "steps Prep ?t u" for u
    using later_emissions_past [OF that, of "output_slot_of dual"] by auto
  moreover have "running ?t" using assms(1) by simp
  ultimately show ?thesis
    using step unfolding r Let_def by blast
qed

theorem next_window_behind_swallows_current_witness:
  "let d = (detector_init 32 32 (Some \<lparr>upd_slot = 64, upd_store_hash = 64\<rparr>))\<lparr>d_latest_slot := 96, d_in_flight := True\<rparr>;
       dual = \<lparr>current_window = demo_window 32 128, next_window = Some (demo_window 64 96)\<rparr>;
       s = demo_state d [] ActorIdle [dual] [] []
   in \<exists>t. system_step (range demo_prepare) s t \<and> output_queue t = [] \<and> log t = []"
  using next_window_behind_swallows_current [of "demo_state ((detector_init 32 32 (Some \<lparr>upd_slot = 64, upd_store_hash = 64\<rparr>))
        \<lparr>d_latest_slot := 96, d_in_flight := True\<rparr>) [] ActorIdle
        [\<lparr>current_window = demo_window 32 128, next_window = Some (demo_window 64 96)\<rparr>] [] []"
      "\<lparr>current_window = demo_window 32 128, next_window = Some (demo_window 64 96)\<rparr>" "[]" "demo_window 64 96"
      "range demo_prepare"]
  by (simp add: demo_state_def detector_init_def Let_def) blast

text \<open>A failed job does not clear the stale mark: the next job is for the current windows, but its
  good result is dropped as stale and the same job is started a second time.\<close>

theorem failure_keeps_stale_mark:
  assumes "d_stale d"
  shows "\<exists>d1 d2 d3.
     on_result True out_open (Err e) d = Continue d1 None None
     \<and> on_tick True d1 = Continue d2 (Some (current_job d)) (None :: 'x dual_proof_inputs_with_window option)
     \<and> on_result True out_open (Ok (dual :: 'x dual_proof_inputs_with_window)) d2
         = Continue d3 (Some (current_job d)) None"
  using assms by (simp add: on_result_def on_tick_eq Let_def)

theorem failure_keeps_stale_mark_witness:
  "\<exists>d1 d2 d3. on_result True True (Err ''rpc'') ((demo_busy 32)\<lparr>d_stale := True\<rparr>)
       = Continue d1 None None
     \<and> on_tick True d1 = Continue d2 (Some demo_job) (None :: nat dual_proof_inputs_with_window option)
     \<and> on_result True True (Ok (demo_dual 32) :: (string, _) outcome) d2
         = Continue d3 (Some demo_job) None"
  using failure_keeps_stale_mark [of "(demo_busy 32)\<lparr>d_stale := True\<rparr>" True "''rpc''" "demo_dual 32"]
  by (simp add: demo_job_current)

text \<open>
  The two windows of an emission are prepared by separate requests and need not end at the same slot:
  one may have seen a later finality than the other.
\<close>

theorem emitted_windows_may_end_apart:
  "\<exists>(prepare :: (string, nat) preparer) d d' dual.
     validate_and_prepare_job prepare (current_job d) = Ok dual
     \<and> on_result True True (Ok dual :: (string, _) outcome) d = Continue d' None (Some dual)
     \<and> (\<forall>nw \<in> set_option (next_window dual). w_expected_output_slot nw < output_slot_of dual)
     \<and> next_window dual \<noteq> None"
proof -
  let ?prepare = "\<lambda>slot h v. Ok (demo_window slot (if slot = 32 then 128 else 96)) :: (string, _) outcome"
  let ?d = "detector_init 32 32 (Some \<lparr>upd_slot = 64, upd_store_hash = 64\<rparr>)"
  let ?dual = "\<lparr>current_window = demo_window 32 128, next_window = Some (demo_window 64 96)\<rparr>"
  have "validate_and_prepare_job ?prepare (current_job ?d) = Ok ?dual"
    by (simp add: validate_and_prepare_job_def current_job_def detector_init_def filtered_next_def)
  moreover have "on_result True True (Ok ?dual :: (string, _) outcome) ?d
      = Continue (?d\<lparr>d_in_flight := False, d_latest_slot := 128\<rparr>) None (Some ?dual)"
    by (simp add: on_result_emits detector_init_def ahead_def)
  ultimately show ?thesis
    by (intro exI [of _ ?prepare] exI [of _ ?d] exI [of _ ?dual] exI [of _ "?d\<lparr>d_in_flight := False, d_latest_slot := 128\<rparr>"])
      simp
qed

end
