(* ===== verification/Consensus_Client.thy ===== *)
theory Consensus_Client
  imports Execution_Http Finality_Detector
begin

text \<open>
  \<open>golem-symbiotic-consensus-mpt/src/rpcs/consensus/mod.rs\<close>: a light client over one consensus RPC,
  the preparation and validation of consensus proof inputs, and the proxy that races providers and
  hands the validated inputs to the execution proxy.  The preparation of this theory is what the
  validation actor of the detector calls, so the detector's locale is interpreted here.
\<close>

section \<open>The environment\<close>

text \<open>\<open>Network::to_base_config\<close> of the helios crate, as far as it is read.\<close>

record 'x base_config =
  bc_genesis_root :: b256
  bc_forks :: 'x

text \<open>
  The configuration of a client: the chain and forks of the network, and the two fields the program
  sets itself.  All other fields keep the defaults of the helios crate.
\<close>

record 'x client_config = "'x base_config" +
  strict_checkpoint_age :: bool
  max_checkpoint_age :: u64

text \<open>
  The calls to the network tables of helios, to its client \<open>Inner\<close> (bootstrap and beacon RPC) and to
  its checkpoint services.  The client's calls go to one provider, whose state is the world \<open>'w\<close>; the
  checkpoint services are the same for every provider and answer by the time they are asked.  A beacon
  block is an opaque value; its root is \<open>tree_hash_root\<close>.
\<close>

record ('w, 'x) beacon_env =
  network_from_chain_id :: "u64 \<Rightarrow> (string, 'x) outcome"
  to_base_config :: "'x \<Rightarrow> 'x base_config"
  default_store :: "'x lc_store"
  inner_bootstrap :: "'x client_config \<Rightarrow> b256 \<Rightarrow> ('w, string, 'x lc_store) io"
  rpc_get_block :: "u64 \<Rightarrow> ('w, string, 'x) io"
  rpc_get_finality_update :: "('w, string, 'x lc_finality_update) io"
  rpc_get_updates :: "u64 \<Rightarrow> u8 \<Rightarrow> ('w, string, 'x lc_update list) io"
  build_checkpoint_fallback :: "(nat, string, 'x) io"
  fetch_latest_checkpoint :: "'x \<Rightarrow> 'x \<Rightarrow> (nat, string, b256) io"
  inner_expected_current_slot :: "'x client_config \<Rightarrow> 'w \<Rightarrow> u64"
  calc_sync_period :: "u64 \<Rightarrow> u64"
  beacon_run_blocking :: "'w \<Rightarrow> 'w"
  beacon_clock :: "'w \<Rightarrow> nat"
  beacon_wait :: "nat \<Rightarrow> 'w \<Rightarrow> 'w" \<comment> \<open>the provider's state once the time has come\<close>

datatype client_error =
    ChainIdNotSet
  | InvalidChainId string
  | UnknownNetwork string
  | BootstrapFailed string
  | BlockFetchFailed u64 string
  | CheckpointFallbackFailed string
  | CheckpointFetchFailed string
  | FinalityUpdateFailed string
  | UpdatesFailed string
  | MissingZerothUpdate
  | VerifyUpdateFailed string
  | StoreHashFailed string
  | ProgramFailed program_error
  | OutputSlotNotGreater u64 u64
  | NonCheckpointSlot u64
  | ZeroNextSyncCommittee
  | ProgramJoinError

definition MAX_REQUEST_LIGHT_CLIENT_UPDATES :: u8 where
  "MAX_REQUEST_LIGHT_CLIENT_UPDATES = 128"

definition CONSENSUS_PROVIDER_TIMEOUT :: nat where \<comment> \<open>seconds\<close>
  "CONSENSUS_PROVIDER_TIMEOUT = 20"

definition CONSENSUS_RPCS_ENV_VAR :: string where
  [simp]: "CONSENSUS_RPCS_ENV_VAR = ''SOURCE_CONSENSUS_HTTP_RPCS''"

section \<open>A client of one provider\<close>

record 'x client =
  cl_config :: "'x client_config"
  cl_store :: "'x lc_store"

definition chain_network ::
  "(string \<rightharpoonup> string) \<Rightarrow> ('w, 'x) beacon_env \<Rightarrow> (client_error, 'x) outcome" where
  "chain_network env_var env =
     and_then (ok_or ChainIdNotSet (env_var ''SOURCE_CHAIN_ID'')) (\<lambda>chain_id.
     and_then (ok_or (InvalidChainId chain_id) (parse_u64 chain_id)) (\<lambda>n.
     map_err UnknownNetwork (network_from_chain_id env n)))"

definition client_new ::
  "(string \<rightharpoonup> string) \<Rightarrow> ('w, 'x) beacon_env \<Rightarrow> (client_error, 'x client) outcome" where
  "client_new env_var env =
     and_then (chain_network env_var env) (\<lambda>network.
     let base_config = to_base_config env network;
         config = \<lparr>bc_genesis_root = bc_genesis_root base_config, bc_forks = bc_forks base_config,
                   strict_checkpoint_age = False, max_checkpoint_age = 604800\<rparr> \<comment> \<open>1 week\<close>
     in Ok \<lparr>cl_config = config, cl_store = default_store env\<rparr>)"

definition bootstrap_from_checkpoint ::
  "(string \<rightharpoonup> string) \<Rightarrow> ('w, 'x) beacon_env \<Rightarrow> b256 \<Rightarrow> ('w, client_error, 'x client) io" where
  "bootstrap_from_checkpoint env_var env checkpoint =
     io_bind (io_of (client_new env_var env)) (\<lambda>client.
     io_bind (io_map_err BootstrapFailed (inner_bootstrap env (cl_config client) checkpoint)) (\<lambda>store.
     io_of (Ok (client\<lparr>cl_store := store\<rparr>))))"

definition fetch_block_root ::
  "'x light_client \<Rightarrow> ('w, 'x) beacon_env \<Rightarrow> u64 \<Rightarrow> ('w, client_error, b256) io" where
  "fetch_block_root lc env slot =
     io_bind (io_map_err (BlockFetchFailed slot) (rpc_get_block env slot)) (\<lambda>block.
     io_of (b256_from_slice (be_bytes 32 (tree_hash_root lc block))))"

definition bootstrap_from_slot ::
  "(string \<rightharpoonup> string) \<Rightarrow> 'x light_client \<Rightarrow> ('w, 'x) beacon_env \<Rightarrow> u64
   \<Rightarrow> ('w, client_error, 'x client) io" where
  "bootstrap_from_slot env_var lc env slot =
     io_bind (io_of (client_new env_var env)) (\<lambda>client.
     io_bind (fetch_block_root lc env slot) (\<lambda>checkpoint.
     bootstrap_from_checkpoint env_var env checkpoint))"

definition get_current_finalized_header :: "'x client \<Rightarrow> 'x lc_header" where
  "get_current_finalized_header client = finalized_header (cl_store client)"

definition client_expected_current_slot :: "('w, 'x) beacon_env \<Rightarrow> 'x client \<Rightarrow> 'w \<Rightarrow> u64" where
  "client_expected_current_slot env client w = inner_expected_current_slot env (cl_config client) w"

definition get_current_finalizer_header_beacon_slot :: "'x client \<Rightarrow> u64" where
  "get_current_finalizer_header_beacon_slot client =
     beacon_slot (finalized_header (cl_store client))"

definition get_current_checkpoint ::
  "'x light_client \<Rightarrow> ('w, 'x) beacon_env \<Rightarrow> 'x client \<Rightarrow> ('w, client_error, b256) io" where
  "get_current_checkpoint lc env client =
     fetch_block_root lc env (get_current_finalizer_header_beacon_slot client)"

text \<open>This one takes no URL: it asks the checkpoint services, and its world is the time.\<close>

definition get_latest_checkpoint ::
  "(string \<rightharpoonup> string) \<Rightarrow> ('w, 'x) beacon_env \<Rightarrow> (nat, client_error, b256) io" where
  "get_latest_checkpoint env_var env =
     io_bind (io_map_err CheckpointFallbackFailed (build_checkpoint_fallback env)) (\<lambda>cf.
     io_bind (io_of (chain_network env_var env)) (\<lambda>network.
     io_map_err CheckpointFetchFailed (fetch_latest_checkpoint env cf network)))"

text \<open>A call that does not go to the provider, awaited between calls that do.\<close>

definition meanwhile :: "('w, 'x) beacon_env \<Rightarrow> (nat, 'e, 'a) io \<Rightarrow> ('w, 'e, 'a) io" where
  "meanwhile env call w =
     (case call (beacon_clock env w) of
        None \<Rightarrow> None
      | Some (r, t) \<Rightarrow> Some (r, beacon_wait env t w))"

lemma meanwhile_Ok [outcome_simps]:
  "meanwhile env call w = Some (Ok a, w') \<longleftrightarrow>
     (\<exists>t. call (beacon_clock env w) = Some (Ok a, t) \<and> w' = beacon_wait env t w)"
  by (auto simp: meanwhile_def split: option.splits)

definition get_latest_finality_update ::
  "('w, 'x) beacon_env \<Rightarrow> ('w, client_error, 'x lc_finality_update) io" where
  "get_latest_finality_update env = io_map_err FinalityUpdateFailed (rpc_get_finality_update env)"

definition client_get_latest_finality_slot :: "('w, 'x) beacon_env \<Rightarrow> ('w, client_error, u64) io" where
  "client_get_latest_finality_slot env =
     io_bind (get_latest_finality_update env) (\<lambda>finality_update.
     io_of (Ok (beacon_slot (finality_finalized_header finality_update))))"

definition get_updates ::
  "('w, 'x) beacon_env \<Rightarrow> 'x client \<Rightarrow> ('w, client_error, 'x lc_update list) io" where
  "get_updates env client =
     (let period = calc_sync_period env (beacon_slot (finalized_header (cl_store client)))
      in io_map_err UpdatesFailed (rpc_get_updates env period MAX_REQUEST_LIGHT_CLIENT_UPDATES))"

text \<open>An empty answer is a failed \<open>unwrap\<close> here, where \<open>prepare_consensus_proof_inputs\<close> checks it.\<close>

definition get_first_update ::
  "('w, 'x) beacon_env \<Rightarrow> 'x client \<Rightarrow> ('w, client_error, 'x lc_update) io" where
  "get_first_update env client =
     (let period = calc_sync_period env (get_current_finalizer_header_beacon_slot client)
      in io_bind (io_map_err UpdatesFailed (rpc_get_updates env period 1)) (\<lambda>updates.
         io_of (case updates of [] \<Rightarrow> Panic | update # rest \<Rightarrow> Ok update)))"

definition verify_and_apply ::
  "'x light_client \<Rightarrow> u64 \<Rightarrow> 'x lc_store \<Rightarrow> b256 \<Rightarrow> 'x \<Rightarrow> 'x lc_update
   \<Rightarrow> (client_error, 'x lc_store) outcome" where
  "verify_and_apply lc expected_current_slot store genesis_root forks update =
     (case verify_update lc update expected_current_slot store genesis_root forks of
        Some e \<Rightarrow> Err (VerifyUpdateFailed e)
      | None \<Rightarrow> Ok (apply_update lc store update))"

definition get_store_with_next_sync_committee ::
  "'x light_client \<Rightarrow> u64 \<Rightarrow> 'x lc_store \<Rightarrow> b256 \<Rightarrow> 'x \<Rightarrow> 'x lc_update
   \<Rightarrow> (client_error, 'x lc_store) outcome" where
  "get_store_with_next_sync_committee lc expected_current_slot store genesis_root forks first_update =
     (let store_clone = store
      in and_then (verify_and_apply lc expected_current_slot store genesis_root forks first_update)
           (\<lambda>store. Ok (store_clone
              \<lparr>next_sync_committee := next_sync_committee store,
               previous_max_active_participants := previous_max_active_participants store,
               current_max_active_participants := current_max_active_participants store\<rparr>)))"

definition client_get_latest_finality_slot_and_store_hash ::
  "(string \<rightharpoonup> string) \<Rightarrow> 'x light_client \<Rightarrow> ('w, 'x) beacon_env \<Rightarrow> ('w, client_error, u64 \<times> b256) io"
where
  "client_get_latest_finality_slot_and_store_hash env_var lc env =
     io_bind (meanwhile env (get_latest_checkpoint env_var env)) (\<lambda>latest_checkpoint.
     io_bind (bootstrap_from_checkpoint env_var env latest_checkpoint) (\<lambda>client.
     let slot = get_current_finalizer_header_beacon_slot client
     in io_bind (get_first_update env client) (\<lambda>first_update w.
          io_bind (io_of (get_store_with_next_sync_committee lc
                            (inner_expected_current_slot env (cl_config client) w) (cl_store client)
                            (bc_genesis_root (cl_config client)) (bc_forks (cl_config client))
                            first_update)) (\<lambda>synced_store.
          io_bind (io_of (map_err StoreHashFailed (sha256_hash_helios_store lc synced_store)))
            (\<lambda>store_hash. io_of (Ok (slot, store_hash)))) w)))"

section \<open>Consensus proof inputs\<close>

text \<open>
  The store the proof starts from, and the updates that are left: an update that lies before the
  input slot is applied and dropped, otherwise its sync committee is restored into the store.
\<close>

definition synced_store ::
  "'x light_client \<Rightarrow> 'x client \<Rightarrow> u64 \<Rightarrow> u64 \<Rightarrow> 'x lc_update \<Rightarrow> 'x lc_update list
   \<Rightarrow> (client_error, 'x lc_store \<times> 'x lc_update list) outcome" where
  "synced_store lc client expected_current_slot input_slot first_update rest =
     (let genesis_root = bc_genesis_root (cl_config client);
          forks = bc_forks (cl_config client);
          first_update_slot = beacon_slot (update_finalized_header first_update)
      in if first_update_slot < input_slot
         then and_then (verify_and_apply lc expected_current_slot (cl_store client) genesis_root forks
                          first_update) (\<lambda>store. Ok (store, rest))
         else and_then (get_store_with_next_sync_committee lc expected_current_slot (cl_store client)
                          genesis_root forks first_update) (\<lambda>store. Ok (store, first_update # rest)))"

definition prepare_consensus_proof_inputs ::
  "(string \<rightharpoonup> string) \<Rightarrow> 'x light_client \<Rightarrow> ('w, 'x) beacon_env \<Rightarrow> u64 \<Rightarrow> b256
   \<Rightarrow> ('w, client_error, 'x consensus_proof_inputs) io" where
  "prepare_consensus_proof_inputs env_var lc env input_slot store_hash =
     io_bind (bootstrap_from_slot env_var lc env input_slot) (\<lambda>client.
     io_bind (get_latest_finality_update env) (\<lambda>finality_update.
     io_bind (get_updates env client) (\<lambda>updates w.
       (case updates of
          [] \<Rightarrow> Some (Err MissingZerothUpdate, w)
        | first_update # rest \<Rightarrow>
            (let current = client_expected_current_slot env client w
             in io_bind (io_of (synced_store lc client current input_slot first_update rest))
                  (\<lambda>(store, updates).
                  io_of (Ok \<lparr>cpi_updates = updates, cpi_finality_update = finality_update,
                             cpi_expected_current_slot = current, cpi_store = store,
                             cpi_genesis_root = bc_genesis_root (cl_config client),
                             cpi_forks = bc_forks (cl_config client),
                             cpi_store_hash = store_hash\<rparr>)) w)))))"

section \<open>The proxy over several providers\<close>

record 'v consensus_http_proxy =
  ch_principal_provider_url :: 'v
  ch_backup_providers_urls :: "'v list"
  ch_all_providers_urls :: "'v list"
  ch_validation_timeout :: nat

definition consensus_http_proxy_from_env ::
  "(string \<rightharpoonup> string) \<Rightarrow> (string \<Rightarrow> 'v option) \<Rightarrow> (config_error, 'v consensus_http_proxy) outcome" where
  "consensus_http_proxy_from_env env_var parse_url =
     and_then (validation_timeout_from env_var ''CONSENSUS_PROOF_INPUT_VALIDATION_TIMEOUT'')
       (\<lambda>validation_timeout.
     and_then (ok_or (MissingVariable CONSENSUS_RPCS_ENV_VAR) (env_var CONSENSUS_RPCS_ENV_VAR))
       (\<lambda>s.
     let urls = rpc_urls parse_url s
     in case urls of
          [] \<Rightarrow> Err (NoValidUrls CONSENSUS_RPCS_ENV_VAR)
        | principal_provider_url # backup_providers_urls \<Rightarrow>
            Ok \<lparr>ch_principal_provider_url = principal_provider_url,
                ch_backup_providers_urls = backup_providers_urls,
                ch_all_providers_urls = urls, ch_validation_timeout = validation_timeout\<rparr>))"

definition consensus_http_proxy_try_from_env ::
  "(string \<rightharpoonup> string) \<Rightarrow> (string \<Rightarrow> 'v option) \<Rightarrow> ('e, 'v consensus_http_proxy) outcome" where
  "consensus_http_proxy_try_from_env env_var parse_url =
     unwrap (consensus_http_proxy_from_env env_var parse_url)"

text \<open>
  The closure run on a blocking thread: the native run of the program and, when \<open>validate\<close> is set,
  the conditions on its outputs.
\<close>

definition run_and_validate ::
  "'x light_client \<Rightarrow> bool \<Rightarrow> u64 \<Rightarrow> 'x consensus_proof_inputs
   \<Rightarrow> (client_error, u64 \<times> 'x consensus_proof_inputs \<times> b256) outcome" where
  "run_and_validate lc validate input_slot inputs =
     and_then (map_err ProgramFailed (consensus_program lc inputs)) (\<lambda>proof_outputs.
     let output_slot = co_output_slot proof_outputs
     in if validate \<and> output_slot \<le> input_slot then Err (OutputSlotNotGreater output_slot input_slot)
        else if validate \<and> output_slot mod 32 > 0 then Err (NonCheckpointSlot output_slot)
        else if validate \<and> co_next_sync_committee_hash proof_outputs = 0 then Err ZeroNextSyncCommittee
        else Ok (output_slot, inputs, co_output_store_hash proof_outputs))"

definition prepare_validated ::
  "(string \<rightharpoonup> string) \<Rightarrow> 'x light_client \<Rightarrow> ('v, 'x) beacon_env \<Rightarrow> u64 \<Rightarrow> b256 \<Rightarrow> bool
   \<Rightarrow> ('v, client_error, u64 \<times> u64 \<times> 'x consensus_proof_inputs \<times> b256) io" where
  "prepare_validated env_var lc env input_slot store_hash validate =
     io_bind (prepare_consensus_proof_inputs env_var lc env input_slot store_hash)
       (\<lambda>consensus_proof_inputs.
     io_bind (spawn_blocking (beacon_run_blocking env) ProgramJoinError id
                (run_and_validate lc validate input_slot consensus_proof_inputs))
       (\<lambda>(output_slot, validated_proof_inputs, expected_output_store_hash).
     io_of (Ok (input_slot, output_slot, validated_proof_inputs, expected_output_store_hash))))"

datatype prepare_error =
    ConsensusQueryFailed "client_error query_error"
  | MissingInputExecution
  | MissingOutputExecution
  | ExecutionQueryFailed "http_error query_error"

text \<open>Everything one call of the preparation depends on besides its arguments.\<close>

record ('v, 'w, 'l, 'x, 'm) preparation =
  pr_env_var :: "string \<rightharpoonup> string"
  pr_light_client :: "'x light_client"
  pr_mpt :: "'m mpt_env"
  pr_beacon :: "('v, 'x) beacon_env"
  pr_exec :: "('w, 'l) exec_env"
  pr_consensus_runtime :: "(client_error, u64 \<times> u64 \<times> 'x consensus_proof_inputs \<times> b256) runtime"
  pr_execution_runtime :: "(http_error, 'x proof_inputs) runtime"
  pr_parse_url :: "string \<Rightarrow> 'v option"
  pr_connect :: "string \<Rightarrow> 'w option"
  pr_parse_address :: "string \<Rightarrow> address option"

definition pr_enable_debug :: "('v, 'w, 'l, 'x, 'm) preparation \<Rightarrow> bool" where
  "pr_enable_debug pr = debug_enabled (pr_env_var pr)"

definition prepare_consensus_mpt_proof_inputs ::
  "('v, 'w, 'l, 'x, 'm) preparation \<Rightarrow> 'v consensus_http_proxy \<Rightarrow> u64 \<Rightarrow> b256 \<Rightarrow> bool
   \<Rightarrow> nat \<times> (prepare_error, 'x proof_inputs_with_window) outcome" where
  "prepare_consensus_mpt_proof_inputs pr proxy input_slot store_hash validate =
     (let (t, validated) = multiplex (pr_consensus_runtime pr)
            (future_of (beacon_clock (pr_beacon pr))
               (prepare_validated (pr_env_var pr) (pr_light_client pr) (pr_beacon pr) input_slot
                  store_hash validate))
            (ch_all_providers_urls proxy) (ch_validation_timeout proxy)
      in case map_err ConsensusQueryFailed validated of
           Err e \<Rightarrow> (t, Err e)
         | Panic \<Rightarrow> (t, Panic)
         | Ok (input_slot, output_slot, inputs, expected_output_store_hash) \<Rightarrow>
             (case and_then (ok_or MissingInputExecution (execution (finalized_header (cpi_store inputs))))
                (\<lambda>input_ex.
                   and_then (ok_or MissingOutputExecution
                               (execution (finality_finalized_header (cpi_finality_update inputs))))
                     (\<lambda>output_ex.
                        and_then (execution_http_proxy_try_from_env (pr_env_var pr) (pr_connect pr)
                                    (pr_parse_address pr)) (\<lambda>eproxy. Ok (input_ex, output_ex, eproxy)))) of
                Err e \<Rightarrow> (t, Err e)
              | Panic \<Rightarrow> (t, Panic)
              | Ok (input_ex, output_ex, eproxy) \<Rightarrow>
                  map_prod ((+) t) (map_err ExecutionQueryFailed)
                    (execution_prepare_consensus_mpt_proof_inputs (pr_execution_runtime pr) (pr_exec pr)
                       (pr_light_client pr) (pr_mpt pr) (pr_enable_debug pr) eproxy input_slot
                       output_slot (block_number input_ex) (block_number output_ex) inputs
                       expected_output_store_hash)))"

definition get_latest_finality_slot_and_store_hash ::
  "(client_error, u64 \<times> b256) runtime \<Rightarrow> (string \<rightharpoonup> string) \<Rightarrow> 'x light_client \<Rightarrow> ('v, 'x) beacon_env
   \<Rightarrow> 'v consensus_http_proxy \<Rightarrow> nat \<times> (client_error query_error, u64 \<times> b256) outcome" where
  "get_latest_finality_slot_and_store_hash rt env_var lc env proxy =
     query_with_fallback rt (ch_principal_provider_url proxy) []
       (future_of (beacon_clock env) (client_get_latest_finality_slot_and_store_hash env_var lc env))
       CONSENSUS_PROVIDER_TIMEOUT"

definition get_latest_finality_slot ::
  "(client_error, u64) runtime \<Rightarrow> (string \<rightharpoonup> string) \<Rightarrow> ('v, 'x) beacon_env
   \<Rightarrow> 'v consensus_http_proxy \<Rightarrow> nat \<times> (client_error query_error, u64) outcome" where
  "get_latest_finality_slot rt env_var env proxy =
     multiplex rt
       (future_of (beacon_clock env)
          (io_bind (meanwhile env (get_latest_checkpoint env_var env)) (\<lambda>checkpoint.
           io_bind (bootstrap_from_checkpoint env_var env checkpoint) (\<lambda>client.
           client_get_latest_finality_slot env))))
       (ch_all_providers_urls proxy) CONSENSUS_PROVIDER_TIMEOUT"

section \<open>The store a proof starts from\<close>

lemma verify_and_apply_Ok [guard_simps]:
  "verify_and_apply lc c s g f u = Ok s' \<longleftrightarrow> verify_update lc u c s g f = None \<and> s' = apply_update lc s u"
  by (auto simp: verify_and_apply_def split: option.splits)

text \<open>
  What the restored store shares with the bootstrapped one: everything but the sync committee and
  the two participant counts, which come from the applied update.
\<close>

definition restored_from :: "'x lc_store \<Rightarrow> 'x lc_store \<Rightarrow> 'x lc_store \<Rightarrow> bool" where
  "restored_from old advanced s \<longleftrightarrow>
     finalized_header s = finalized_header old \<and> store_rest s = store_rest old \<and>
     next_sync_committee s = next_sync_committee advanced \<and>
     previous_max_active_participants s = previous_max_active_participants advanced \<and>
     current_max_active_participants s = current_max_active_participants advanced"

text \<open>The same as a function of the store and the update.\<close>

definition synced_by :: "'x light_client \<Rightarrow> 'x lc_store \<Rightarrow> 'x lc_update \<Rightarrow> 'x lc_store" where
  "synced_by lc s u =
     (let advanced = apply_update lc s u
      in s\<lparr>next_sync_committee := next_sync_committee advanced,
           previous_max_active_participants := previous_max_active_participants advanced,
           current_max_active_participants := current_max_active_participants advanced\<rparr>)"

lemma restored_from_synced: "restored_from s (apply_update lc s u) s' \<longleftrightarrow> s' = synced_by lc s u"
  by (auto simp: restored_from_def synced_by_def Let_def)

lemma store_with_next_sync_committee_Ok [guard_simps]:
  "get_store_with_next_sync_committee lc c s g f u = Ok s' \<longleftrightarrow>
     verify_update lc u c s g f = None \<and> restored_from s (apply_update lc s u) s'"
  by (auto simp: get_store_with_next_sync_committee_def Let_def outcome_simps verify_and_apply_Ok
      restored_from_def)

lemma synced_store_Ok [guard_simps]:
  "synced_store lc client c slot u rest = Ok (s, us) \<longleftrightarrow>
     verify_update lc u c (cl_store client) (bc_genesis_root (cl_config client))
       (bc_forks (cl_config client)) = None
     \<and> (if beacon_slot (update_finalized_header u) < slot
        then s = apply_update lc (cl_store client) u \<and> us = rest
        else restored_from (cl_store client) (apply_update lc (cl_store client) u) s \<and> us = u # rest)"
  by (auto simp: synced_store_def Let_def outcome_simps verify_and_apply_Ok
      store_with_next_sync_committee_Ok)

lemma prepare_consensus_proof_inputs_Ok:
  assumes "prepare_consensus_proof_inputs env_var lc env slot h w = Some (Ok inputs, w')"
  obtains client wc fu wf u rest wu where
    "bootstrap_from_slot env_var lc env slot w = Some (Ok client, wc)"
    "rpc_get_finality_update env wc = Some (Ok fu, wf)"
    "get_updates env client wf = Some (Ok (u # rest), wu)"
    "synced_store lc client (cpi_expected_current_slot inputs) slot u rest
       = Ok (cpi_store inputs, cpi_updates inputs)"
    "cpi_expected_current_slot inputs = inner_expected_current_slot env (cl_config client) wu"
    "cpi_finality_update inputs = fu" "cpi_store_hash inputs = h"
    "cpi_genesis_root inputs = bc_genesis_root (cl_config client)"
    "cpi_forks inputs = bc_forks (cl_config client)"
proof -
  from assms obtain client wc fu wf us wu where b:
    "bootstrap_from_slot env_var lc env slot w = Some (Ok client, wc)"
    "rpc_get_finality_update env wc = Some (Ok fu, wf)"
    "get_updates env client wf = Some (Ok us, wu)"
    and rest: "(case us of [] \<Rightarrow> Some (Err MissingZerothUpdate, wu)
      | u # rest \<Rightarrow> (let c = client_expected_current_slot env client wu
          in io_bind (io_of (synced_store lc client c slot u rest))
                  (\<lambda>(store, updates).
                  io_of (Ok \<lparr>cpi_updates = updates, cpi_finality_update = fu,
                             cpi_expected_current_slot = c, cpi_store = store,
                             cpi_genesis_root = bc_genesis_root (cl_config client),
                             cpi_forks = bc_forks (cl_config client),
                             cpi_store_hash = h\<rparr>)) wu)) = Some (Ok inputs, w')"
    by (auto simp: prepare_consensus_proof_inputs_def get_latest_finality_update_def outcome_simps)
  from rest b show ?thesis
    by (cases us) (auto simp: Let_def outcome_simps client_expected_current_slot_def intro: that)
qed

lemma get_updates_Ok [outcome_simps]:
  "get_updates env client w = Some (Ok us, w') \<longleftrightarrow>
     rpc_get_updates env (calc_sync_period env (beacon_slot (finalized_header (cl_store client)))) 128 w
       = Some (Ok us, w')"
  by (simp add: get_updates_def Let_def outcome_simps MAX_REQUEST_LIGHT_CLIENT_UPDATES_def)

section \<open>Validated inputs and prepared windows\<close>

text \<open>The conditions on outputs that \<open>validate\<close> switches on.\<close>

definition acceptable :: "u64 \<Rightarrow> consensus_proof_outputs \<Rightarrow> bool" where
  "acceptable input_slot out \<longleftrightarrow>
     input_slot < co_output_slot out \<and> co_output_slot out mod 32 = 0
     \<and> co_next_sync_committee_hash out \<noteq> 0"

lemma run_and_validate_Ok [guard_simps]:
  "run_and_validate lc v slot inputs = Ok (o', i', h') \<longleftrightarrow>
     (\<exists>out. consensus_program lc inputs = Ok out \<and> (v \<longrightarrow> acceptable slot out)
        \<and> o' = co_output_slot out \<and> i' = inputs \<and> h' = co_output_store_hash out)"
  by (auto simp: run_and_validate_def Let_def outcome_simps acceptable_def word_gt_0 not_le
      split: if_splits del: mod_0_imp_dvd)

lemma prepare_validated_Ok:
  assumes "prepare_validated env_var lc env slot h v w = Some (Ok (i, o', inputs, h'), w')"
  shows "i = slot" and "cpi_store_hash inputs = h"
    and "\<exists>out. consensus_program lc inputs = Ok out \<and> (v \<longrightarrow> acceptable slot out)
       \<and> o' = co_output_slot out \<and> h' = co_output_store_hash out"
  using assms
  by (auto simp: prepare_validated_def outcome_simps run_and_validate_Ok
      elim!: prepare_consensus_proof_inputs_Ok)

text \<open>
  What a prepared window promises: its inputs run, natively, to the outputs the window announces,
  from the store hash and input slot it was asked for.
\<close>

definition provable_window ::
  "'x light_client \<Rightarrow> 'm mpt_env \<Rightarrow> bool \<Rightarrow> u64 \<Rightarrow> b256 \<Rightarrow> bool \<Rightarrow> 'x proof_inputs_with_window \<Rightarrow> bool"
where
  "provable_window lc mpt dbg slot h validate w \<longleftrightarrow>
     w_input_slot w = slot \<and> pi_store_hash (w_proof_inputs w) = h \<and>
     (\<exists>out. consensus_mpt_program lc mpt (w_proof_inputs w) dbg = Ok out
        \<and> po_input_store_hash out = h
        \<and> po_output_slot out = w_expected_output_slot w
        \<and> po_output_store_hash out = w_expected_output_store_hash w
        \<and> (validate \<longrightarrow> slot < po_output_slot out \<and> po_output_slot out mod 32 = 0
              \<and> po_next_sync_committee_hash out \<noteq> 0))"

lemma execution_prepare_Ok:
  assumes "runtime_contract rt"
    and "execution_prepare_consensus_mpt_proof_inputs rt env lc mpt dbg proxy i o' bi bo inputs h
           = (t, Ok w)"
  shows "forget_storage (w_proof_inputs w) = inputs"
    and "\<exists>out. consensus_mpt_program lc mpt (w_proof_inputs w) dbg = Ok out"
    and "w_input_slot w = i" "w_expected_output_slot w = o'" "w_expected_output_store_hash w = h"
    and "w_input_block_number w = bi" "w_expected_output_block_number w = bo"
    and "\<exists>world w'. world \<in> insert (eh_principal_provider proxy) (set (eh_backup_providers proxy))
      \<and> prepare_mpt_proof_inputs_from env lc mpt dbg (eh_source_state_bridge_contract_address proxy)
          bi bo inputs world = Some (Ok (w_proof_inputs w), w')"
proof -
  let ?io = "prepare_mpt_proof_inputs_from env lc mpt dbg (eh_source_state_bridge_contract_address proxy) bi bo inputs"
  from assms(2) obtain pi where q: "query_with_fallback rt (eh_principal_provider proxy)
      (eh_backup_providers proxy) (future_of (clock env) ?io) (eh_validation_timeout proxy) = (t, Ok pi)"
    and w: "w_proof_inputs w = pi" "w_input_slot w = i" "w_expected_output_slot w = o'"
      "w_expected_output_store_hash w = h" "w_input_block_number w = bi" "w_expected_output_block_number w = bo"
    by (auto simp: execution_prepare_consensus_mpt_proof_inputs_def Let_def outcome_simps
        split: prod.splits)
  from tokio_runtime.fallback_answer [OF _ q] assms(1)
  obtain world w' where world:
    "world \<in> insert (eh_principal_provider proxy) (set (eh_backup_providers proxy))"
    "?io world = Some (Ok pi, w')"
    by (auto simp: tokio_runtime_iff outcome_simps)
  from world(2) show "forget_storage (w_proof_inputs w) = inputs"
    and "\<exists>out. consensus_mpt_program lc mpt (w_proof_inputs w) dbg = Ok out"
    by (auto elim: prepare_Ok simp: w)
  from world w show "\<exists>world w'. world \<in> insert (eh_principal_provider proxy) (set (eh_backup_providers proxy))
      \<and> ?io world = Some (Ok (w_proof_inputs w), w')"
    by blast
qed (use assms(2) in \<open>auto simp: execution_prepare_consensus_mpt_proof_inputs_def Let_def outcome_simps
        split: prod.splits\<close>)

lemma timed_Ok [outcome_simps]:
  "map_prod f (map_err g) x = (t, Ok w) \<longleftrightarrow> (\<exists>t'. x = (t', Ok w) \<and> t = f t')"
  by (cases x) (auto simp: map_err_Ok_iff)

lemma prepare_consensus_mpt_proof_inputs_Ok:
  assumes "prepare_consensus_mpt_proof_inputs pr proxy slot h v = (t, Ok w)"
  obtains t1 i o' inputs h' ein eout eproxy t2 where
    "multiplex (pr_consensus_runtime pr)
            (future_of (beacon_clock (pr_beacon pr))
               (prepare_validated (pr_env_var pr) (pr_light_client pr) (pr_beacon pr) slot h v))
            (ch_all_providers_urls proxy) (ch_validation_timeout proxy) = (t1, Ok (i, o', inputs, h'))"
    "execution (finalized_header (cpi_store inputs)) = Some ein"
    "execution (finality_finalized_header (cpi_finality_update inputs)) = Some eout"
    "execution_http_proxy_from_env (pr_env_var pr) (pr_connect pr) (pr_parse_address pr) = Ok eproxy"
    "execution_prepare_consensus_mpt_proof_inputs (pr_execution_runtime pr) (pr_exec pr)
       (pr_light_client pr) (pr_mpt pr) (pr_enable_debug pr) eproxy i o' (block_number ein)
       (block_number eout) inputs h' = (t2, Ok w)"
  using assms
  by (auto simp: prepare_consensus_mpt_proof_inputs_def Let_def outcome_simps
      execution_http_proxy_try_from_env_def split: prod.splits outcome.splits)

text \<open>The validated inputs come from one of the consensus providers.\<close>

lemma validated_by_some_provider:
  assumes "runtime_contract rt"
    and "multiplex rt (future_of clk io) urls d = (t, Ok r)"
  shows "\<exists>world \<in> set urls. \<exists>w'. io world = Some (Ok r, w')"
  using tokio_runtime.multiplex_answer [OF _ assms(2)] assms(1)
  by (auto simp: tokio_runtime_iff outcome_simps)

definition contracts_hold :: "('v, 'w, 'l, 'x, 'm) preparation \<Rightarrow> bool" where
  "contracts_hold pr \<longleftrightarrow>
     runtime_contract (pr_consensus_runtime pr) \<and> runtime_contract (pr_execution_runtime pr)"

lemma prepared_window_provable:
  assumes "contracts_hold pr"
    and "prepare_consensus_mpt_proof_inputs pr proxy slot h v = (t, Ok w)"
  shows "provable_window (pr_light_client pr) (pr_mpt pr) (pr_enable_debug pr) slot h v w"
proof -
  from assms(2) obtain t1 i o' inputs h' bi bo eproxy t2 where
    m: "multiplex (pr_consensus_runtime pr)
            (future_of (beacon_clock (pr_beacon pr))
               (prepare_validated (pr_env_var pr) (pr_light_client pr) (pr_beacon pr) slot h v))
            (ch_all_providers_urls proxy) (ch_validation_timeout proxy) = (t1, Ok (i, o', inputs, h'))"
    and e: "execution_prepare_consensus_mpt_proof_inputs (pr_execution_runtime pr) (pr_exec pr)
       (pr_light_client pr) (pr_mpt pr) (pr_enable_debug pr) eproxy i o' bi bo inputs h' = (t2, Ok w)"
    by (rule prepare_consensus_mpt_proof_inputs_Ok) blast
  from assms(1) validated_by_some_provider [OF _ m] obtain world w' where
    "prepare_validated (pr_env_var pr) (pr_light_client pr) (pr_beacon pr) slot h v world
       = Some (Ok (i, o', inputs, h'), w')"
    by (auto simp: contracts_hold_def)
  note validated = prepare_validated_Ok [OF this]
  from assms(1) have "runtime_contract (pr_execution_runtime pr)" by (simp add: contracts_hold_def)
  note prepared = execution_prepare_Ok [OF this e]
  from prepared(2) obtain out where
    out: "consensus_mpt_program (pr_light_client pr) (pr_mpt pr) (w_proof_inputs w) (pr_enable_debug pr) = Ok out"
    by blast
  then obtain co r where "consensus_program (pr_light_client pr) inputs = Ok co" "out = mpt_outputs co r"
    using prepared(1) by (auto simp: consensus_mpt_program_Ok)
  moreover from this(1) have "co_input_store_hash co = cpi_store_hash inputs"
    by (auto simp: consensus_program_Ok consensus_outputs_def)
  moreover from prepared(1) have "pi_store_hash (w_proof_inputs w) = cpi_store_hash inputs"
    by (auto simp: forget_storage_def)
  ultimately show ?thesis
    using out validated prepared(3-5)
    by (auto simp: provable_window_def mpt_outputs_def acceptable_def del: mod_0_imp_dvd)
qed

section \<open>The actor's preparer\<close>

text \<open>The actor builds its proxy from the environment for every job; without a configuration it panics.\<close>

definition prepare_from_env ::
  "('v, 'w, 'l, 'x, 'm) preparation \<Rightarrow> (prepare_error, 'x) preparer" where
  "prepare_from_env pr slot store_hash validate =
     and_then (consensus_http_proxy_try_from_env (pr_env_var pr) (pr_parse_url pr)) (\<lambda>proxy.
     snd (prepare_consensus_mpt_proof_inputs pr proxy slot store_hash validate))"

definition preparers ::
  "('v, 'w, 'l, 'x, 'm) preparation set \<Rightarrow> (prepare_error, 'x) preparer set" where
  "preparers PR = prepare_from_env ` {pr \<in> PR. contracts_hold pr}"

lemma preparers_provable:
  assumes "prepare \<in> preparers PR" and "prepare slot h v = Ok w"
  shows "\<exists>pr \<in> PR. provable_window (pr_light_client pr) (pr_mpt pr) (pr_enable_debug pr) slot h v w"
proof -
  from assms obtain pr proxy where "pr \<in> PR" "contracts_hold pr"
    "snd (prepare_consensus_mpt_proof_inputs pr proxy slot h v) = Ok w"
    by (auto simp: preparers_def prepare_from_env_def outcome_simps)
  then show ?thesis
    using prepared_window_provable [of pr proxy slot h v] by (metis prod.collapse)
qed

interpretation windows: window_preparer "preparers PR"
  for PR :: "('v, 'w, 'l, 'x, 'm) preparation set"
proof
  fix prepare slot h w
  assume "prepare \<in> preparers PR" and "prepare slot h True = Ok w"
  from preparers_provable [OF this] show "w_input_slot w = slot" and "slot < w_expected_output_slot w"
    by (auto simp: provable_window_def)
qed

section \<open>A concrete preparation\<close>

text \<open>
  One consensus provider that is at slot 64, asked from slot 32, and one execution provider.  A block
  root is its slot, and bootstrapping yields the store of that slot.
\<close>

definition demo_beacon_env :: "(nat, nat) beacon_env" where
  "demo_beacon_env =
     \<lparr>network_from_chain_id = (\<lambda>n. Ok (unat n)), to_base_config = (\<lambda>x. \<lparr>bc_genesis_root = 1, bc_forks = 0\<rparr>),
      default_store = demo_store 0,
      inner_bootstrap = (\<lambda>cfg checkpoint w. Some (Ok (demo_store (ucast checkpoint)), Suc w)),
      rpc_get_block = (\<lambda>slot w. Some (Ok (unat slot), Suc w)),
      rpc_get_finality_update =
        (\<lambda>w. Some (Ok \<lparr>finality_finalized_header = demo_header 64, finality_rest = 0\<rparr>, Suc w)),
      rpc_get_updates = (\<lambda>period n w. Some (Ok [demo_update], Suc w)),
      build_checkpoint_fallback = (\<lambda>t. Some (Ok 0, Suc t)),
      fetch_latest_checkpoint = (\<lambda>cf net t. Some (Ok 64, Suc t)),
      inner_expected_current_slot = (\<lambda>cfg w. 1000), calc_sync_period = (\<lambda>slot. slot div 8192),
      beacon_run_blocking = Suc, beacon_clock = id, beacon_wait = (\<lambda>t w. t)\<rparr>"

definition demo_config :: "nat client_config" where
  "demo_config =
     \<lparr>bc_genesis_root = 1, bc_forks = 0, strict_checkpoint_age = False, max_checkpoint_age = 604800\<rparr>"

definition demo_env_var :: "string \<rightharpoonup> string" where
  "demo_env_var =
     [''SOURCE_CHAIN_ID'' \<mapsto> ''1'', ''SOURCE_CONSENSUS_HTTP_RPCS'' \<mapsto> ''c'',
      ''SOURCE_EXECUTION_HTTP_RPCS'' \<mapsto> ''u'', ''TOKEN_BRIDGE_ADDRESS'' \<mapsto> ''3'']"

definition demo_preparation :: "(nat, nat, tokens_locked, nat, bytes) preparation" where
  "demo_preparation =
     \<lparr>pr_env_var = demo_env_var, pr_light_client = demo_light_client, pr_mpt = demo_mpt_env,
      pr_beacon = demo_beacon_env, pr_exec = demo_exec_env, pr_consensus_runtime = ideal_runtime,
      pr_execution_runtime = ideal_runtime, pr_parse_url = (\<lambda>u. Some 0), pr_connect = (\<lambda>u. Some 0),
      pr_parse_address = (\<lambda>s. Some (Address 3))\<rparr>"

definition demo_proxy :: "nat consensus_http_proxy" where
  "demo_proxy = \<lparr>ch_principal_provider_url = 0, ch_backup_providers_urls = [],
                 ch_all_providers_urls = [0], ch_validation_timeout = 300\<rparr>"

definition demo_prepared_window :: "nat proof_inputs_with_window" where
  "demo_prepared_window =
     \<lparr>w_input_slot = 32, w_expected_output_slot = 64, w_input_block_number = 1032,
      w_expected_output_block_number = 1064, w_proof_inputs = demo_proof_inputs,
      w_expected_output_store_hash = 64\<rparr>"

lemma demo_no_debug: "\<not> debug_enabled demo_env_var"
  by (simp add: debug_enabled_def demo_env_var_def)

lemmas demo_preparation_defs = demo_preparation_def pr_enable_debug_def demo_no_debug

lemma demo_chain_network: "chain_network demo_env_var demo_beacon_env = Ok 1"
  by (simp add: chain_network_def demo_env_var_def demo_beacon_env_def parse_u64_def digit_value_def Let_def)

lemma demo_client_new:
  "client_new demo_env_var demo_beacon_env
   = Ok \<lparr>cl_config = demo_config, cl_store = demo_store 0\<rparr>"
  by (simp add: client_new_def demo_chain_network) (simp add: demo_beacon_env_def demo_config_def)

lemma demo_bootstrap:
  "bootstrap_from_slot demo_env_var demo_light_client demo_beacon_env 32 w
   = Some (Ok \<lparr>cl_config = demo_config, cl_store = demo_store 32\<rparr>, Suc (Suc w))"
  by (simp add: bootstrap_from_slot_def bootstrap_from_checkpoint_def fetch_block_root_def demo_client_new
      io_bind_def io_of_def io_map_err_def b256_from_slice_def from_to_be_bytes)
    (simp add: demo_beacon_env_def demo_light_client_def io_bind_def io_of_def io_map_err_def)

lemma demo_synced:
  "synced_store demo_light_client \<lparr>cl_config = demo_config, cl_store = demo_store 32\<rparr>
     1000 32 demo_update [] = Ok (demo_store 32, [demo_update])"
  by (simp add: synced_store_Ok restored_from_def) (simp add: demo_defs demo_update_def)

lemma demo_prepare_consensus:
  "prepare_consensus_proof_inputs demo_env_var demo_light_client demo_beacon_env 32 32 w
   = Some (Ok demo_consensus_inputs, Suc (Suc (Suc (Suc w))))"
proof -
  have fetch: "get_latest_finality_update demo_beacon_env v
      = Some (Ok \<lparr>finality_finalized_header = demo_header 64, finality_rest = 0\<rparr>, Suc v)"
    "get_updates demo_beacon_env c v = Some (Ok [demo_update], Suc v)"
    "client_expected_current_slot demo_beacon_env c v = 1000" for v c
    by (simp_all add: client_expected_current_slot_def get_latest_finality_update_def get_updates_def io_map_err_def demo_beacon_env_def Let_def)
  show ?thesis
    by (simp add: prepare_consensus_proof_inputs_def io_bind_def demo_bootstrap fetch io_of_def demo_synced Let_def)
      (simp add: demo_consensus_inputs_def demo_inputs_def demo_config_def)
qed

lemma demo_validated:
  "prepare_validated demo_env_var demo_light_client demo_beacon_env 32 32 True w
   = Some (Ok (32, 64, demo_consensus_inputs, 64), Suc (Suc (Suc (Suc (Suc w)))))"
proof -
  have "run_and_validate demo_light_client True 32 demo_consensus_inputs = Ok (64, demo_consensus_inputs, 64)"
    by (simp add: run_and_validate_def demo_consensus_run) (simp add: demo_outputs_def)
  then show ?thesis
    by (simp add: prepare_validated_def io_bind_def demo_prepare_consensus spawn_blocking_def join_blocking_def
        io_of_def) (simp add: demo_beacon_env_def)
qed

lemma demo_proxy_from_env:
  "execution_http_proxy_from_env demo_env_var (\<lambda>u. Some 0) (\<lambda>s. Some (Address 3))
   = Ok \<lparr>eh_principal_provider = 0, eh_backup_providers = [],
         eh_source_state_bridge_contract_address = Address 3, eh_validation_timeout = 300\<rparr>"
  by (simp add: execution_http_proxy_from_env_def validation_timeout_from_def demo_env_var_def rpc_urls_def
      get_source_contract_address_def trim_def is_space_def List.map_filter_def Let_def)

lemma demo_preparation_runs:
  "prepare_consensus_mpt_proof_inputs demo_preparation demo_proxy 32 32 True = (8, Ok demo_prepared_window)"
proof -
  have "future_of (beacon_clock demo_beacon_env) (prepare_validated demo_env_var demo_light_client demo_beacon_env 32 32 True) 0
      = Completes 5 (Ok (32, 64, demo_consensus_inputs, 64))"
    by (simp add: future_of_def demo_validated) (simp add: demo_beacon_env_def)
  then have m: "multiplex ideal_runtime (future_of (beacon_clock demo_beacon_env)
      (prepare_validated demo_env_var demo_light_client demo_beacon_env 32 32 True)) [0] 300
      = (5, Ok (32, 64, demo_consensus_inputs, 64))"
    by (simp add: multiplex_def with_timeout_def ideal_runtime_def ideal_timeout_def)
  have "future_of (clock demo_exec_env) (prepare_mpt_proof_inputs_from demo_exec_env demo_light_client demo_mpt_env
      False (Address 3) 1032 1064 demo_consensus_inputs) 0 = Completes 3 (Ok demo_proof_inputs)"
    by (simp add: future_of_def demo_prepared) (simp add: demo_exec_env_def)
  then have e: "execution_prepare_consensus_mpt_proof_inputs ideal_runtime demo_exec_env demo_light_client demo_mpt_env
      False \<lparr>eh_principal_provider = 0, eh_backup_providers = [],
         eh_source_state_bridge_contract_address = Address 3, eh_validation_timeout = 300\<rparr> 32 64 1032 1064
         demo_consensus_inputs 64 = (3, Ok demo_prepared_window)"
    by (simp add: execution_prepare_consensus_mpt_proof_inputs_def query_with_fallback_def ideal_runtime_def
        ideal_timeout_def demo_prepared_window_def)
  have blocks: "execution (finalized_header (cpi_store demo_consensus_inputs)) = Some \<lparr>state_root = 0, block_number = 1032\<rparr>"
    "execution (finality_finalized_header (cpi_finality_update demo_consensus_inputs))
     = Some \<lparr>state_root = 0, block_number = 1064\<rparr>"
    by (simp_all add: demo_consensus_inputs_def demo_defs)
  show ?thesis
    by (simp add: prepare_consensus_mpt_proof_inputs_def demo_preparation_def demo_proxy_def m blocks
        execution_http_proxy_try_from_env_def demo_proxy_from_env e pr_enable_debug_def demo_no_debug)
qed

lemma demo_proxy_configured: "consensus_http_proxy_try_from_env demo_env_var (\<lambda>u. Some 0) = Ok demo_proxy"
  by (simp add: consensus_http_proxy_try_from_env_def consensus_http_proxy_from_env_def
      validation_timeout_from_def demo_env_var_def rpc_urls_def trim_def is_space_def List.map_filter_def
      demo_proxy_def Let_def)

lemma demo_prepare_from_env: "prepare_from_env demo_preparation 32 32 True = Ok demo_prepared_window"
  using demo_preparation_runs
  by (simp add: prepare_from_env_def demo_preparation_def demo_proxy_configured)

lemma demo_contracts_hold: "contracts_hold demo_preparation"
  by (simp add: contracts_hold_def demo_preparation_def ideal_runtime_contract)

section \<open>Properties\<close>

text \<open>C4: Every window the preparation returns is provable: the full transition, run on its inputs,
  succeeds with the output slot and output store hash the window announces, from the store hash that
  was asked for; with validation, the output slot is past the input slot and on an epoch boundary,
  and the sync committee of the result is known.\<close>

theorem prepared_windows_are_provable:
  assumes "contracts_hold pr"
    and "prepare_consensus_mpt_proof_inputs pr proxy slot h validate = (t, Ok w)"
  shows "w_input_slot w = slot \<and>
     (\<exists>out. consensus_mpt_program (pr_light_client pr) (pr_mpt pr) (w_proof_inputs w) (pr_enable_debug pr) = Ok out
        \<and> po_input_store_hash out = h
        \<and> po_output_slot out = w_expected_output_slot w
        \<and> po_output_store_hash out = w_expected_output_store_hash w
        \<and> (validate \<longrightarrow> slot < po_output_slot out \<and> po_output_slot out mod 32 = 0
              \<and> po_next_sync_committee_hash out \<noteq> 0))"
  using prepared_window_provable [OF assms] by (simp add: provable_window_def)

theorem prepared_windows_are_provable_witness:
  "\<exists>out. consensus_mpt_program demo_light_client demo_mpt_env demo_proof_inputs False = Ok out
     \<and> po_input_store_hash out = 32 \<and> po_output_slot out = 64 \<and> po_next_sync_committee_hash out \<noteq> 0"
  using prepared_windows_are_provable [OF demo_contracts_hold demo_preparation_runs]
  by (auto simp: demo_preparation_defs demo_prepared_window_def)

text \<open>C30: Prepared consensus inputs are the provider's answers in the order they were asked for: a bootstrap at
  the input slot, the latest finality update, and the updates from the period of that slot, the first of
  which was verified against the bootstrapped store.  If it lies before the input slot it is applied to
  the store and the inputs keep the other updates; if not, the inputs keep all updates, and the store
  takes only the next sync committee and the participant counts of applying it.\<close>

theorem consensus_inputs_start_from_bootstrapped_store:
  assumes "prepare_consensus_proof_inputs env_var lc env slot h w = Some (Ok inputs, w')"
  shows "\<exists>client w1 w2 first rest w3.
     bootstrap_from_slot env_var lc env slot w = Some (Ok client, w1)
     \<and> rpc_get_finality_update env w1 = Some (Ok (cpi_finality_update inputs), w2)
     \<and> rpc_get_updates env (calc_sync_period env (beacon_slot (finalized_header (cl_store client)))) 128 w2
         = Some (Ok (first # rest), w3)
     \<and> cpi_expected_current_slot inputs = inner_expected_current_slot env (cl_config client) w3
     \<and> cpi_genesis_root inputs = bc_genesis_root (cl_config client)
     \<and> cpi_forks inputs = bc_forks (cl_config client) \<and> cpi_store_hash inputs = h
     \<and> verify_update lc first (cpi_expected_current_slot inputs) (cl_store client)
          (cpi_genesis_root inputs) (cpi_forks inputs) = None
     \<and> (if beacon_slot (update_finalized_header first) < slot
        then cpi_store inputs = apply_update lc (cl_store client) first \<and> cpi_updates inputs = rest
        else cpi_store inputs = synced_by lc (cl_store client) first \<and> cpi_updates inputs = first # rest)"
proof -
  from assms obtain client wc fu wf u rest wu where p:
    "bootstrap_from_slot env_var lc env slot w = Some (Ok client, wc)"
    "rpc_get_finality_update env wc = Some (Ok fu, wf)"
    "get_updates env client wf = Some (Ok (u # rest), wu)"
    "synced_store lc client (cpi_expected_current_slot inputs) slot u rest
       = Ok (cpi_store inputs, cpi_updates inputs)"
    "cpi_expected_current_slot inputs = inner_expected_current_slot env (cl_config client) wu"
    "cpi_finality_update inputs = fu" "cpi_store_hash inputs = h"
    "cpi_genesis_root inputs = bc_genesis_root (cl_config client)"
    "cpi_forks inputs = bc_forks (cl_config client)"
    by (rule prepare_consensus_proof_inputs_Ok)
  then show ?thesis
    by (intro exI [of _ client] exI [of _ wc] exI [of _ wf] exI [of _ u] exI [of _ rest] exI [of _ wu])
      (simp add: synced_store_Ok restored_from_synced get_updates_Ok split: if_splits)
qed

theorem consensus_inputs_start_from_bootstrapped_store_witness:
  "\<exists>client w1 w2 first rest w3.
     bootstrap_from_slot demo_env_var demo_light_client demo_beacon_env 32 0 = Some (Ok client, w1)
     \<and> rpc_get_updates demo_beacon_env (calc_sync_period demo_beacon_env (beacon_slot (finalized_header (cl_store client)))) 128 w2
         = Some (Ok (first # rest), w3)
     \<and> (if beacon_slot (update_finalized_header first) < 32
        then demo_store 32 = apply_update demo_light_client (cl_store client) first \<and> [demo_update] = rest
        else demo_store 32 = synced_by demo_light_client (cl_store client) first \<and> [demo_update] = first # rest)"
proof -
  have "cpi_store demo_consensus_inputs = demo_store 32" "cpi_updates demo_consensus_inputs = [demo_update]"
    by (simp_all add: demo_consensus_inputs_def demo_inputs_def)
  with consensus_inputs_start_from_bootstrapped_store [OF demo_prepare_consensus [of 0]]
  show ?thesis by metis
qed

text \<open>The native validation accepts inputs exactly when the consensus transition succeeds on them and,
  when it is switched on, the output slot is greater than the input slot, a multiple of 32, and the
  next sync committee hash is not zero; it returns the outputs' slot and store hash.\<close>

theorem validation_characterised:
  "run_and_validate lc validate input_slot inputs = Ok (output_slot, inputs', output_hash) \<longleftrightarrow>
     (\<exists>out. consensus_program lc inputs = Ok out \<and> inputs' = inputs
        \<and> output_slot = co_output_slot out \<and> output_hash = co_output_store_hash out
        \<and> (if validate then input_slot < co_output_slot out \<and> co_output_slot out mod 32 = 0
                            \<and> co_next_sync_committee_hash out \<noteq> 0
           else True))"
  by (auto simp: run_and_validate_Ok acceptable_def del: mod_0_imp_dvd)

end
