(* ===== verification/Bridge_Chain.thy ===== *)
theory Bridge_Chain
  imports Consensus_Client
begin

text \<open>
  The detector together with what its providers prepare, and the bridge that applies the proofs: every
  emitted window runs natively to what it announces, and a bridge that moves only by proved windows
  stays on one verified history of light-client updates.
\<close>

section \<open>Emitted windows run as announced\<close>

text \<open>
  The detector's specification over an abstract preparer, combined with what the consensus client's
  preparer promises: each logged emission holds provable windows.
\<close>

lemma log_ok_emit: "log_ok Prep b es \<Longrightarrow> LogEmit d dual \<in> set es \<Longrightarrow> answers Prep (current_job d) dual"
  by (induction es arbitrary: b) auto

lemma answer_provable:
  assumes "answers (preparers PR) job dual"
  shows "\<exists>pr \<in> PR. provable_window (pr_light_client pr) (pr_mpt pr) (pr_enable_debug pr)
            (job_slot job) (job_store_hash job) True (current_window dual)"
    and "\<forall>nw \<in> set_option (next_window dual). \<exists>u pr. job_next_expected_output job = Some u \<and> pr \<in> PR
            \<and> provable_window (pr_light_client pr) (pr_mpt pr) (pr_enable_debug pr)
                (upd_slot u) (upd_store_hash u) True nw"
proof -
  from assms obtain prepare where prepare: "prepare \<in> preparers PR"
    and ok: "validate_and_prepare_job prepare job = Ok dual"
    by (auto simp: answers_def)
  from ok show "\<exists>pr \<in> PR. provable_window (pr_light_client pr) (pr_mpt pr) (pr_enable_debug pr)
            (job_slot job) (job_store_hash job) True (current_window dual)"
    by (intro preparers_provable [OF prepare]) (simp add: validate_and_prepare_job_Ok)
  from ok show "\<forall>nw \<in> set_option (next_window dual). \<exists>u pr. job_next_expected_output job = Some u \<and> pr \<in> PR
            \<and> provable_window (pr_light_client pr) (pr_mpt pr) (pr_enable_debug pr)
                (upd_slot u) (upd_store_hash u) True nw"
    using preparers_provable [OF prepare]
    by (fastforce simp: validate_and_prepare_job_Ok split: option.splits)
qed

lemma provable_window_consensus:
  assumes "provable_window lc mpt dbg slot h v w"
  shows "\<exists>co. consensus_program lc (forget_storage (w_proof_inputs w)) = Ok co \<and> co_input_store_hash co = h
     \<and> co_output_slot co = w_expected_output_slot w \<and> co_output_store_hash co = w_expected_output_store_hash w
     \<and> (v \<longrightarrow> slot < co_output_slot co)
     \<and> sha256_hash_helios_store lc (cpi_store (forget_storage (w_proof_inputs w))) = Ok h"
proof -
  from assms obtain out where out: "consensus_mpt_program lc mpt (w_proof_inputs w) dbg = Ok out"
    "po_input_store_hash out = h" "po_output_slot out = w_expected_output_slot w"
    "po_output_store_hash out = w_expected_output_store_hash w" "v \<longrightarrow> slot < po_output_slot out"
    by (auto simp: provable_window_def)
  then obtain co r where run: "consensus_program lc (forget_storage (w_proof_inputs w)) = Ok co" and co: "out = mpt_outputs co r"
    by (auto simp: consensus_mpt_program_Ok)
  from run have "sha256_hash_helios_store lc (cpi_store (forget_storage (w_proof_inputs w)))
      = Ok (cpi_store_hash (forget_storage (w_proof_inputs w)))"
    and "co_input_store_hash co = cpi_store_hash (forget_storage (w_proof_inputs w))"
    by (auto simp: consensus_program_Ok consensus_outputs_def reaches_def)
  with out run co show ?thesis by (auto simp: mpt_outputs_def)
qed

section \<open>A bridge driven by proofs\<close>

text \<open>
  What the bridge learns from a proof of a window: the slot and store hash the window announces.  The
  native run of a window that runs as announced has these as its outputs.
\<close>

definition announced :: "'x proof_inputs_with_window \<Rightarrow> detector_update" where
  "announced w = \<lparr>upd_slot = w_expected_output_slot w, upd_store_hash = w_expected_output_store_hash w\<rparr>"

definition runs_as_announced :: "'x light_client \<Rightarrow> 'x proof_inputs_with_window \<Rightarrow> bool" where
  "runs_as_announced lc w \<longleftrightarrow>
     (\<exists>co. consensus_program lc (forget_storage (w_proof_inputs w)) = Ok co
        \<and> co_input_store_hash co = pi_store_hash (w_proof_inputs w)
        \<and> announced w = \<lparr>upd_slot = co_output_slot co, upd_store_hash = co_output_store_hash co\<rparr>
        \<and> w_input_slot w < co_output_slot co)"

definition dual_windows :: "'x dual_proof_inputs_with_window \<Rightarrow> 'x proof_inputs_with_window list" where
  "dual_windows dual =
     current_window dual # (case next_window dual of Some nw \<Rightarrow> [nw] | None \<Rightarrow> [])"

fun emitted_windows :: "'x log_entry list \<Rightarrow> 'x proof_inputs_with_window list" where
  "emitted_windows [] = []"
| "emitted_windows (LogEmit d dual # es) = dual_windows dual @ emitted_windows es"
| "emitted_windows (LogAdvance u # es) = emitted_windows es"

text \<open>
  The rule of the bridge: an advancement applies a window that was emitted before and that starts at
  the head, in slot and store hash; the window may be one staged earlier.
\<close>

fun proof_driven :: "bridge \<Rightarrow> 'x proof_inputs_with_window list \<Rightarrow> 'x log_entry list \<Rightarrow> bool" where
  "proof_driven b seen [] \<longleftrightarrow> True"
| "proof_driven b seen (LogEmit d dual # es) \<longleftrightarrow>
     proof_driven (bridge_next b (LogEmit d dual)) (seen @ dual_windows dual) es"
| "proof_driven b seen (LogAdvance u # es) \<longleftrightarrow>
     list_ex (\<lambda>w. w_input_slot w = head_slot b \<and> pi_store_hash (w_proof_inputs w) = head_store_hash b
                  \<and> announced w = u) seen
     \<and> proof_driven (bridge_next b (LogAdvance u :: 'x log_entry)) seen es"

lemma provable_runs_as_announced:
  "provable_window lc mpt dbg slot h True w \<Longrightarrow> runs_as_announced lc w"
  using provable_window_consensus [of lc mpt dbg slot h True w]
  by (auto simp: runs_as_announced_def announced_def provable_window_def)

lemma set_dual_windows:
  "set (dual_windows dual) = insert (current_window dual) (set_option (next_window dual))"
  by (cases "next_window dual") (auto simp: dual_windows_def)

lemma answer_runs_as_announced:
  assumes "answers (preparers PR) job dual" and "\<forall>pr \<in> PR. pr_light_client pr = lc"
    and "w \<in> set (dual_windows dual)"
  shows "runs_as_announced lc w"
proof -
  from answer_provable [OF assms(1)] assms(3) obtain pr slot h where "pr \<in> PR"
    "provable_window (pr_light_client pr) (pr_mpt pr) (pr_enable_debug pr) slot h True w"
    unfolding set_dual_windows by blast
  with assms(2) show ?thesis by (auto intro: provable_runs_as_announced)
qed

lemma emitted_run_as_announced:
  assumes "log_ok (preparers PR) b es" and "\<forall>pr \<in> PR. pr_light_client pr = lc"
    and "w \<in> set (emitted_windows es)"
  shows "runs_as_announced lc w"
  using assms(1,3)
proof (induction es arbitrary: b)
  case (Cons e es)
  show ?case
  proof (cases e)
    case (LogEmit d dual)
    with Cons.prems have "answers (preparers PR) (current_job d) dual"
      "w \<in> set (dual_windows dual) \<or> w \<in> set (emitted_windows es)" by auto
    with LogEmit Cons.prems(1) show ?thesis
      by (auto intro: Cons.IH answer_runs_as_announced [OF _ assms(2)])
  qed (use Cons in auto)
qed simp

text \<open>Each advancement of a bridge that follows the rule is one run of the chain.\<close>

definition advances :: "'x log_entry list \<Rightarrow> detector_update list" where
  "advances es = List.map_filter (\<lambda>e. case e of LogAdvance u \<Rightarrow> Some u | LogEmit d dual \<Rightarrow> None) es"

lemma advances_simps [simp]:
  "advances [] = []" "advances (LogAdvance u # es) = u # advances es"
  "advances (LogEmit d dual # es) = advances es"
  by (simp_all add: advances_def List.map_filter_def)

text \<open>
  \<open>applied_runs\<close>: native runs on emitted windows, chained from the head of the bridge, one for each
  advancement and with its slot and hash as outputs, up to the head after the log.
\<close>

definition run_update :: "'x consensus_proof_inputs \<times> consensus_proof_outputs \<Rightarrow> detector_update" where
  "run_update run = \<lparr>upd_slot = co_output_slot (snd run), upd_store_hash = co_output_store_hash (snd run)\<rparr>"

definition applied_runs ::
  "'x light_client \<Rightarrow> bridge \<Rightarrow> 'x proof_inputs_with_window list \<Rightarrow> 'x log_entry list
   \<Rightarrow> ('x consensus_proof_inputs \<times> consensus_proof_outputs) list \<Rightarrow> bool" where
  "applied_runs lc b ws es runs \<longleftrightarrow>
     hash_chained lc (head_store_hash b) runs \<and> map run_update runs = advances es
     \<and> fst ` set runs \<subseteq> (forget_storage \<circ> w_proof_inputs) ` set ws
     \<and> final_hash (head_store_hash b) runs = head_store_hash (foldl bridge_next b es)
     \<and> final_slot (head_slot b) runs = head_slot (foldl bridge_next b es)
     \<and> sorted_wrt (<) (head_slot b # map (co_output_slot \<circ> snd) runs)"

lemma applied_runs_advance:
  assumes "applied_runs lc (bridge_next b (LogAdvance u :: 'x log_entry)) ws es runs" and "w \<in> set ws"
    and "runs_as_announced lc w" and "w_input_slot w = head_slot b"
    and "pi_store_hash (w_proof_inputs w) = head_store_hash b" and "announced w = u"
  shows "\<exists>run. applied_runs lc b ws (LogAdvance u # es) (run # runs)"
proof -
  from assms(3-6) obtain co where co: "consensus_program lc (forget_storage (w_proof_inputs w)) = Ok co"
    "co_input_store_hash co = head_store_hash b" "head_slot b < co_output_slot co"
    "u = \<lparr>upd_slot = co_output_slot co, upd_store_hash = co_output_store_hash co\<rparr>"
    by (auto simp: runs_as_announced_def)
  from co(3) have "head_slot b < n" if "co_output_slot co < n" for n using that by (rule less_trans)
  with assms(1,2) co have "applied_runs lc b ws (LogAdvance u # es) ((forget_storage (w_proof_inputs w), co) # runs)"
    by (auto simp: applied_runs_def run_update_def)
  then show ?thesis by blast
qed

lemma proof_driven_chain:
  assumes "proof_driven b seen es" and "\<forall>w \<in> set (seen @ emitted_windows es). runs_as_announced lc w"
  shows "\<exists>runs. applied_runs lc b (seen @ emitted_windows es) es runs"
  using assms
proof (induction b seen es rule: proof_driven.induct)
  case (1 b seen)
  show ?case by (intro exI [of _ "[]"]) (simp add: applied_runs_def)
next
  case (2 b seen d dual es)
  then show ?case by (simp add: applied_runs_def)
next
  case (3 b seen u es)
  then obtain w where w: "w \<in> set seen" "w_input_slot w = head_slot b"
    "pi_store_hash (w_proof_inputs w) = head_store_hash b" "announced w = u"
    by (auto simp: list_ex_iff)
  from 3 obtain runs where
    "applied_runs lc (bridge_next b (LogAdvance u :: 'a log_entry)) (seen @ emitted_windows es) es runs"
    by fastforce
  from applied_runs_advance [OF this _ _ w(2-4)] w(1) 3(3) show ?case by auto
qed

section \<open>A concrete pipeline\<close>

definition demo_prepared_dual :: "nat dual_proof_inputs_with_window" where
  "demo_prepared_dual = \<lparr>current_window = demo_prepared_window, next_window = None\<rparr>"

lemma demo_pipeline:
  "reachable (preparers {demo_preparation}) (detector_init 32 32 None)
     (demo_state (demo_detector 64) [] ActorIdle [] [] [LogEmit (demo_busy 32) demo_prepared_dual])"
proof -
  let ?prepare = "prepare_from_env demo_preparation"
  have member: "?prepare \<in> preparers {demo_preparation}"
    by (simp add: preparers_def demo_contracts_hold)
  have job: "validate_and_prepare_job ?prepare demo_job = Ok demo_prepared_dual"
    by (simp add: validate_and_prepare_job_def demo_job_def demo_prepare_from_env demo_prepared_dual_def)
  have slots: "output_slot_of demo_prepared_dual = 64" "w_input_slot (current_window demo_prepared_dual) = 32"
    "next_window demo_prepared_dual = None"
    by (simp_all add: demo_prepared_dual_def demo_prepared_window_def)
  show ?thesis
    using demo_round [OF demo_start member job] by (simp add: slots)
qed

definition demo_next_window :: "nat proof_inputs_with_window" where
  "demo_next_window =
     \<lparr>w_input_slot = 64, w_expected_output_slot = 96, w_input_block_number = 1064,
      w_expected_output_block_number = 1096,
      w_proof_inputs = assemble_proof_inputs (demo_inputs 64 96) (demo_proof [ss_key demo_slot]) [demo_slot],
      w_expected_output_store_hash = 96\<rparr>"

lemma demo_next_provable: "provable_window demo_light_client demo_mpt_env False 64 64 True demo_next_window"
proof -
  let ?i = "assemble_proof_inputs (demo_inputs 64 96) (demo_proof [ss_key demo_slot]) [demo_slot]"
  have storage: "pi_contract_storage ?i = demo_storage"
    by (simp add: assemble_proof_inputs_def demo_storage_def demo_proof_def)
  obtain r where "verify_storage_slot_proofs demo_mpt_env (co_execution_state_root (demo_outputs 64 96)) demo_storage = Ok r"
    using demo_storage_verified by blast
  then have "consensus_mpt_program demo_light_client demo_mpt_env ?i False = Ok (mpt_outputs (demo_outputs 64 96) r)"
    by (simp add: consensus_mpt_program_Ok demo_run storage)
  moreover have "pi_store_hash ?i = 64" by (simp add: assemble_proof_inputs_def demo_inputs_def)
  ultimately show ?thesis
    by (simp add: provable_window_def demo_next_window_def mpt_outputs_def) (simp add: demo_outputs_def)
qed

section \<open>Properties\<close>

text \<open>C2: A bridge that moves only by proofs of emitted windows stays on one history: whatever the providers
  answer and however events interleave, the native runs behind its advancements chain from the start,
  with strictly increasing slots, and the slot and store hash the detector tracks are those of a store
  reached from the start by light-client updates each of which is verified; unless a run was given a
  different store with the same hash.\<close>

theorem bridge_head_is_verified_history:
  assumes "reachable (preparers PR) (detector_init slot h nx) s" and "running s"
    and "\<forall>pr \<in> PR. pr_light_client pr = lc"
    and "sha256_hash_helios_store lc s0 = Ok h" and "beacon_slot (finalized_header s0) = slot"
    and "proof_driven \<lparr>base_slot = slot, head_slot = slot, head_store_hash = h\<rparr> [] (log s)"
  shows "\<exists>runs. hash_chained lc h runs \<and> map run_update runs = advances (log s)
    \<and> fst ` set runs \<subseteq> (forget_storage \<circ> w_proof_inputs) ` set (emitted_windows (log s))
    \<and> sorted_wrt (<) (slot # map (co_output_slot \<circ> snd) runs)
    \<and> (store_collision lc s0 runs \<or>
       (\<exists>sN. accepted lc s0 (run_log runs) sN
          \<and> sha256_hash_helios_store lc sN = Ok (d_store_hash (det s))
          \<and> beacon_slot (finalized_header sN) = d_slot (det s)))"
proof -
  let ?b = "\<lparr>base_slot = slot, head_slot = slot, head_store_hash = h\<rparr>"
  from reachable_log_inv [OF assms(1)] assms(2) have ok: "log_ok (preparers PR) ?b (log s)"
    and head: "d_slot (det s) = head_slot (foldl bridge_next ?b (log s))"
      "d_store_hash (det s) = head_store_hash (foldl bridge_next ?b (log s))"
    by (auto simp: log_inv_def tracks_def)
  from emitted_run_as_announced [OF ok assms(3)]
  have "\<forall>w \<in> set ([] @ emitted_windows (log s)). runs_as_announced lc w" by simp
  from proof_driven_chain [OF assms(6) this]
  obtain runs where runs: "applied_runs lc ?b (emitted_windows (log s)) (log s) runs" by auto
  then have "hash_chained lc h runs" by (simp add: applied_runs_def)
  from chained_runs_accepted [OF assms(4) this] runs head assms(5) show ?thesis
    by (intro exI [of _ runs]) (auto simp: applied_runs_def)
qed

lemma demo_advanced:
  "\<exists>s. reachable (preparers {demo_preparation}) (detector_init 32 32 None) s \<and> running s
     \<and> log s = [LogEmit (demo_busy 32) demo_prepared_dual, LogAdvance \<lparr>upd_slot = 64, upd_store_hash = 64\<rparr>]
     \<and> d_slot (det s) = 64 \<and> d_store_hash (det s) = 64"
proof -
  let ?u = "\<lparr>upd_slot = 64, upd_store_hash = 64\<rparr> :: detector_update"
  let ?s = "demo_state (demo_detector 64) [] ActorIdle [] [] [LogEmit (demo_busy 32) demo_prepared_dual]
    :: (prepare_error, nat) system"
  let ?t = "?s\<lparr>advance_queue := [?u]\<rparr>"
  have "system_step Prep ?s ?t" for Prep
    using send_advance [of ?s Prep ?u] by (simp add: demo_state_def CHANNEL_CAPACITY_def)
  moreover have "system_step Prep ?t (?t\<lparr>advance_queue := [], det := on_advance ?u (det ?t),
      log := log ?t @ [LogAdvance ?u]\<rparr>)" for Prep
    by (rule recv_advance) (simp_all add: demo_state_def)
  ultimately show ?thesis
    using reach_step [OF reach_step [OF demo_pipeline]] by (fastforce simp: demo_state_def)
qed

theorem bridge_head_is_verified_history_witness:
  "\<exists>runs. map run_update runs = [\<lparr>upd_slot = 64, upd_store_hash = 64\<rparr>]
    \<and> (store_collision demo_light_client (demo_store 32) runs \<or>
       (\<exists>sN. accepted demo_light_client (demo_store 32) (run_log runs) sN \<and> beacon_slot (finalized_header sN) = 64))"
proof -
  obtain s where s: "reachable (preparers {demo_preparation}) (detector_init 32 32 None) s" "running s"
    "log s = [LogEmit (demo_busy 32) demo_prepared_dual, LogAdvance \<lparr>upd_slot = 64, upd_store_hash = 64\<rparr>]"
    "d_slot (det s) = 64"
    using demo_advanced by blast
  have window: "provable_window demo_light_client demo_mpt_env False 32 32 True demo_prepared_window"
    using prepared_window_provable [OF demo_contracts_hold demo_preparation_runs] by (simp add: demo_preparation_defs)
  have driven: "proof_driven \<lparr>base_slot = 32, head_slot = 32, head_store_hash = 32\<rparr> [] (log s)"
    using window unfolding s(3)
    by (simp add: dual_windows_def demo_prepared_dual_def provable_window_def announced_def)
      (simp add: demo_prepared_window_def)
  have same: "\<forall>pr \<in> {demo_preparation}. pr_light_client pr = demo_light_client"
    and start: "sha256_hash_helios_store demo_light_client (demo_store 32) = Ok 32"
      "beacon_slot (finalized_header (demo_store 32)) = 32"
    by (simp_all add: demo_preparation_def demo_defs)
  from bridge_head_is_verified_history [OF s(1,2) same start driven] obtain runs
    where "map run_update runs = advances (log s)" "store_collision demo_light_client (demo_store 32) runs \<or>
       (\<exists>sN. accepted demo_light_client (demo_store 32) (run_log runs) sN \<and> beacon_slot (finalized_header sN) = 64)"
    unfolding s(4) by blast
  then show ?thesis unfolding s(3) advances_simps by (intro exI [of _ runs] conjI)
qed

end
