(* ===== verification/Detector_Spec.thy ===== *)
theory Detector_Spec
  imports Finality_Detector
begin

text \<open>
  An abstract specification of the finality detector, and the proof that the system of tasks, channels
  and scheduler choices implements it.  The monitor keeps the head of the bridge, the update staged
  behind it and how far it has emitted from that head; it has no jobs, no actor and no marks.  Both are
  observed at the channels the detector shares with the outside: the updates sent to it and the windows
  taken from it, in order.
\<close>

section \<open>What the outside observes\<close>

datatype 'x action =
    Staging_Sent detector_update
  | Advance_Sent detector_update
  | Output_Taken "'x dual_proof_inputs_with_window"

text \<open>A step is observed when it puts an update into a channel or takes a window out of one.\<close>

definition observed :: "('e, 'x) system \<Rightarrow> ('e, 'x) system \<Rightarrow> 'x action option" where
  "observed s t =
     (if length (stage_queue s) < length (stage_queue t) then Some (Staging_Sent (last (stage_queue t)))
      else if length (advance_queue s) < length (advance_queue t) then Some (Advance_Sent (last (advance_queue t)))
      else if length (output_queue t) < length (output_queue s) then Some (Output_Taken (hd (output_queue s)))
      else None)"

definition observed_step ::
  "('e, 'x) preparer set \<Rightarrow> ('e, 'x) system \<Rightarrow> 'x action option \<Rightarrow> ('e, 'x) system \<Rightarrow> bool" where
  "observed_step Prep s a t \<longleftrightarrow> system_step Prep s t \<and> a = observed s t"

section \<open>The monitor\<close>

record 'x monitor =
  mon_staging :: "detector_update list"
  mon_advancing :: "detector_update list"
  mon_bridge :: bridge
  mon_next :: "detector_update option"
  mon_output :: "'x dual_proof_inputs_with_window list"

text \<open>
  An update waits in its channel until the monitor reads it.  Reading an advancement moves the head to
  it; nothing else does.  An emission answers the job for the head and the staged update the monitor has
  at that moment, starts at the head, and both its windows end past the head and past everything emitted
  since the head last moved.
\<close>

inductive monitor_step ::
  "('e, 'x) preparer set \<Rightarrow> 'x monitor \<Rightarrow> 'x action option \<Rightarrow> 'x monitor \<Rightarrow> bool" for Prep where
  staging_sent: "length (mon_staging m) < CHANNEL_CAPACITY \<Longrightarrow>
    monitor_step Prep m (Some (Staging_Sent u)) (m\<lparr>mon_staging := mon_staging m @ [u]\<rparr>)"
| advance_sent: "length (mon_advancing m) < CHANNEL_CAPACITY \<Longrightarrow>
    monitor_step Prep m (Some (Advance_Sent u)) (m\<lparr>mon_advancing := mon_advancing m @ [u]\<rparr>)"
| stage: "mon_staging m = u # us \<Longrightarrow>
    monitor_step Prep m None (m\<lparr>mon_staging := us, mon_next := Some u\<rparr>)"
| advance: "mon_advancing m = u # us \<Longrightarrow>
    monitor_step Prep m None
      (m\<lparr>mon_advancing := us,
         mon_bridge := \<lparr>base_slot = upd_slot u, head_slot = upd_slot u, head_store_hash = upd_store_hash u\<rparr>,
         mon_next := filtered_next (upd_slot u) (mon_next m)\<rparr>)"
| emit: "length (mon_output m) < CHANNEL_CAPACITY \<Longrightarrow>
    answers Prep \<lparr>job_slot = head_slot (mon_bridge m), job_store_hash = head_store_hash (mon_bridge m),
                  job_next_expected_output = filtered_next (head_slot (mon_bridge m)) (mon_next m)\<rparr> dual \<Longrightarrow>
    w_input_slot (current_window dual) = head_slot (mon_bridge m) \<Longrightarrow>
    ahead (base_slot (mon_bridge m)) dual \<Longrightarrow>
    monitor_step Prep m None
      (m\<lparr>mon_bridge := (mon_bridge m)\<lparr>base_slot := output_slot_of dual\<rparr>,
         mon_output := mon_output m @ [dual]\<rparr>)"
| output_taken: "mon_output m = dual # duals \<Longrightarrow>
    monitor_step Prep m (Some (Output_Taken dual)) (m\<lparr>mon_output := duals\<rparr>)"

definition monitor_init :: "u64 \<Rightarrow> b256 \<Rightarrow> detector_update option \<Rightarrow> 'x monitor" where
  "monitor_init slot h nx =
     \<lparr>mon_staging = [], mon_advancing = [],
      mon_bridge = \<lparr>base_slot = slot, head_slot = slot, head_store_hash = h\<rparr>, mon_next = nx, mon_output = []\<rparr>"

section \<open>The abstraction\<close>

text \<open>
  The channels, the head and the staged update are those of the system; how far was emitted is read off
  the log, because the detector's latest slot may run ahead of it.
\<close>

definition monitor_of :: "bridge \<Rightarrow> ('e, 'x) system \<Rightarrow> 'x monitor" where
  "monitor_of b s =
     \<lparr>mon_staging = stage_queue s, mon_advancing = advance_queue s,
      mon_bridge = \<lparr>base_slot = base_slot (foldl bridge_next b (log s)),
                    head_slot = d_slot (det s), head_store_hash = d_store_hash (det s)\<rparr>,
      mon_next = d_next_expected_output (det s), mon_output = output_queue s\<rparr>"

definition detector_inv :: "('e, 'x) preparer set \<Rightarrow> bridge \<Rightarrow> ('e, 'x) system \<Rightarrow> bool" where
  "detector_inv Prep b s \<longleftrightarrow> (running s \<longrightarrow> single_flight s \<and> fresh Prep s) \<and> log_inv Prep b s"

lemma detector_inv_step:
  assumes "system_step Prep s t" and "detector_inv Prep b s"
  shows "detector_inv Prep b t"
proof -
  from step_from_running [OF assms(1)] assms(2)
  have s: "single_flight s" "fresh Prep s" "log_inv Prep b s"
    by (simp_all add: detector_inv_def)
  show ?thesis
    using single_flight_step [OF assms(1) s(1)] fresh_step [OF assms(1) s(1) _ s(2)] log_inv_step [OF assms(1) s]
    by (simp add: detector_inv_def)
qed

lemma react_output [simp]:
  "output_queue (react s (Continue d job out)) = output_queue s @ (case out of Some o' \<Rightarrow> [o'] | None \<Rightarrow> [])"
  "output_queue (react s Exit) = output_queue s" "det (react s Exit) = det s"
  by (simp_all add: react_def)

text \<open>The one step that matters: a fresh result that is ahead is an emission of the monitor.\<close>

lemma result_simulated:
  assumes "running s" and "result_queue s = r # rs" and "detector_inv Prep b s"
    and "reaction = on_result (actor s \<noteq> ActorStopped) (output_open s) r (det s)" and "reaction_fits s reaction"
  shows "(let t = react (s\<lparr>result_queue := rs\<rparr>) reaction
     in monitor_step Prep (monitor_of b s) None (monitor_of b t) \<or> monitor_of b t = monitor_of b s)"
proof (cases rule: on_result_cases [where job_open = "actor s \<noteq> ActorStopped" and out_open = "output_open s" and r = r and d = "det s"])
  case (emit dual)
  from assms(1-3) emit(1,2) have answer: "answers Prep (current_job (det s)) dual"
    by (auto simp: detector_inv_def fresh_def)
  from assms(1,3) have base: "base_slot (foldl bridge_next b (log s)) \<le> d_latest_slot (det s)"
    by (simp add: detector_inv_def log_inv_def tracks_def)
  from assms(4,5) emit(6) have room: "length (output_queue s) < CHANNEL_CAPACITY" by (simp add: reaction_fits_def)
  have "monitor_step Prep (monitor_of b s) None (monitor_of b s
      \<lparr>mon_bridge := (mon_bridge (monitor_of b s))\<lparr>base_slot := output_slot_of dual\<rparr>,
       mon_output := mon_output (monitor_of b s) @ [dual]\<rparr>)"
    using answer room emit(3) ahead_mono [OF base emit(4)]
    by (intro monitor_step.emit) (simp_all add: monitor_of_def current_job_def)
  with assms(4) emit(6) show ?thesis by (simp add: Let_def monitor_of_def)
qed (use assms(4) in \<open>simp_all add: Let_def monitor_of_def\<close>)

lemma system_step_simulated:
  assumes "system_step Prep s t" and "detector_inv Prep b s"
  shows "monitor_step Prep (monitor_of b s) (observed s t) (monitor_of b t)
    \<or> observed s t = None \<and> monitor_of b t = monitor_of b s"
  using assms
proof (induction rule: system_step.induct)
  case (send_stage s u)
  then show ?case using staging_sent [of "monitor_of b s" Prep u] by (simp add: observed_def monitor_of_def)
next
  case (send_advance s u)
  then show ?case using advance_sent [of "monitor_of b s" Prep u] by (simp add: observed_def monitor_of_def)
next
  case (recv_stage s u us)
  then show ?case using stage [of "monitor_of b s" u us Prep] by (simp add: observed_def monitor_of_def)
next
  case (recv_advance s u us)
  then show ?case using advance [of "monitor_of b s" u us Prep] by (simp add: observed_def monitor_of_def)
next
  case (recv_result s r rs reaction)
  have "observed s (react (s\<lparr>result_queue := rs\<rparr>) reaction) = None"
    by (cases reaction) (simp_all add: observed_def react_def)
  with result_simulated [OF recv_result(1,2) recv_result(5,3,4)] show ?case by (simp add: Let_def)
next
  case (tick s reaction)
  then show ?case by (auto simp: on_tick_eq observed_def monitor_of_def)
next
  case (take_output s o' os)
  then show ?case using output_taken [of "monitor_of b s" o' os Prep] by (simp add: observed_def monitor_of_def)
qed (simp_all add: observed_def monitor_of_def)

interpretation monitored: labelled_simulation "observed_step Prep" "monitor_step Prep" "detector_inv Prep b" "monitor_of b"
  for Prep :: "('e, 'x) preparer set" and b
  by unfold_locales (use detector_inv_step system_step_simulated in \<open>fastforce simp: observed_step_def\<close>)+

lemma detector_inv_init:
  "detector_inv Prep \<lparr>base_slot = slot, head_slot = slot, head_store_hash = h\<rparr> (system_init (detector_init slot h nx))"
  by (simp add: detector_inv_def single_flight_def pending_def working_def system_init_def detector_init_def
      fresh_def log_inv_def tracks_def)

lemma monitor_of_init:
  "monitor_of \<lparr>base_slot = slot, head_slot = slot, head_store_hash = h\<rparr> (system_init (detector_init slot h nx))
     = monitor_init slot h nx"
  by (simp add: monitor_of_def monitor_init_def system_init_def detector_init_def)

text \<open>Every reachable state is at the end of an observed run.\<close>

lemma reachable_observed: "steps Prep s t \<Longrightarrow> \<exists>tr. observes (observed_step Prep) s tr t"
  by (rule leads_to_observes) (auto simp: observed_step_def)

section \<open>Properties\<close>

text \<open>C5: The detector implements the monitor: whatever the interleaving of its tasks, channels, providers and
  the outside, the sequence of updates sent to it and windows taken from it is one the monitor allows
  from the start head, and the monitor ends with the same updates unread, the same windows untaken, the
  same head and staged update, having emitted no further than the detector's latest slot.\<close>

theorem detector_refines_monitor:
  assumes "observes (observed_step Prep) (system_init (detector_init slot h nx)) tr s"
  shows "\<exists>m. observes (monitor_step Prep) (monitor_init slot h nx) tr m
    \<and> mon_staging m = stage_queue s \<and> mon_advancing m = advance_queue s \<and> mon_output m = output_queue s
    \<and> mon_next m = d_next_expected_output (det s)
    \<and> head_slot (mon_bridge m) = d_slot (det s) \<and> head_store_hash (mon_bridge m) = d_store_hash (det s)
    \<and> (running s \<longrightarrow> base_slot (mon_bridge m) \<le> d_latest_slot (det s))"
proof -
  let ?b = "\<lparr>base_slot = slot, head_slot = slot, head_store_hash = h\<rparr>"
  from monitored.refines_traces [OF assms detector_inv_init]
  have "observes (monitor_step Prep) (monitor_init slot h nx) tr (monitor_of ?b s)" and "detector_inv Prep ?b s"
    by (simp_all add: monitor_of_init)
  then show ?thesis
    by (intro exI [of _ "monitor_of ?b s"]) (simp add: monitor_of_def detector_inv_def log_inv_def tracks_def)
qed

theorem detector_refines_monitor_witness:
  "\<exists>tr m. observes (monitor_step (range demo_prepare)) (monitor_init 32 32 None) tr m \<and> head_slot (mon_bridge m) = 32
     \<and> mon_output m = []"
proof -
  from reachable_observed [OF demo_two_rounds] obtain tr where
    "observes (observed_step (range demo_prepare)) (system_init (detector_init 32 32 None)) tr
       (demo_state (demo_detector 96) [] ActorIdle [] [] demo_log)" ..
  from detector_refines_monitor [OF this] show ?thesis by (auto simp: demo_state_def demo_detector_defs)
qed

end
