(* ===== verification/Release_Build.thy ===== *)
theory Release_Build
  imports Execution_Http
begin

text \<open>
  The event collection of \<open>golem-symbiotic-consensus-mpt/src/rpcs/execution/http.rs\<close> as the release
  profile compiles it: additions on \<open>u64\<close> wrap around instead of panicking.  A loop that then does
  not end is \<open>None\<close>, like a call that never completes.
\<close>

section \<open>The wrapping loop\<close>

partial_function (option) get_source_contract_events_wrapping ::
  "('w, 'l) exec_env \<Rightarrow> address \<Rightarrow> u64 \<Rightarrow> u64 \<Rightarrow> tokens_locked list
   \<Rightarrow> ('w, http_error, tokens_locked list) io" where
  "get_source_contract_events_wrapping env contract_address current_block end_block all_events w =
     (if current_block \<le> end_block then
        (let chunk_end = min (current_block + CHUNK_SIZE) end_block in
         case fetch_chunk_with_retries env contract_address current_block chunk_end 0 w of
           None \<Rightarrow> None
         | Some (Ok events, w') \<Rightarrow>
             get_source_contract_events_wrapping env contract_address (chunk_end + 1) end_block
               (all_events @ events) w'
         | Some (Err e, w') \<Rightarrow> Some (Err e, w')
         | Some (Panic, w') \<Rightarrow> Some (Panic, w'))
      else Some (Ok all_events, w))"

section \<open>Where both builds agree\<close>

lemma checked_add_in_range:
  "unat a + unat b < 2 ^ 64 \<Longrightarrow> (checked_add a b :: ('e, u64) outcome) = Ok (a + b)"
  by (simp add: checked_add_def)

lemma wrapping_agrees:
  "unat end_block + 100 < 2 ^ 64 \<Longrightarrow>
   get_source_contract_events_wrapping env a current end_block evs w
     = get_source_contract_events_from env a current end_block evs w"
proof (induction env a current end_block evs w rule: get_source_contract_events_from.induct)
  case (1 env a current end_block evs w)
  show ?case
  proof (cases "current \<le> end_block")
    case True
    then have "unat current \<le> unat end_block" by (simp add: word_le_nat_alt)
    with 1(2) have far: "(checked_add current CHUNK_SIZE :: (http_error, u64) outcome) = Ok (current + CHUNK_SIZE)"
      by (simp add: checked_add_def CHUNK_SIZE_def)
    have "unat (min (current + CHUNK_SIZE) end_block) \<le> unat end_block"
      by (simp add: word_le_nat_alt [symmetric])
    with 1(2) have nxt: "(checked_add (min (current + CHUNK_SIZE) end_block) 1 :: (http_error, u64) outcome)
        = Ok (min (current + CHUNK_SIZE) end_block + 1)"
      by (simp add: checked_add_def)
    note IH = 1(1) [OF True far refl _ _ _ nxt 1(2)]
    show ?thesis
      by (subst get_source_contract_events_wrapping.simps, subst get_source_contract_events_from.simps)
        (simp add: True far nxt Let_def IH split: option.split prod.split outcome.split)
  next
    case False
    then show ?thesis
      by (simp add: get_source_contract_events_wrapping.simps get_source_contract_events_from.simps)
  qed
qed

section \<open>The end of the range\<close>

text \<open>\<open>answers_logs\<close>: the provider answers every log query.\<close>

definition answers_logs :: "('w, 'l) exec_env \<Rightarrow> bool" where
  "answers_logs env \<longleftrightarrow>
     (\<forall>a sg s e w. case get_logs env a sg s e w of Some (Ok logs, w') \<Rightarrow> True | _ \<Rightarrow> False)"

lemma fetch_chunk_answers:
  assumes "answers_logs env"
  shows "\<exists>events w'. fetch_chunk_with_retries env a s e n w = Some (Ok events, w')"
proof -
  have "case get_logs env a (tokens_locked_signature env) s e w of Some (Ok logs, w') \<Rightarrow> True | _ \<Rightarrow> False"
    using assms unfolding answers_logs_def by blast
  then obtain logs w' where "get_logs env a (tokens_locked_signature env) s e w = Some (Ok logs, w')"
    by (auto split: option.splits prod.splits outcome.splits)
  then show ?thesis
    by (subst fetch_chunk_with_retries.simps)
      (simp add: get_source_contract_event_chunk_def io_bind_def io_map_err_def io_of_def)
qed

lemmas wrapping_induct =
  get_source_contract_events_wrapping.raw_induct [rotated, consumes 1, case_names step]

lemma wrapping_never_ends:
  assumes "get_source_contract_events_wrapping env a current end_block evs w = Some r" and "end_block = - 1"
  shows "fst r \<noteq> Ok events \<and> \<not> answers_logs env"
  using assms
proof (induction rule: wrapping_induct)
  case (step rec env a current end_block evs w r)
  let ?chunk_end = "min (current + CHUNK_SIZE) end_block"
  have "current \<le> end_block" by (simp add: step)
  note body = step(2) [unfolded if_P [OF this] Let_def]
  show ?case
  proof (cases "fetch_chunk_with_retries env a current ?chunk_end 0 w")
    case None
    with body show ?thesis by simp
  next
    case (Some res)
    obtain out w' where res: "res = (out, w')" by (cases res)
    have "answers_logs env \<Longrightarrow> \<exists>ev. out = Ok ev"
      using fetch_chunk_answers [of env a current ?chunk_end 0 w] Some res by auto
    with body Some res step(1,3) show ?thesis by (cases out) auto
  qed
qed

lemma checked_end_of_range:
  "get_source_contract_events_from env a current end_block evs w = Some (r, w') \<Longrightarrow> end_block = - 1
   \<Longrightarrow> r \<noteq> Ok events \<and> (answers_logs env \<longrightarrow> r = Panic)"
proof (induction env a current end_block evs w rule: get_source_contract_events_from.induct)
  case (1 env a current end_block evs w)
  have le: "current \<le> end_block" by (simp add: 1(3))
  note body = 1(2) [unfolded get_source_contract_events_from.simps [of env a current], unfolded if_P [OF le] Let_def]
  show ?case
  proof (cases "checked_add current CHUNK_SIZE :: (http_error, u64) outcome")
    case (Ok far)
    show ?thesis
    proof (cases "fetch_chunk_with_retries env a current (min far end_block) 0 w")
      case None
      with body Ok show ?thesis by simp
    next
      case (Some res)
      obtain out w1 where res: "res = (out, w1)" by (cases res)
      have "answers_logs env \<Longrightarrow> \<exists>ev. out = Ok ev"
        using fetch_chunk_answers [of env a current "min far end_block" 0 w] Some res by auto
      with body Ok Some res 1(1) [OF le Ok refl _ refl _ _ _ 1(3)] show ?thesis
        by (cases out) (auto split: outcome.splits)
    qed
  qed (use body in simp_all)
qed

section \<open>Properties\<close>

text \<open>C29: The two builds collect the same events over every range that ends at least a chunk before the end of
  the 64-bit range.  A range that ends at the last block number never yields events: the checked build
  panics at the overflow, and the wrapping build goes back to low block numbers and never returns,
  when every query is answered.\<close>

theorem release_build_agrees_below_end_of_range:
  "(unat end_block + 100 < 2 ^ 64 \<longrightarrow>
      get_source_contract_events_wrapping env a start_block end_block [] w
        = get_source_contract_events_of env a start_block end_block w)
   \<and> (end_block = - 1 \<longrightarrow>
      get_source_contract_events_of env a start_block end_block w \<noteq> Some (Ok events, w')
      \<and> get_source_contract_events_wrapping env a start_block end_block [] w \<noteq> Some (Ok events, w')
      \<and> (answers_logs env \<longrightarrow>
           (\<exists>w'. get_source_contract_events_of env a start_block end_block w = Some (Panic, w'))
           \<and> get_source_contract_events_wrapping env a start_block end_block [] w = None))"
proof -
  have "queries_complete env" if "answers_logs env"
    using that by (fastforce simp: answers_logs_def queries_complete_def split: option.splits)
  then obtain r w1 where "answers_logs env \<Longrightarrow>
      get_source_contract_events_from env a start_block end_block [] w = Some (r, w1)"
    using events_from_completes [of env a start_block end_block "[]" w] by fastforce
  then show ?thesis
    using wrapping_agrees [of end_block env a start_block "[]" w]
      wrapping_never_ends [of env a start_block end_block "[]" w _ events]
      checked_end_of_range [of env a start_block end_block "[]" w _ _ events]
    by (cases "get_source_contract_events_wrapping env a start_block end_block [] w")
      (auto simp: get_source_contract_events_of_def)
qed

theorem release_build_agrees_below_end_of_range_witness:
  "get_source_contract_events_wrapping demo_exec_env (Address 3) 1032 1064 [] 0
     = get_source_contract_events_of demo_exec_env (Address 3) 1032 1064 0
   \<and> get_source_contract_events_wrapping demo_exec_env (Address 3) 1032 (- 1) [] 0 = None"
proof -
  have "answers_logs demo_exec_env" by (simp add: answers_logs_def demo_exec_env_def)
  then show ?thesis
    using release_build_agrees_below_end_of_range [of 1064 demo_exec_env "Address 3" 1032 0]
      release_build_agrees_below_end_of_range [of "- 1" demo_exec_env "Address 3" 1032 0]
    by simp
qed

end
