(* ===== verification/Program_Builder.thy ===== *)
theory Program_Builder
  imports Prelude
begin

text \<open>
  The build scripts of the zk program (\<open>golem-symbiotic-consensus-mpt-program-builder/bin/make.rs\<close> and
  \<open>golem-symbiotic-consensus-mpt-program/bin/make.rs\<close>) and the path under which
  \<open>golem-symbiotic-consensus-mpt/src/api/sp1_prover.rs\<close> includes the built program.  The SP1 builder is
  external; an absolute path is the list of its components, which need not be UTF-8.
\<close>

section \<open>Paths\<close>

datatype path_component = Utf8 string | Not_Utf8 bytes

type_synonym path = "path_component list"

text \<open>\<open>Path::parent\<close>, \<open>Path::join\<close> with a single name, and \<open>Path::to_str\<close>.\<close>

definition parent :: "path \<Rightarrow> path option" where
  "parent p = (if p = [] then None else Some (butlast p))"

definition join :: "path \<Rightarrow> string \<Rightarrow> path" where
  "join p name = p @ [Utf8 name]"

fun components_str :: "path \<Rightarrow> string option" where
  "components_str [] = Some []"
| "components_str (Utf8 s # p) = map_option (\<lambda>r. ''/'' @ s @ r) (components_str p)"
| "components_str (Not_Utf8 bs # p) = None"

definition to_str :: "path \<Rightarrow> string option" where
  "to_str p = (if p = [] then Some ''/'' else components_str p)"

section \<open>The scripts\<close>

text \<open>The arguments the scripts set; \<open>'d\<close> stands for the fields that keep their defaults.\<close>

record 'd build_args =
  docker :: bool
  tag :: string
  output_directory :: "string option"
  build_defaults :: 'd

text \<open>The script of the builder crate: the program and its artefact are siblings of the current directory.\<close>

definition make_main ::
  "(string, path) outcome \<Rightarrow> (string \<Rightarrow> 'd build_args \<Rightarrow> ('e, unit) outcome) \<Rightarrow> 'd \<Rightarrow> ('e, unit) outcome" where
  "make_main current_dir build_program_with_args defaults =
     and_then (unwrap current_dir) (\<lambda>project_dir.
     and_then (expect (parent project_dir)) (\<lambda>cargo_dir.
     let golem_symbiotic_program_path = join cargo_dir ''golem-symbiotic-consensus-mpt-program'';
         golem_symbiotic_elf_dir = join cargo_dir ''golem-symbiotic-consensus-mpt-program-elf''
     in and_then (expect (to_str golem_symbiotic_program_path)) (\<lambda>program_path.
        and_then (expect (to_str golem_symbiotic_elf_dir)) (\<lambda>elf_dir.
        build_program_with_args program_path
          \<lparr>docker = True, tag = ''v5.0.0'', output_directory = Some elf_dir, build_defaults = defaults\<rparr>))))"

text \<open>The older script in the program crate uses paths relative to wherever it is run.\<close>

definition make_program_main ::
  "(string \<Rightarrow> 'd build_args \<Rightarrow> ('e, unit) outcome) \<Rightarrow> 'd \<Rightarrow> ('e, unit) outcome" where
  "make_program_main build_program_with_args defaults =
     build_program_with_args ''../''
       \<lparr>docker = True, tag = ''v4.1.3'',
        output_directory = Some ''../golem-symbiotic-consensus-mpt-program-elf'', build_defaults = defaults\<rparr>"

section \<open>The included artefact\<close>

text \<open>
  \<open>include_bytes!\<close> resolves its path from the directory of the source file; \<open>..\<close> goes to the parent.
\<close>

definition ELF_PATH :: "string list" where
  "ELF_PATH = [''..'', ''..'', ''..'', ''golem-symbiotic-consensus-mpt-program-elf'',
               ''golem-symbiotic-consensus-mpt-program'']"

fun resolve_from :: "path \<Rightarrow> string list \<Rightarrow> path option" where
  "resolve_from dir [] = Some dir"
| "resolve_from dir (c # cs) =
     (if c = ''..'' then (case parent dir of None \<Rightarrow> None | Some up \<Rightarrow> resolve_from up cs)
      else resolve_from (join dir c) cs)"

section \<open>What the scripts do\<close>

lemma components_str_append:
  "components_str (p @ q) = (case components_str p of None \<Rightarrow> None
     | Some s \<Rightarrow> map_option (\<lambda>t. s @ t) (components_str q))"
  by (induction p rule: components_str.induct; cases "components_str q") (auto split: option.splits)

lemma to_str_join: "to_str (join p name) = map_option (\<lambda>s. s @ ''/'' @ name) (components_str p)"
  by (auto simp: to_str_def join_def components_str_append split: option.splits)

text \<open>The script builds exactly when the current directory is known, not the root, and inside UTF-8 directories.\<close>

lemma make_main_builds:
  "make_main current_dir build defaults =
     (case current_dir of
        Ok dir \<Rightarrow>
          (case (if dir = [] then None else components_str (butlast dir)) of
             Some root \<Rightarrow> build (root @ ''/golem-symbiotic-consensus-mpt-program'')
               \<lparr>docker = True, tag = ''v5.0.0'',
                output_directory = Some (root @ ''/golem-symbiotic-consensus-mpt-program-elf''), build_defaults = defaults\<rparr>
           | None \<Rightarrow> Panic)
      | _ \<Rightarrow> Panic)"
  by (cases current_dir)
    (auto simp: make_main_def parent_def to_str_join Let_def expect_def unwrap_def split: option.splits)

text \<open>
  Built from the builder's directory, the artefact is written where the prover includes it from: a
  file named after the program crate in the directory the script passes.
\<close>

theorem artefact_is_included_from_where_it_is_built:
  assumes "api_dir = root @ map Utf8 [''golem-symbiotic-consensus-mpt'', ''src'', ''api'']"
    and "components_str root = Some root_str"
  shows "\<exists>elf. resolve_from api_dir ELF_PATH = Some elf
    \<and> to_str elf = Some (root_str @ ''/golem-symbiotic-consensus-mpt-program-elf/golem-symbiotic-consensus-mpt-program'')
    \<and> make_main (Ok (root @ [Utf8 ''golem-symbiotic-consensus-mpt-program-builder''])) build defaults
        = build (root_str @ ''/golem-symbiotic-consensus-mpt-program'')
            \<lparr>docker = True, tag = ''v5.0.0'',
             output_directory = Some (root_str @ ''/golem-symbiotic-consensus-mpt-program-elf''), build_defaults = defaults\<rparr>"
proof -
  let ?elf = "join (join root ''golem-symbiotic-consensus-mpt-program-elf'') ''golem-symbiotic-consensus-mpt-program''"
  have "resolve_from api_dir ELF_PATH = Some ?elf"
    by (simp add: assms(1) ELF_PATH_def parent_def join_def butlast_append)
  moreover have "to_str ?elf
      = Some (root_str @ ''/golem-symbiotic-consensus-mpt-program-elf/golem-symbiotic-consensus-mpt-program'')"
    by (simp add: to_str_join) (simp add: join_def components_str_append assms(2))
  ultimately show ?thesis by (simp add: make_main_builds assms(2))
qed

theorem artefact_is_included_from_where_it_is_built_witness:
  "make_main (Ok (map Utf8 [''repo'', ''golem-symbiotic-consensus-mpt-program-builder'']))
     (\<lambda>p args. if p = ''/repo/golem-symbiotic-consensus-mpt-program'' then Ok () else Err (tag args)) () = Ok ()"
proof -
  let ?build = "\<lambda>p args. if p = ''/repo/golem-symbiotic-consensus-mpt-program'' then Ok () else Err (tag args)"
  have str: "components_str [Utf8 ''repo''] = Some ''/repo''" by simp
  have "?build (''/repo'' @ ''/golem-symbiotic-consensus-mpt-program'') args = Ok ()" for args :: "unit build_args"
    by simp
  moreover have "map Utf8 [''repo'', ''golem-symbiotic-consensus-mpt-program-builder'']
      = [Utf8 ''repo''] @ [Utf8 ''golem-symbiotic-consensus-mpt-program-builder'']" by simp
  ultimately show ?thesis
    using artefact_is_included_from_where_it_is_built [OF refl str, of ?build "()"] by metis
qed

end
