(* ===== verification/Detector_Start.thy ===== *)
theory Detector_Start
  imports Consensus_Client
begin

text \<open>
  \<open>start_validated_consensus_finality_change_detector\<close> up to the spawned task: the polling interval
  from the environment, the first look at the chain, and the task's initial variables.  The task builds
  its timer itself, so an interval no timer can have ends the task and not the caller.
\<close>

section \<open>What a start depends on\<close>

text \<open>
  \<open>'f\<close> is \<open>f64\<close>: \<open>parse_f64\<close> reads one from text and \<open>duration_from_secs_f64\<close> is the
  conversion to a duration in nanoseconds, \<open>None\<close> where it panics (a negative number of seconds, one
  that is not finite or too large).
\<close>

record ('v, 'x, 'f) startup =
  st_env_var :: "string \<rightharpoonup> string"
  st_parse_url :: "string \<Rightarrow> 'v option"
  st_light_client :: "'x light_client"
  st_beacon :: "('v, 'x) beacon_env"
  st_head_runtime :: "(client_error, u64 \<times> b256) runtime"
  st_slot_runtime :: "(client_error, u64) runtime"
  parse_f64 :: "string \<Rightarrow> 'f option"
  duration_from_secs_f64 :: "'f \<Rightarrow> nat option"

definition DEFAULT_POLLING_INTERVAL :: string where
  "DEFAULT_POLLING_INTERVAL = ''10.0''"

definition polling_interval_sec :: "('v, 'x, 'f) startup \<Rightarrow> ('e, 'f) outcome" where
  "polling_interval_sec st =
     expect (parse_f64 st (case st_env_var st ''HELIOS_POLLING_INTERVAL'' of
                             Some v \<Rightarrow> v | None \<Rightarrow> DEFAULT_POLLING_INTERVAL))"

text \<open>\<open>interval\<close> panics on a period of zero.\<close>

definition tick_interval :: "('v, 'x, 'f) startup \<Rightarrow> 'f \<Rightarrow> ('e, nat) outcome" where
  "tick_interval st secs =
     and_then (expect (duration_from_secs_f64 st secs)) (\<lambda>period. if 0 < period then Ok period else Panic)"

section \<open>The start\<close>

text \<open>The spawned task at its first wait, or \<open>None\<close> when building its timer ended it.\<close>

definition detector_task ::
  "('v, 'x, 'f) startup \<Rightarrow> 'f \<Rightarrow> u64 \<Rightarrow> b256 \<Rightarrow> detector_update option \<Rightarrow> detector option" where
  "detector_task st secs slot store_hash pipeline_inflight_next_expected_output =
     (case (tick_interval st secs :: (unit, nat) outcome) of
        Ok period \<Rightarrow> Some (detector_init slot store_hash pipeline_inflight_next_expected_output)
      | _ \<Rightarrow> None)"

definition start_detector ::
  "('v, 'x, 'f) startup \<Rightarrow> u64 \<Rightarrow> b256 \<Rightarrow> detector_update option
   \<Rightarrow> ('e, u64 \<times> detector option) outcome" where
  "start_detector st slot store_hash pipeline_inflight_next_expected_output =
     and_then (polling_interval_sec st) (\<lambda>secs.
     and_then (consensus_http_proxy_try_from_env (st_env_var st) (st_parse_url st)) (\<lambda>proxy.
     and_then (unwrap (snd (get_latest_finality_slot (st_slot_runtime st) (st_env_var st) (st_beacon st) proxy)))
       (\<lambda>init_latest_beacon_slot.
     Ok (init_latest_beacon_slot,
         detector_task st secs slot store_hash pipeline_inflight_next_expected_output))))"

section \<open>What a start guarantees\<close>

lemma detector_task_cases:
  "detector_task st secs slot h nx =
     (if \<exists>period > 0. duration_from_secs_f64 st secs = Some period then Some (detector_init slot h nx) else None)"
  by (cases "duration_from_secs_f64 st secs") (auto simp: detector_task_def tick_interval_def)

lemma start_detector_Ok [guard_simps]:
  "start_detector st slot h nx = Ok (init, task) \<longleftrightarrow>
     (\<exists>secs proxy. (polling_interval_sec st :: (unit, _) outcome) = Ok secs
        \<and> consensus_http_proxy_from_env (st_env_var st) (st_parse_url st) = Ok proxy
        \<and> snd (get_latest_finality_slot (st_slot_runtime st) (st_env_var st) (st_beacon st) proxy) = Ok init
        \<and> task = detector_task st secs slot h nx)"
  by (auto simp: start_detector_def outcome_simps consensus_http_proxy_try_from_env_def
      polling_interval_sec_def)

text \<open>The first look at the chain is an answer of a provider's own latest finality update.\<close>

lemma latest_slot_from_provider:
  assumes "runtime_contract rt" and "get_latest_finality_slot rt env_var env proxy = (t, Ok slot)"
  shows "\<exists>world \<in> set (ch_all_providers_urls proxy). \<exists>w fu w'.
    rpc_get_finality_update env w = Some (Ok fu, w') \<and> slot = beacon_slot (finality_finalized_header fu)"
proof -
  from validated_by_some_provider [OF assms(1) assms(2) [unfolded get_latest_finality_slot_def]]
  obtain world w' where "world \<in> set (ch_all_providers_urls proxy)"
    "(io_bind (meanwhile env (get_latest_checkpoint env_var env)) (\<lambda>checkpoint.
           io_bind (bootstrap_from_checkpoint env_var env checkpoint) (\<lambda>client.
           client_get_latest_finality_slot env))) world = Some (Ok slot, w')"
    by blast
  then show ?thesis
    by (auto simp: outcome_simps client_get_latest_finality_slot_def get_latest_finality_update_def)
qed

text \<open>The configured proxy asks every URL it keeps, the first of them as the principal.\<close>

lemma configured_proxy:
  assumes "consensus_http_proxy_from_env env_var parse_url = Ok proxy"
  shows "ch_all_providers_urls proxy = ch_principal_provider_url proxy # ch_backup_providers_urls proxy"
    and "\<exists>s. env_var ''SOURCE_CONSENSUS_HTTP_RPCS'' = Some s \<and> ch_all_providers_urls proxy = rpc_urls parse_url s"
  using assms
  by (auto simp: consensus_http_proxy_from_env_def outcome_simps Let_def neq_Nil_conv split: list.splits)

text \<open>
  The head the program starts from: a client is bootstrapped at the principal provider from the latest
  checkpoint of the checkpoint services, and the first update of its period, verified against its
  store, lends the store its next sync committee and participant counts; the head is the store's slot
  and the hash of what results.
\<close>

definition cold_start_head ::
  "(string \<rightharpoonup> string) \<Rightarrow> 'x light_client \<Rightarrow> ('w, 'x) beacon_env \<Rightarrow> 'w \<Rightarrow> u64 \<Rightarrow> b256 \<Rightarrow> 'x lc_store \<Rightarrow> 'x lc_update
   \<Rightarrow> bool" where
  "cold_start_head env_var lc env w slot h bootstrapped first \<longleftrightarrow>
     (\<exists>checkpoint t client w1 rest w2.
        get_latest_checkpoint env_var env (beacon_clock env w) = Some (Ok checkpoint, t)
        \<and> bootstrap_from_checkpoint env_var env checkpoint (beacon_wait env t w) = Some (Ok client, w1)
        \<and> cl_store client = bootstrapped \<and> slot = beacon_slot (finalized_header bootstrapped)
        \<and> rpc_get_updates env (calc_sync_period env slot) 1 w1 = Some (Ok (first # rest), w2)
        \<and> verify_update lc first (inner_expected_current_slot env (cl_config client) w2) bootstrapped
             (bc_genesis_root (cl_config client)) (bc_forks (cl_config client)) = None
        \<and> sha256_hash_helios_store lc (synced_by lc bootstrapped first) = Ok h)"

lemma get_first_update_Ok [outcome_simps]:
  "get_first_update env client w = Some (Ok u, w') \<longleftrightarrow>
     (\<exists>us. rpc_get_updates env (calc_sync_period env (get_current_finalizer_header_beacon_slot client)) 1 w
             = Some (Ok (u # us), w'))"
  by (auto simp: get_first_update_def Let_def outcome_simps neq_Nil_conv split: list.splits)

lemma client_head_Ok:
  "client_get_latest_finality_slot_and_store_hash env_var lc env w = Some (Ok (slot, h), w') \<Longrightarrow>
     \<exists>s u. cold_start_head env_var lc env w slot h s u"
  by (fastforce simp: client_get_latest_finality_slot_and_store_hash_def Let_def outcome_simps cold_start_head_def
      store_with_next_sync_committee_Ok restored_from_synced get_current_finalizer_header_beacon_slot_def)

lemma latest_head_from_principal:
  assumes "runtime_contract rt"
    and "get_latest_finality_slot_and_store_hash rt env_var lc env proxy = (t, Ok (slot, h))"
  shows "\<exists>s u. cold_start_head env_var lc env (ch_principal_provider_url proxy) slot h s u"
proof -
  from tokio_runtime.fallback_answer [OF _ assms(2) [unfolded get_latest_finality_slot_and_store_hash_def]]
    assms(1)
  obtain w' where "client_get_latest_finality_slot_and_store_hash env_var lc env
      (ch_principal_provider_url proxy) = Some (Ok (slot, h), w')"
    by (auto simp: tokio_runtime_iff outcome_simps)
  then show ?thesis by (rule client_head_Ok)
qed

end
