(* ===== verification/Event_Loop.thy ===== *)
theory Event_Loop
  imports Detector_Start
begin

text \<open>
  \<open>golem-symbiotic-consensus-mpt/src/api/event_loop.rs\<close> and \<open>sp1_prover.rs\<close>: the prover jobs of the
  bridge, from staging a prepared window over a worker that proves it to handling its result.  The
  state of the loop is explicit; a handler that fails after a change returns the changed state with
  the failure.  The step relation adds the workers and the job channel.
\<close>

section \<open>Jobs, results and the prover\<close>

record 'x prover_job =
  pj_inputs_with_window :: "'x proof_inputs_with_window"
  pj_start_instant :: nat

record 'p prover_job_output =
  pjo_job_id :: u64
  pjo_input_head :: u64
  pjo_proof :: 'p

datatype job_failure = EncodingFailed string | ProvingFailed string | ProverJoinError

text \<open>What is to be sent of a finished proof; nothing builds one yet.  \<open>'f\<close> is \<open>f64\<close>.\<close>

record ('p, 'f) proof_message =
  pm_input_slot :: u64
  pm_input_block_number :: u64
  pm_input_store_hash :: b256
  pm_output_slot :: u64
  pm_output_block_number :: u64
  pm_output_store_hash :: b256
  pm_proof :: 'p
  pm_execution_state_root :: b256
  pm_contract_storage_slots :: "verified_contract_storage_slot list"
  pm_elapsed_sec :: 'f

record prover_job_error =
  pje_job_id :: u64
  pje_error :: job_failure

text \<open>
  \<open>serde_cbor\<close>, the SP1 SDK (key setup, proving, the public values of a proof) and \<open>serde_json\<close> are
  external; \<open>'k\<close> is a proving key, \<open>'p\<close> a proof with public values.
\<close>

record ('x, 'k, 'p) prover_env =
  cbor_to_vec :: "'x proof_inputs \<Rightarrow> (string, bytes) outcome"
  setup_elf :: "'k option" \<comment> \<open>the proving key of the program; \<open>None\<close>: the setup panics\<close>
  prove_plonk :: "'k \<Rightarrow> bytes \<Rightarrow> (string, 'p) outcome"
  public_values :: "'p \<Rightarrow> bytes"
  json_to_string :: "proof_outputs \<Rightarrow> string option"

datatype success_error = OutputsUndecodable decode_error | OutputsNotSerialized

text \<open>
  The proving key is kept in a cell that is written once, by the first job that gets that far; a setup
  that panics leaves it empty.
\<close>

definition get_proving_key :: "('x, 'k, 'p) prover_env \<Rightarrow> 'k option \<Rightarrow> ('e, 'k) outcome \<times> 'k option" where
  "get_proving_key env cell =
     (case cell of
        Some pk \<Rightarrow> (Ok pk, Some pk)
      | None \<Rightarrow> (expect (setup_elf env), setup_elf env))"

text \<open>
  The work of one job.  Proving runs on a blocking thread, so a panic of the prover is a join error;
  a panic of the key setup is a panic of the worker.
\<close>

definition finality_update_job ::
  "('x, 'k, 'p) prover_env \<Rightarrow> 'k option \<Rightarrow> u64 \<Rightarrow> u64 \<Rightarrow> 'x proof_inputs
   \<Rightarrow> (job_failure, 'p prover_job_output) outcome \<times> 'k option" where
  "finality_update_job env cell job_id input_head inputs =
     (case map_err EncodingFailed (cbor_to_vec env inputs) of
        Ok encoded_proof_inputs \<Rightarrow>
          (let (pk, cell) = get_proving_key env cell
           in (and_then pk (\<lambda>pk.
               and_then (join_blocking ProverJoinError ProvingFailed (prove_plonk env pk encoded_proof_inputs))
                 (\<lambda>proof.
               Ok \<lparr>pjo_job_id = job_id, pjo_input_head = input_head, pjo_proof = proof\<rparr>)), cell))
      | Err e \<Rightarrow> (Err e, cell)
      | Panic \<Rightarrow> (Panic, cell))"

section \<open>The event loop\<close>

text \<open>
  The fields of \<open>EventLoop\<close>.  A channel end that is held in an \<open>Option\<close> is a flag: whether it is
  there.
\<close>

record 'x event_loop =
  el_current_slot :: u64
  el_output_rx :: bool
  el_advance_tx :: bool
  el_stage_tx :: bool
  el_job_id :: u64
  el_prover_jobs :: "u64 \<rightharpoonup> 'x prover_job"
  el_job_rx :: bool
  el_store_hash :: b256

definition new_event_loop :: "u64 \<Rightarrow> b256 \<Rightarrow> 'x event_loop" where
  "new_event_loop current_slot store_hash =
     \<lparr>el_current_slot = current_slot, el_output_rx = True, el_advance_tx = True, el_stage_tx = True,
      el_job_id = 0, el_prover_jobs = Map.empty, el_job_rx = True, el_store_hash = store_hash\<rparr>"

text \<open>The loop and the detector task it started.\<close>

definition event_loop_new :: "('v, 'x, 'f) startup \<Rightarrow> ('e, 'x event_loop \<times> detector option) outcome" where
  "event_loop_new st =
     and_then (consensus_http_proxy_try_from_env (st_env_var st) (st_parse_url st)) (\<lambda>proxy.
     and_then (unwrap (snd (get_latest_finality_slot_and_store_hash (st_head_runtime st) (st_env_var st)
                              (st_light_client st) (st_beacon st) proxy))) (\<lambda>(current_slot, store_hash).
     and_then (start_detector st current_slot store_hash None) (\<lambda>(init_latest_beacon_slot, task).
     Ok (new_event_loop current_slot store_hash, task))))"

text \<open>\<open>run\<close> first takes its channel ends; a second \<open>run\<close> would panic.\<close>

definition run_start :: "'x event_loop \<Rightarrow> ('e, 'x event_loop) outcome" where
  "run_start el =
     (if el_output_rx el \<and> el_advance_tx el \<and> el_job_rx el
      then Ok (el\<lparr>el_output_rx := False, el_advance_tx := False, el_job_rx := False\<rparr>) else Panic)"

text \<open>What a worker is spawned with: its job id, the input head and the inputs.\<close>

record 'x worker =
  wk_job_id :: u64
  wk_input_head :: u64
  wk_inputs :: "'x proof_inputs"

definition stage_transition_proof ::
  "nat \<Rightarrow> 'x proof_inputs_with_window \<Rightarrow> 'x event_loop
   \<Rightarrow> ('e, 'x event_loop \<times> 'x worker \<times> detector_update option) outcome" where
  "stage_transition_proof now w el =
     and_then (checked_add (el_job_id el) 1) (\<lambda>job_id.
     let el = el\<lparr>el_job_id := job_id\<rparr>;
         el = el\<lparr>el_prover_jobs := (el_prover_jobs el)(job_id \<mapsto>
                \<lparr>pj_inputs_with_window = w, pj_start_instant = now\<rparr>)\<rparr>;
         job = \<lparr>wk_job_id = job_id, wk_input_head = el_current_slot el, wk_inputs = w_proof_inputs w\<rparr>;
         staged = \<lparr>upd_slot = w_expected_output_slot w, upd_store_hash = w_expected_output_store_hash w\<rparr>
     in Ok (el, job, if el_stage_tx el then Some staged else None))"

definition verified_contract_storage_slots ::
  "'x proof_inputs_with_window \<Rightarrow> verified_contract_storage_slot list" where
  "verified_contract_storage_slots w =
     map (\<lambda>slot. \<lparr>vs_slot_key_address = ss_slot_key_address slot, vs_value = ss_expected_value slot\<rparr>)
       (cs_storage_slots (pi_contract_storage (w_proof_inputs w)))"

text \<open>
  The slots are built and dropped, as in the code.  The job is removed before its result is parsed.
\<close>

definition handle_prover_success ::
  "('x, 'k, 'p) prover_env \<Rightarrow> u64 \<Rightarrow> 'p \<Rightarrow> 'x event_loop \<Rightarrow> 'x event_loop \<times> (success_error, unit) outcome"
where
  "handle_prover_success env job_id proof el =
     (case el_prover_jobs el job_id of
        None \<Rightarrow> (el, Panic)
      | Some job \<Rightarrow>
          let inputs_with_window = pj_inputs_with_window job;
              el = el\<lparr>el_prover_jobs := (el_prover_jobs el)(job_id := None)\<rparr>
          in (el, and_then (map_err OutputsUndecodable
                            (proof_outputs_from_bytes (public_values env proof))) (\<lambda>proof_outputs.
                  and_then (ok_or OutputsNotSerialized (json_to_string env proof_outputs)) (\<lambda>_.
                  let contract_storage_slots = verified_contract_storage_slots inputs_with_window
                  in Ok ()))))"

definition handle_prover_failure ::
  "prover_job_error \<Rightarrow> 'x event_loop \<Rightarrow> 'x event_loop \<times> (success_error, unit) outcome" where
  "handle_prover_failure err el =
     (case el_prover_jobs el (pje_job_id err) of
        None \<Rightarrow> (el, Panic)
      | Some job \<Rightarrow> (el\<lparr>el_prover_jobs := (el_prover_jobs el)(pje_job_id err := None)\<rparr>, Ok ()))"

text \<open>The arms of \<open>run\<close>.  The arm of a finality event is empty; a failed handler exits the process.\<close>

datatype loop_status = Looping | Exited | Panicked

definition on_finality_event :: "'x dual_proof_inputs_with_window \<Rightarrow> 'x event_loop \<Rightarrow> 'x event_loop" where
  "on_finality_event event el = el"

definition on_job_result ::
  "('x, 'k, 'p) prover_env \<Rightarrow> (prover_job_error, 'p prover_job_output) outcome \<Rightarrow> 'x event_loop
   \<Rightarrow> 'x event_loop \<times> loop_status" where
  "on_job_result env job_result el =
     (case job_result of
        Ok result_data \<Rightarrow>
          (case handle_prover_success env (pjo_job_id result_data) (pjo_proof result_data) el of
             (el, Ok _) \<Rightarrow> (el, Looping)
           | (el, Err _) \<Rightarrow> (el, Exited)
           | (el, Panic) \<Rightarrow> (el, Panicked))
      | Err err \<Rightarrow>
          (case handle_prover_failure err el of
             (el, Panic) \<Rightarrow> (el, Panicked)
           | (el, _) \<Rightarrow> (el, Looping))
      | Panic \<Rightarrow> (el, Panicked))"

section \<open>The loop with its workers\<close>

record ('x, 'k, 'p) loop_system =
  ls_loop :: "'x event_loop"
  ls_workers :: "'x worker list"
  ls_results :: "(prover_job_error, 'p prover_job_output) outcome list"
  ls_proving_key :: "'k option"
  ls_staged :: "detector_update list" \<comment> \<open>everything sent to the detector, the latest last\<close>
  ls_status :: loop_status

definition loop_init :: "'x event_loop \<Rightarrow> ('x, 'k, 'p) loop_system" where
  "loop_init el = \<lparr>ls_loop = el, ls_workers = [], ls_results = [], ls_proving_key = None, ls_staged = [],
                   ls_status = Looping\<rparr>"

text \<open>What a worker sends when its job ends; a worker that panics sends nothing.\<close>

definition worker_result ::
  "('x, 'k, 'p) prover_env \<Rightarrow> 'k option \<Rightarrow> 'x worker
   \<Rightarrow> (prover_job_error, 'p prover_job_output) outcome \<times> 'k option" where
  "worker_result env cell wk =
     map_prod (map_err (\<lambda>e. \<lparr>pje_job_id = wk_job_id wk, pje_error = e\<rparr>)) id
       (finality_update_job env cell (wk_job_id wk) (wk_input_head wk) (wk_inputs wk))"

text \<open>
  Steps of the loop and its workers.  Each worker runs in its own environment \<open>env \<in> Envs\<close>: which
  proof a prover returns may change from job to job.  \<open>stage\<close> is a call of
  \<open>stage_transition_proof\<close>, which \<open>run\<close> itself never makes.
\<close>

inductive run_step ::
  "('x, 'k, 'p) prover_env set \<Rightarrow> ('x, 'k, 'p) loop_system \<Rightarrow> ('x, 'k, 'p) loop_system \<Rightarrow> bool" for Envs where
  finality_event: "ls_status s = Looping \<Longrightarrow>
    run_step Envs s (s\<lparr>ls_loop := on_finality_event ev (ls_loop s)\<rparr>)"
| worker_done: "ls_status s = Looping \<Longrightarrow> ls_workers s = ws @ wk # ws' \<Longrightarrow> env \<in> Envs \<Longrightarrow>
    worker_result env (ls_proving_key s) wk = (r, cell) \<Longrightarrow> r \<noteq> Panic \<Longrightarrow>
    run_step Envs s (s\<lparr>ls_workers := ws @ ws', ls_results := ls_results s @ [r], ls_proving_key := cell\<rparr>)"
| worker_panic: "ls_status s = Looping \<Longrightarrow> ls_workers s = ws @ wk # ws' \<Longrightarrow> env \<in> Envs \<Longrightarrow>
    worker_result env (ls_proving_key s) wk = (Panic, cell) \<Longrightarrow>
    run_step Envs s (s\<lparr>ls_workers := ws @ ws', ls_proving_key := cell\<rparr>)"
| recv_job_result: "ls_status s = Looping \<Longrightarrow> ls_results s = r # rs \<Longrightarrow> env \<in> Envs \<Longrightarrow>
    on_job_result env r (ls_loop s) = (el, st) \<Longrightarrow>
    run_step Envs s (s\<lparr>ls_results := rs, ls_loop := el, ls_status := st\<rparr>)"

inductive loop_step ::
  "('x, 'k, 'p) prover_env set \<Rightarrow> ('x, 'k, 'p) loop_system \<Rightarrow> ('x, 'k, 'p) loop_system \<Rightarrow> bool" for Envs where
  run: "run_step Envs s t \<Longrightarrow> loop_step Envs s t"
| stage: "ls_status s = Looping \<Longrightarrow>
    stage_transition_proof now w (ls_loop s) = (Ok (el, wk, staged) :: (string, _) outcome) \<Longrightarrow>
    loop_step Envs s (s\<lparr>ls_loop := el, ls_workers := ls_workers s @ [wk],
                        ls_staged := ls_staged s @ (case staged of Some u \<Rightarrow> [u] | None \<Rightarrow> [])\<rparr>)"
| stage_overflow: "ls_status s = Looping \<Longrightarrow>
    stage_transition_proof now w (ls_loop s) = (Panic :: (string, _) outcome) \<Longrightarrow>
    loop_step Envs s (s\<lparr>ls_status := Panicked\<rparr>)"

abbreviation loop_steps ::
  "('x, 'k, 'p) prover_env set \<Rightarrow> ('x, 'k, 'p) loop_system \<Rightarrow> ('x, 'k, 'p) loop_system \<Rightarrow> bool" where
  "loop_steps Envs \<equiv> leads_to (loop_step Envs)"

abbreviation loop_reachable ::
  "('x, 'k, 'p) prover_env set \<Rightarrow> 'x event_loop \<Rightarrow> ('x, 'k, 'p) loop_system \<Rightarrow> bool" where
  "loop_reachable Envs el0 \<equiv> loop_steps Envs (loop_init el0)"

abbreviation run_reachable ::
  "('x, 'k, 'p) prover_env set \<Rightarrow> 'x event_loop \<Rightarrow> ('x, 'k, 'p) loop_system \<Rightarrow> bool" where
  "run_reachable Envs el0 \<equiv> leads_to (run_step Envs) (loop_init el0)"

lemmas loop_reach_init = leads_to_refl [of "loop_step Envs" "loop_init el0" for Envs el0]
lemmas loop_reach_step = leads_to_step [of "loop_step Envs" "loop_init el0" for Envs el0]
lemmas run_reach_init = leads_to_refl [of "run_step Envs" "loop_init el0" for Envs el0]
lemmas run_reach_step = leads_to_step [of "run_step Envs" "loop_init el0" for Envs el0]

section \<open>Job identifiers\<close>

definition result_job_id :: "(prover_job_error, 'p prover_job_output) outcome \<Rightarrow> u64" where
  "result_job_id r = (case r of Ok out \<Rightarrow> pjo_job_id out | Err e \<Rightarrow> pje_job_id e | Panic \<Rightarrow> 0)"

definition outstanding :: "('x, 'k, 'p) loop_system \<Rightarrow> u64 list" where
  "outstanding s = map wk_job_id (ls_workers s) @ map result_job_id (ls_results s)"

text \<open>
  Every worker and every queued result belongs to an entry of the job map of its own, and the map's
  ids have all been handed out.
\<close>

definition jobs_inv :: "('x, 'k, 'p) loop_system \<Rightarrow> bool" where
  "jobs_inv s \<longleftrightarrow>
     distinct (outstanding s) \<and>
     set (outstanding s) \<subseteq> dom (el_prover_jobs (ls_loop s)) \<and>
     (\<forall>i \<in> dom (el_prover_jobs (ls_loop s)). 0 < i \<and> i \<le> el_job_id (ls_loop s)) \<and>
     Panic \<notin> set (ls_results s)"

lemma get_proving_key_Ok:
  "get_proving_key env cell = (Ok pk, cell') \<longleftrightarrow>
     cell' = Some pk \<and> (case cell of None \<Rightarrow> setup_elf env = Some pk | Some pk' \<Rightarrow> pk' = pk)"
  by (cases cell; cases "setup_elf env") (auto simp: get_proving_key_def)

lemma get_proving_key_cell: "get_proving_key env (Some pk) = (Ok pk, Some pk)"
  by (simp add: get_proving_key_def)

lemma finality_update_job_Ok:
  "finality_update_job env cell job_id head inputs = (Ok out, cell') \<Longrightarrow>
     pjo_job_id out = job_id \<and> pjo_input_head out = head
     \<and> (\<exists>bs pk. cbor_to_vec env inputs = Ok bs \<and> cell' = Some pk
          \<and> (case cell of None \<Rightarrow> setup_elf env = Some pk | Some pk' \<Rightarrow> pk' = pk)
          \<and> prove_plonk env pk bs = Ok (pjo_proof out))"
  by (cases "cbor_to_vec env inputs"; cases cell)
    (auto simp: finality_update_job_def get_proving_key_def outcome_simps dest!: sym [of "Some _"])

lemma finality_update_job_cell:
  "finality_update_job env (Some pk) job_id head inputs = (r, cell) \<Longrightarrow> cell = Some pk"
  by (cases "cbor_to_vec env inputs") (auto simp: finality_update_job_def get_proving_key_cell)

lemma worker_result_Ok:
  "worker_result env cell wk = (Ok out, cell') \<longleftrightarrow>
     finality_update_job env cell (wk_job_id wk) (wk_input_head wk) (wk_inputs wk) = (Ok out, cell')"
  by (cases "finality_update_job env cell (wk_job_id wk) (wk_input_head wk) (wk_inputs wk)")
    (auto simp: worker_result_def outcome_simps)

lemma result_job_id_worker:
  assumes "worker_result env cell wk = (r, cell')" and "r \<noteq> Panic"
  shows "result_job_id r = wk_job_id wk"
proof (cases r)
  case (Ok out)
  with assms(1) show ?thesis
    by (auto simp: worker_result_Ok result_job_id_def dest: finality_update_job_Ok)
next
  case (Err e)
  with assms(1) show ?thesis
    by (auto simp: worker_result_def result_job_id_def map_prod_def outcome_simps split: prod.splits)
qed (use assms(2) in simp)

lemma stage_transition_proof_Ok [guard_simps]:
  "stage_transition_proof now w el = Ok (el', wk, staged) \<longleftrightarrow>
     unat (el_job_id el) + 1 < 2 ^ 64 \<and>
     el' = el\<lparr>el_job_id := el_job_id el + 1,
              el_prover_jobs := (el_prover_jobs el)(el_job_id el + 1 \<mapsto>
                \<lparr>pj_inputs_with_window = w, pj_start_instant = now\<rparr>)\<rparr> \<and>
     wk = \<lparr>wk_job_id = el_job_id el + 1, wk_input_head = el_current_slot el, wk_inputs = w_proof_inputs w\<rparr> \<and>
     staged = (if el_stage_tx el then Some \<lparr>upd_slot = w_expected_output_slot w,
                 upd_store_hash = w_expected_output_store_hash w\<rparr> else None)"
  by (auto simp: stage_transition_proof_def checked_add_def Let_def outcome_simps)

lemma handle_prover_success_simps [simp]:
  assumes "el_prover_jobs el i = Some job"
  shows "fst (handle_prover_success env i proof el) = el\<lparr>el_prover_jobs := (el_prover_jobs el)(i := None)\<rparr>"
    and "snd (handle_prover_success env i proof el) \<noteq> Panic"
    and "snd (handle_prover_success env i proof el) = Ok () \<longleftrightarrow>
      (\<exists>po. proof_outputs_from_bytes (public_values env proof) = Ok po \<and> json_to_string env po \<noteq> None)"
  using assms by (auto simp: handle_prover_success_def Let_def outcome_simps)

lemma on_job_result_known:
  assumes "el_prover_jobs el (result_job_id r) \<noteq> None" and "r \<noteq> Panic"
    and "on_job_result env r el = (el', st)"
  shows "st \<noteq> Panicked \<and> el' = el\<lparr>el_prover_jobs := (el_prover_jobs el)(result_job_id r := None)\<rparr>"
proof -
  from assms(1) obtain job where job: "el_prover_jobs el (result_job_id r) = Some job" by blast
  show ?thesis
  proof (cases r)
    case (Ok out)
    obtain el1 res where "handle_prover_success env (pjo_job_id out) (pjo_proof out) el = (el1, res)"
      by (cases "handle_prover_success env (pjo_job_id out) (pjo_proof out) el")
    with Ok assms(3) handle_prover_success_simps(1,2) [OF job, of env "pjo_proof out"] show ?thesis
      by (auto simp: on_job_result_def result_job_id_def split: outcome.splits)
  next
    case (Err e)
    with assms(3) job show ?thesis
      by (auto simp: on_job_result_def handle_prover_failure_def result_job_id_def)
  qed (use assms(2) in simp)
qed

lemma next_job_id_unused:
  assumes "unat (el_job_id (ls_loop s)) + 1 < 2 ^ 64" and "jobs_inv s"
    and "i \<in> dom (el_prover_jobs (ls_loop s))"
  shows "0 < i \<and> i \<le> el_job_id (ls_loop s) + 1 \<and> i \<noteq> el_job_id (ls_loop s) + 1"
proof -
  from assms(1) have "el_job_id (ls_loop s) < el_job_id (ls_loop s) + 1"
    by (simp add: word_less_nat_alt unat_word_ariths)
  moreover from assms(2,3) have "0 < i" "i \<le> el_job_id (ls_loop s)" unfolding jobs_inv_def by blast+
  ultimately show ?thesis by auto
qed

lemma jobs_inv_stage:
  assumes "jobs_inv s"
    and "stage_transition_proof now w (ls_loop s) = (Ok (el, wk, staged) :: (string, _) outcome)"
  shows "jobs_inv (s\<lparr>ls_loop := el, ls_workers := ls_workers s @ [wk], ls_staged := us\<rparr>)"
proof -
  from assms(2) have ok: "unat (el_job_id (ls_loop s)) + 1 < 2 ^ 64" by (simp add: stage_transition_proof_Ok)
  note old = next_job_id_unused [OF this assms(1)]
  from ok have "0 < el_job_id (ls_loop s) + 1" by (simp add: word_less_nat_alt unat_word_ariths)
  moreover from assms(1) have "set (outstanding s) \<subseteq> dom (el_prover_jobs (ls_loop s))"
    by (simp add: jobs_inv_def)
  moreover from old have unused: "el_job_id (ls_loop s) + 1 \<notin> dom (el_prover_jobs (ls_loop s))" by blast
  moreover from calculation have "el_job_id (ls_loop s) + 1 \<notin> set (outstanding s)" by blast
  ultimately show ?thesis
    using assms old by (auto simp: jobs_inv_def outstanding_def stage_transition_proof_Ok subset_insertI2)
qed

lemma jobs_inv_step:
  assumes "loop_step Envs s t" and "jobs_inv s"
  shows "jobs_inv t \<and> (ls_status t = Panicked \<longrightarrow> unat (el_job_id (ls_loop s)) + 1 = 2 ^ 64)"
  using assms
proof (induction rule: loop_step.induct)
  case (run s t)
  from run(1) show ?case
  proof (cases rule: run_step.cases)
    case (finality_event ev)
    with run show ?thesis by (simp add: jobs_inv_def outstanding_def on_finality_event_def)
  next
    case (worker_done ws wk ws' env r cell)
    with run result_job_id_worker [OF worker_done(5,6)] show ?thesis
      by (auto simp: jobs_inv_def outstanding_def)
  next
    case (worker_panic ws wk ws' env cell)
    with run show ?thesis by (auto simp: jobs_inv_def outstanding_def)
  next
    case (recv_job_result r rs env el st)
    with run have known: "el_prover_jobs (ls_loop s) (result_job_id r) \<noteq> None" "r \<noteq> Panic"
      and fresh: "result_job_id r \<notin> set (map wk_job_id (ls_workers s)) \<union> set (map result_job_id rs)"
      by (auto simp: jobs_inv_def outstanding_def)
    note step = on_job_result_known [OF known recv_job_result(5)]
    with run recv_job_result fresh show ?thesis
      by (auto simp: jobs_inv_def outstanding_def image_iff)
  qed
next
  case (stage s now w el wk staged)
  then have "unat (el_job_id (ls_loop s)) + 1 < 2 ^ 64" by (simp add: stage_transition_proof_Ok)
  with stage jobs_inv_stage [OF stage(3,2)] show ?case by auto
next
  case (stage_overflow s now w)
  have "unat (el_job_id (ls_loop s)) < 2 ^ 64" using unsigned_less [where ?'a = nat, of "el_job_id (ls_loop s)"] by simp
  with stage_overflow show ?case
    by (auto simp: jobs_inv_def outstanding_def stage_transition_proof_def checked_add_def
        outcome_simps Let_def split: if_splits)
qed

lemma reachable_jobs_inv:
  assumes "loop_reachable Envs el0 s" and "el_prover_jobs el0 = Map.empty"
  shows "jobs_inv s"
  using assms
proof (induction rule: leads_to.induct)
  case leads_to_refl
  then show ?case by (simp add: jobs_inv_def outstanding_def loop_init_def)
next
  case (leads_to_step s t)
  then show ?case using jobs_inv_step by blast
qed

section \<open>What never changes\<close>

definition heads_fixed :: "u64 \<Rightarrow> ('x, 'k, 'p) loop_system \<Rightarrow> bool" where
  "heads_fixed head s \<longleftrightarrow>
     el_current_slot (ls_loop s) = head \<and>
     (\<forall>wk \<in> set (ls_workers s). wk_input_head wk = head) \<and>
     (\<forall>out. Ok out \<in> set (ls_results s) \<longrightarrow> pjo_input_head out = head)"

lemma on_job_result_current_slot:
  "on_job_result env r el = (el', st) \<Longrightarrow> el_current_slot el' = el_current_slot el"
  by (auto simp: on_job_result_def handle_prover_success_def handle_prover_failure_def Let_def
      split: outcome.splits option.splits prod.splits if_splits)

lemma heads_fixed_step:
  assumes "loop_step Envs s t" and "heads_fixed head s"
  shows "heads_fixed head t"
  using assms
proof (induction rule: loop_step.induct)
  case (run s t)
  from run(1) show ?case
  proof (cases rule: run_step.cases)
    case (worker_done ws wk ws' env r cell)
    with run show ?thesis
      by (auto simp: heads_fixed_def worker_result_Ok dest!: finality_update_job_Ok sym [of "Ok _"])
  qed (use run on_job_result_current_slot in \<open>fastforce simp: heads_fixed_def on_finality_event_def\<close>)+
qed (auto simp: heads_fixed_def stage_transition_proof_Ok)

lemma reachable_heads_fixed:
  assumes "loop_reachable Envs el0 s"
  shows "heads_fixed (el_current_slot el0) s"
  using assms
proof (induction rule: leads_to.induct)
  case leads_to_refl
  show ?case by (simp add: heads_fixed_def loop_init_def)
qed (blast intro: heads_fixed_step)

text \<open>The proving key, once set up, is the key of every later job.\<close>

lemma proving_key_kept:
  assumes "loop_step Envs s t" and "ls_proving_key s = Some pk"
  shows "ls_proving_key t = Some pk"
  using assms
proof (induction rule: loop_step.induct)
  case (run s t)
  then show ?case
    by (cases rule: run_step.cases)
      (auto simp: worker_result_def map_prod_def split: prod.splits dest: finality_update_job_cell)
qed auto

lemma run_start_Ok [guard_simps]:
  "run_start el = Ok el' \<longleftrightarrow> el_output_rx el \<and> el_advance_tx el \<and> el_job_rx el
     \<and> el' = el\<lparr>el_output_rx := False, el_advance_tx := False, el_job_rx := False\<rparr>"
  by (auto simp: run_start_def)

text \<open>A new loop and its detector start from one head, that of the principal provider.\<close>

lemma event_loop_new_Ok [guard_simps]:
  "event_loop_new st = Ok (el, task) \<longleftrightarrow>
     (\<exists>proxy slot h secs init.
        consensus_http_proxy_from_env (st_env_var st) (st_parse_url st) = Ok proxy
        \<and> snd (get_latest_finality_slot_and_store_hash (st_head_runtime st) (st_env_var st)
              (st_light_client st) (st_beacon st) proxy) = Ok (slot, h)
        \<and> (polling_interval_sec st :: (unit, _) outcome) = Ok secs
        \<and> snd (get_latest_finality_slot (st_slot_runtime st) (st_env_var st) (st_beacon st) proxy) = Ok init
        \<and> el = new_event_loop slot h \<and> task = detector_task st secs slot h None)"
  by (auto simp: event_loop_new_def outcome_simps start_detector_Ok consensus_http_proxy_try_from_env_def)

lemma run_never_stages:
  assumes "run_reachable Envs el0 s" and "el_prover_jobs el0 = Map.empty"
  shows "ls_workers s = [] \<and> ls_results s = [] \<and> ls_staged s = [] \<and> ls_loop s = el0 \<and> ls_status s = Looping"
  using assms
proof (induction rule: leads_to.induct)
  case leads_to_refl
  show ?case by (simp add: loop_init_def)
next
  case (leads_to_step s t)
  from leads_to_step(2) leads_to_step(3) [OF leads_to_step(4)] show ?case
    by (cases rule: run_step.cases) (auto simp: on_finality_event_def)
qed

section \<open>Properties\<close>

definition demo_event_loop :: "nat event_loop" where
  "demo_event_loop = new_event_loop 32 32"

definition demo_staged :: "(nat, nat, bytes) loop_system" where
  "demo_staged =
     \<lparr>ls_loop = demo_event_loop\<lparr>el_job_id := 1, el_prover_jobs := [1 \<mapsto>
        \<lparr>pj_inputs_with_window = demo_prepared_window, pj_start_instant = 0\<rparr>]\<rparr>,
      ls_workers = [\<lparr>wk_job_id = 1, wk_input_head = 32, wk_inputs = demo_proof_inputs\<rparr>],
      ls_results = [], ls_proving_key = None, ls_staged = [\<lparr>upd_slot = 64, upd_store_hash = 64\<rparr>], ls_status = Looping\<rparr>"

lemma demo_staged_reachable: "loop_reachable Envs demo_event_loop demo_staged"
proof -
  have "stage_transition_proof 0 demo_prepared_window (ls_loop (loop_init demo_event_loop :: (nat, nat, bytes) loop_system))
      = (Ok (ls_loop demo_staged, hd (ls_workers demo_staged), Some \<lparr>upd_slot = 64, upd_store_hash = 64\<rparr>) :: (string, _) outcome)"
    by (simp add: stage_transition_proof_Ok demo_staged_def loop_init_def)
      (simp add: demo_event_loop_def new_event_loop_def demo_prepared_window_def)
  from loop_reach_step [OF loop_reach_init stage [OF _ this]] show ?thesis
    by (simp add: loop_init_def demo_staged_def)
qed

text \<open>C24: Handling a prover result never panics: whatever is staged and however workers end, every result
  the loop receives belongs to its own entry of the job map, so both \<open>unwrap\<close>s on the map succeed;
  a panic needs the job counter to run out of 64 bits.  Every job and result is labelled with the slot
  the loop was created with, however far the bridge has advanced by then.\<close>

theorem prover_results_never_unknown:
  assumes "loop_reachable Envs el0 s" and "el_prover_jobs el0 = Map.empty" and "loop_step Envs s t"
  shows "jobs_inv t \<and> (ls_status t = Panicked \<longrightarrow> unat (el_job_id (ls_loop s)) + 1 = 2 ^ 64)
    \<and> (\<forall>wk \<in> set (ls_workers t). wk_input_head wk = el_current_slot el0)
    \<and> (\<forall>out. Ok out \<in> set (ls_results t) \<longrightarrow> pjo_input_head out = el_current_slot el0)"
  using jobs_inv_step [OF assms(3)] reachable_jobs_inv [OF assms(1,2)]
    reachable_heads_fixed [OF loop_reach_step [OF assms(1,3)]]
  by (simp add: heads_fixed_def)

definition demo_prover_env :: "(nat, nat, bytes) prover_env" where
  "demo_prover_env =
     \<lparr>cbor_to_vec = (\<lambda>i. Ok []), setup_elf = Some 0, prove_plonk = (\<lambda>pk bs. Err ''gpu''),
      public_values = id, json_to_string = (\<lambda>p. Some ''{}'')\<rparr>"

lemma demo_failed_step:
  "loop_step {demo_prover_env} demo_staged
     (demo_staged\<lparr>ls_workers := [], ls_results := [Err \<lparr>pje_job_id = 1, pje_error = ProvingFailed ''gpu''\<rparr>],
       ls_proving_key := Some 0\<rparr>)"
proof -
  let ?wk = "\<lparr>wk_job_id = 1, wk_input_head = 32, wk_inputs = demo_proof_inputs\<rparr>"
  let ?r = "Err \<lparr>pje_job_id = 1, pje_error = ProvingFailed ''gpu''\<rparr> :: (prover_job_error, bytes prover_job_output) outcome"
  have "worker_result demo_prover_env (ls_proving_key demo_staged) ?wk = (?r, Some 0)"
    by (simp add: worker_result_def finality_update_job_def demo_prover_env_def demo_staged_def
        get_proving_key_def join_blocking_def)
  then have "run_step {demo_prover_env} demo_staged
      (demo_staged\<lparr>ls_workers := [] @ [], ls_results := ls_results demo_staged @ [?r], ls_proving_key := Some 0\<rparr>)"
    by (intro worker_done [where wk = ?wk]) (simp_all add: demo_staged_def)
  then show ?thesis using loop_step.run by (force simp: demo_staged_def)
qed

theorem prover_results_never_unknown_witness:
  "jobs_inv (demo_staged\<lparr>ls_workers := [], ls_results := [Err \<lparr>pje_job_id = 1, pje_error = ProvingFailed ''gpu''\<rparr>],
       ls_proving_key := Some 0\<rparr>)"
  using prover_results_never_unknown [OF demo_staged_reachable _ demo_failed_step]
  by (simp add: demo_event_loop_def new_event_loop_def)

text \<open>The running loop stages no proof: its arm for finality events is empty, so from a loop without jobs
  \<open>run\<close> reaches no state with a worker, a result, a message to the detector, or any change of its own
  state.\<close>

theorem run_stages_nothing:
  assumes "run_reachable Envs el0 s" and "el_prover_jobs el0 = Map.empty"
  shows "ls_workers s = [] \<and> ls_results s = [] \<and> ls_staged s = [] \<and> ls_loop s = el0 \<and> ls_status s = Looping"
  using assms by (rule run_never_stages)

theorem run_stages_nothing_witness:
  "ls_loop ((loop_init demo_event_loop)\<lparr>ls_loop := on_finality_event \<lparr>current_window = demo_prepared_window,
      next_window = None\<rparr> demo_event_loop\<rparr> :: (nat, nat, bytes) loop_system) = demo_event_loop"
proof -
  have "run_step {} (loop_init demo_event_loop) ((loop_init demo_event_loop)\<lparr>ls_loop :=
      on_finality_event \<lparr>current_window = demo_prepared_window, next_window = None\<rparr> demo_event_loop\<rparr>
      :: (nat, nat, bytes) loop_system)"
    using finality_event [of "loop_init demo_event_loop :: (nat, nat, bytes) loop_system" "{}"
        "\<lparr>current_window = demo_prepared_window, next_window = None\<rparr>"]
    by (simp add: loop_init_def)
  from run_stages_nothing [OF run_reach_step [OF run_reach_init this]] show ?thesis
    by (simp add: demo_event_loop_def new_event_loop_def)
qed

section \<open>Jobs whose worker panicked\<close>

text \<open>An entry of the job map that no worker and no queued result will ever clear.\<close>

definition orphaned :: "('x, 'k, 'p) loop_system \<Rightarrow> u64 \<Rightarrow> bool" where
  "orphaned s i \<longleftrightarrow> i \<in> dom (el_prover_jobs (ls_loop s)) \<and> i \<notin> set (outstanding s)"

lemma worker_result_Panic:
  "worker_result env cell wk = (Panic, cell') \<longleftrightarrow>
     cell' = cell \<and> (cbor_to_vec env (wk_inputs wk) = Panic
       \<or> is_ok (cbor_to_vec env (wk_inputs wk)) \<and> cell = None \<and> setup_elf env = None)"
  by (cases "cbor_to_vec env (wk_inputs wk)"; cases cell; cases "setup_elf env")
    (auto simp: worker_result_def finality_update_job_def get_proving_key_def outcome_simps)

lemma orphaned_step:
  assumes "loop_step Envs s t" and "jobs_inv s" and "orphaned s i"
  shows "orphaned t i \<and> el_prover_jobs (ls_loop t) i = el_prover_jobs (ls_loop s) i"
  using assms
proof (induction rule: loop_step.induct)
  case (run s t)
  from run(1) show ?case
  proof (cases rule: run_step.cases)
    case (worker_done ws wk ws' env r cell)
    with run result_job_id_worker [OF worker_done(5,6)] show ?thesis
      by (auto simp: orphaned_def outstanding_def)
  next
    case (recv_job_result r rs env el st)
    with run have known: "el_prover_jobs (ls_loop s) (result_job_id r) \<noteq> None" "r \<noteq> Panic"
      by (auto simp: jobs_inv_def outstanding_def)
    note step = on_job_result_known [OF known recv_job_result(5)]
    with run recv_job_result show ?thesis by (auto simp: orphaned_def outstanding_def)
  qed (use run in \<open>auto simp: orphaned_def outstanding_def on_finality_event_def\<close>)
next
  case (stage s now w el wk staged)
  then have "unat (el_job_id (ls_loop s)) + 1 < 2 ^ 64" by (simp add: stage_transition_proof_Ok)
  from next_job_id_unused [OF this stage(3)] stage(4) have "i \<noteq> el_job_id (ls_loop s) + 1"
    by (simp add: orphaned_def)
  with stage show ?case by (auto simp: orphaned_def outstanding_def stage_transition_proof_Ok)
qed (auto simp: orphaned_def outstanding_def)

lemma orphaned_forever:
  assumes "loop_steps Envs s t" and "jobs_inv s" and "orphaned s i"
  shows "jobs_inv t \<and> orphaned t i \<and> el_prover_jobs (ls_loop t) i = el_prover_jobs (ls_loop s) i"
  using assms
  by (induction rule: leads_to.induct) (auto dest: jobs_inv_step orphaned_step)

text \<open>C25: A worker that panics takes its job with it: nothing is sent for it, and whatever the loop does from
  then on, the job's entry stays in the map as it was, answered by no worker and no result.  Only a
  codec that panics or a first key setup that panics gets there: a panic of the prover itself is
  reported as a failed job.\<close>

theorem panicked_worker_orphans_its_job:
  assumes "loop_reachable Envs el0 s" and "el_prover_jobs el0 = Map.empty"
    and "ls_workers s = ws @ wk # ws'" and "worker_result env (ls_proving_key s) wk = (Panic, cell)"
    and "loop_steps Envs (s\<lparr>ls_workers := ws @ ws', ls_proving_key := cell\<rparr>) t"
  shows "(\<exists>job. el_prover_jobs (ls_loop s) (wk_job_id wk) = Some job
            \<and> el_prover_jobs (ls_loop t) (wk_job_id wk) = Some job)
    \<and> wk_job_id wk \<notin> set (outstanding t)
    \<and> (cbor_to_vec env (wk_inputs wk) = Panic \<or> ls_proving_key s = None \<and> setup_elf env = None)"
proof -
  let ?s = "s\<lparr>ls_workers := ws @ ws', ls_proving_key := cell\<rparr>"
  from reachable_jobs_inv [OF assms(1,2)] assms(3) have "jobs_inv ?s" and "orphaned ?s (wk_job_id wk)"
    by (auto simp: jobs_inv_def outstanding_def orphaned_def)
  from orphaned_forever [OF assms(5) this] show ?thesis
    using assms(4) by (auto simp: orphaned_def worker_result_Panic)
qed

definition demo_unset_env :: "(nat, nat, bytes) prover_env" where
  "demo_unset_env = demo_prover_env\<lparr>setup_elf := None\<rparr>"

theorem panicked_worker_orphans_its_job_witness:
  "el_prover_jobs (ls_loop (demo_staged\<lparr>ls_workers := []\<rparr>)) 1 \<noteq> None \<and> outstanding (demo_staged\<lparr>ls_workers := []\<rparr>) = []"
proof -
  let ?wk = "\<lparr>wk_job_id = 1, wk_input_head = 32, wk_inputs = demo_proof_inputs\<rparr>"
  have workers: "ls_workers demo_staged = [] @ ?wk # []" and key: "ls_proving_key demo_staged = None"
    by (simp_all add: demo_staged_def)
  have panic: "worker_result demo_unset_env (ls_proving_key demo_staged) ?wk = (Panic, None)"
    by (simp add: worker_result_Panic key) (simp add: demo_unset_env_def demo_prover_env_def)
  have "el_prover_jobs demo_event_loop = Map.empty"
    by (simp add: demo_event_loop_def new_event_loop_def)
  from panicked_worker_orphans_its_job [OF demo_staged_reachable this workers panic leads_to_refl]
  show ?thesis by (simp add: demo_staged_def outstanding_def)
qed

end
