(* ===== verification/Bridge_Process.thy ===== *)
theory Bridge_Process
  imports Event_Loop
begin

text \<open>
  The process as it runs: \<open>EventLoop::new\<close>, then \<open>run\<close>, with the detector task the start spawned.  The
  two share the detector's channels and nothing else; the loop keeps both senders but sends on neither
  while it runs, and takes what the detector emits.
\<close>

section \<open>The composed process\<close>

record ('x, 'k, 'p) bridge_process =
  bp_loop :: "('x, 'k, 'p) loop_system"
  bp_detector :: "(prepare_error, 'x) system option"

definition process_start :: "('v, 'x, 'f) startup \<Rightarrow> ('e, ('x, 'k, 'p) bridge_process) outcome" where
  "process_start st =
     and_then (event_loop_new st) (\<lambda>(el, task).
     and_then (run_start el) (\<lambda>el.
     Ok \<lparr>bp_loop = loop_init el, bp_detector = map_option system_init task\<rparr>))"

text \<open>
  A step of the detector and its actor alone: nobody sends to it, and the other end neither takes an
  output nor goes away.
\<close>

definition own_step :: "('e, 'x) preparer set \<Rightarrow> ('e, 'x) system \<Rightarrow> ('e, 'x) system \<Rightarrow> bool" where
  "own_step Prep s t \<longleftrightarrow>
     system_step Prep s t
     \<and> length (stage_queue t) \<le> length (stage_queue s) \<and> length (advance_queue t) \<le> length (advance_queue s)
     \<and> length (output_queue s) \<le> length (output_queue t) \<and> output_open t = output_open s"

definition process_running :: "('x, 'k, 'p) bridge_process \<Rightarrow> bool" where
  "process_running p \<longleftrightarrow>
     ls_status (bp_loop p) = Looping \<and> (\<forall>s \<in> set_option (bp_detector p). running s)"

text \<open>
  An exit of either side ends both.  \<open>loop_side\<close> covers the workers and the job channel; its case of a
  finality event changes nothing, the event itself is taken in \<open>take_finality\<close>.
\<close>

inductive process_step ::
  "(prepare_error, 'x) preparer set \<Rightarrow> ('x, 'k, 'p) prover_env set
   \<Rightarrow> ('x, 'k, 'p) bridge_process \<Rightarrow> ('x, 'k, 'p) bridge_process \<Rightarrow> bool" for Prep Envs where
  detector_side: "process_running p \<Longrightarrow> bp_detector p = Some s \<Longrightarrow> own_step Prep s t \<Longrightarrow>
    process_step Prep Envs p (p\<lparr>bp_detector := Some t\<rparr>)"
| loop_side: "process_running p \<Longrightarrow> run_step Envs (bp_loop p) l \<Longrightarrow>
    process_step Prep Envs p (p\<lparr>bp_loop := l\<rparr>)"
| take_finality: "process_running p \<Longrightarrow> bp_detector p = Some s \<Longrightarrow> output_queue s = ev # evs \<Longrightarrow>
    process_step Prep Envs p
      (p\<lparr>bp_detector := Some (s\<lparr>output_queue := evs\<rparr>),
         bp_loop := (bp_loop p)\<lparr>ls_loop := on_finality_event ev (ls_loop (bp_loop p))\<rparr>\<rparr>)"

abbreviation process_reachable ::
  "(prepare_error, 'x) preparer set \<Rightarrow> ('x, 'k, 'p) prover_env set
   \<Rightarrow> ('x, 'k, 'p) bridge_process \<Rightarrow> ('x, 'k, 'p) bridge_process \<Rightarrow> bool" where
  "process_reachable Prep Envs \<equiv> leads_to (process_step Prep Envs)"

text \<open>
  Both sides exit by ending the whole process (\<open>std::process::exit\<close>), so a detector that has exited is
  not taken out of the state: it is the one that is not \<open>running\<close>, the process is then not running
  either, and nothing steps any more.
\<close>

section \<open>A detector nobody talks to\<close>

definition tracks_start :: "u64 \<Rightarrow> b256 \<Rightarrow> detector \<Rightarrow> bool" where
  "tracks_start slot h d \<longleftrightarrow> d_slot d = slot \<and> d_store_hash d = h \<and> d_next_expected_output d = None"

definition unattended :: "u64 \<Rightarrow> b256 \<Rightarrow> ('e, 'x) system \<Rightarrow> bool" where
  "unattended slot h s \<longleftrightarrow>
     stage_queue s = [] \<and> advance_queue s = [] \<and> output_open s \<and> tracks_start slot h (det s)
     \<and> (\<forall>e \<in> set (log s). \<exists>d dual. e = LogEmit d dual \<and> tracks_start slot h d)"

lemma tracks_start_upd [simp]:
  "tracks_start slot h (d\<lparr>d_in_flight := b\<rparr>) = tracks_start slot h d"
  "tracks_start slot h (d\<lparr>d_stale := b\<rparr>) = tracks_start slot h d"
  "tracks_start slot h (d\<lparr>d_latest_slot := l\<rparr>) = tracks_start slot h d"
  by (simp_all add: tracks_start_def)

lemma unattended_step:
  assumes "own_step Prep s t" and "unattended slot h s"
  shows "unattended slot h t"
proof -
  from assms(1) have "system_step Prep s t" and "length (stage_queue t) \<le> length (stage_queue s)"
    "length (advance_queue t) \<le> length (advance_queue s)" "output_open t = output_open s"
    by (auto simp: own_step_def)
  then show ?thesis
    using assms(2)
  proof (induction rule: system_step.induct)
    case (recv_result s r rs reaction)
    then show ?case
      by (cases rule: on_result_cases [where job_open = "actor s \<noteq> ActorStopped"
            and out_open = "output_open s" and r = r and d = "det s"])
        (auto simp: unattended_def react_def)
  next
    case (tick s reaction)
    then show ?case by (auto simp: unattended_def on_tick_eq react_def)
  qed (auto simp: unattended_def)
qed

lemma unattended_emissions: "unattended slot h s \<Longrightarrow> list_all is_emit (log s) \<and> emissions s = log s"
  by (fastforce simp: unattended_def list_all_iff is_emit_def emissions_def filter_id_conv)

fun emitted_slot :: "'x log_entry \<Rightarrow> u64" where
  "emitted_slot (LogEmit d dual) = output_slot_of dual"
| "emitted_slot (LogAdvance u) = upd_slot u"

lemma log_ok_sorted:
  "log_ok Prep b es \<Longrightarrow> list_all is_emit es \<Longrightarrow>
     sorted_wrt (<) (map emitted_slot es) \<and> (\<forall>e \<in> set es. base_slot b < emitted_slot e)"
proof (induction es arbitrary: b)
  case (Cons e es)
  then obtain d dual where e: "e = LogEmit d dual" by (auto simp: is_emit_def)
  from Cons.IH [of "b\<lparr>base_slot := output_slot_of dual\<rparr>"] Cons.prems e
  have "sorted_wrt (<) (map emitted_slot es)" and "\<forall>e' \<in> set es. output_slot_of dual < emitted_slot e'"
    by simp_all
  with Cons.prems e show ?case by (auto simp: ahead_def intro: less_trans)
qed simp

section \<open>Invariants of the process\<close>

definition process_inv ::
  "'x event_loop \<Rightarrow> ('x, 'k, 'p) bridge_process \<Rightarrow> bool" where
  "process_inv el p \<longleftrightarrow>
     ls_workers (bp_loop p) = [] \<and> ls_results (bp_loop p) = [] \<and> ls_staged (bp_loop p) = []
     \<and> ls_loop (bp_loop p) = el \<and> ls_status (bp_loop p) = Looping
     \<and> (\<forall>s \<in> set_option (bp_detector p). unattended (el_current_slot el) (el_store_hash el) s)"

lemma idle_loop_step:
  assumes "run_step Envs l l'" and "ls_workers l = []" and "ls_results l = []"
  shows "l' = l"
  using assms by (cases rule: run_step.cases) (auto simp: on_finality_event_def)

lemma process_inv_step:
  assumes "process_step Prep Envs p q" and "process_inv el p"
  shows "process_inv el q \<and> (bp_detector q = None \<longleftrightarrow> bp_detector p = None)"
  using assms
proof (induction rule: process_step.induct)
  case (detector_side p s t)
  then show ?case using unattended_step [of Prep s t] by (auto simp: process_inv_def)
next
  case (loop_side p l)
  then have "l = bp_loop p" by (auto simp: process_inv_def intro: idle_loop_step)
  with loop_side show ?case by simp
next
  case (take_finality p s ev evs)
  then show ?case by (auto simp: process_inv_def unattended_def on_finality_event_def)
qed

text \<open>
  As long as the output has its receiver, the detector inside the process runs as the system of
  tasks on its own does.
\<close>

interpretation hosted: simulation "process_step Prep Envs" "system_step Prep"
  "\<lambda>p. \<exists>s. bp_detector p = Some s \<and> output_open s" "\<lambda>p. the (bp_detector p)"
  for Prep :: "(prepare_error, 'x) preparer set" and Envs :: "('x, 'k, 'p) prover_env set"
proof unfold_locales
  fix p q :: "('x, 'k, 'p) bridge_process"
  assume step: "process_step Prep Envs p q" and inv: "\<exists>s. bp_detector p = Some s \<and> output_open s"
  from step inv show "\<exists>s. bp_detector q = Some s \<and> output_open s"
    by (cases rule: process_step.cases) (auto simp: own_step_def)
  from step inv show "the (bp_detector q) = the (bp_detector p)
      \<or> system_step Prep (the (bp_detector p)) (the (bp_detector q))"
    by (cases rule: process_step.cases) (auto simp: own_step_def process_running_def intro: take_output)
qed

lemma process_start_Ok [guard_simps]:
  "process_start st = Ok p \<longleftrightarrow> (\<exists>el task. (event_loop_new st :: (unit, _) outcome) = Ok (el, task)
     \<and> p = \<lparr>bp_loop = loop_init (el\<lparr>el_output_rx := False, el_advance_tx := False, el_job_rx := False\<rparr>),
            bp_detector = map_option system_init task\<rparr>)"
  by (auto simp: process_start_def outcome_simps run_start_Ok event_loop_new_Ok new_event_loop_def)

lemma process_start_shape:
  assumes "process_start st = Ok p"
  obtains slot h secs where "(polling_interval_sec st :: (unit, _) outcome) = Ok secs"
    and "bp_loop p = loop_init ((new_event_loop slot h)\<lparr>el_output_rx := False, el_advance_tx := False, el_job_rx := False\<rparr>)"
    and "bp_detector p = map_option system_init (detector_task st secs slot h None)"
  using assms by (auto simp: process_start_Ok event_loop_new_Ok intro: that)

lemma unattended_init: "unattended slot h (system_init (detector_init slot h None))"
  by (simp add: unattended_def system_init_def tracks_start_def detector_init_def)

lemma process_start_inv:
  assumes "process_start st = Ok p"
  shows "process_inv (ls_loop (bp_loop p)) p"
proof -
  from process_start_shape [OF assms] obtain slot h secs where
    "bp_loop p = loop_init ((new_event_loop slot h)\<lparr>el_output_rx := False, el_advance_tx := False, el_job_rx := False\<rparr>)"
    "bp_detector p = map_option system_init (detector_task st secs slot h None)"
    by metis
  then show ?thesis
    by (auto simp: process_inv_def loop_init_def new_event_loop_def detector_task_cases unattended_init
        split: if_splits)
qed

lemma process_reachable_inv:
  assumes "process_reachable Prep Envs p0 p" and "process_start st = Ok p0"
  shows "process_inv (ls_loop (bp_loop p0)) p \<and> (bp_detector p = None \<longleftrightarrow> bp_detector p0 = None)"
  using assms
proof (induction rule: leads_to.induct)
  case leads_to_refl
  then show ?case using process_start_inv by blast
next
  case (leads_to_step p q)
  then show ?case using process_inv_step by metis
qed

lemma process_detector_reachable:
  assumes "process_reachable Prep Envs p0 p" and "process_start st = Ok p0" and "bp_detector p = Some s"
  shows "reachable Prep (detector_init (el_current_slot (ls_loop (bp_loop p0)))
           (el_store_hash (ls_loop (bp_loop p0))) None) s"
proof -
  from process_reachable_inv [OF assms(1,2)] assms(3) obtain s0 where s0: "bp_detector p0 = Some s0" by auto
  obtain slot h secs where
    "bp_loop p0 = loop_init ((new_event_loop slot h)\<lparr>el_output_rx := False, el_advance_tx := False, el_job_rx := False\<rparr>)"
    and "bp_detector p0 = map_option system_init (detector_task st secs slot h None)"
    by (rule process_start_shape [OF assms(2)])
  with s0 have start: "s0 = system_init (detector_init (el_current_slot (ls_loop (bp_loop p0)))
       (el_store_hash (ls_loop (bp_loop p0))) None)"
    by (auto simp: loop_init_def new_event_loop_def detector_task_cases split: if_splits)
  then have "output_open s0" by (simp add: system_init_def)
  with hosted.refines [OF assms(1)] s0 assms(3) start show ?thesis by simp
qed

lemma hosted_runs:
  assumes "process_reachable Prep Envs p0 p" and "process_start st = Ok p0"
  shows "\<forall>s \<in> set_option (bp_detector p). running s"
proof
  fix s assume "s \<in> set_option (bp_detector p)"
  with process_reachable_inv [OF assms] have s: "bp_detector p = Some s" and "output_open s"
    by (auto simp: process_inv_def unattended_def)
  with reachable_exit_inv [OF process_detector_reachable [OF assms s]] show "running s"
    by (simp add: exit_inv_def)
qed

text \<open>An idle detector of a running process has a live actor with an empty queue, so a tick gives it a job.\<close>

lemma idle_detector_ticks:
  assumes "process_reachable Prep Envs p0 p" and "process_start st = Ok p0" and "bp_detector p = Some s"
    and "process_running p" and "\<not> d_in_flight (det s)"
  shows "\<exists>t. process_step Prep Envs p (p\<lparr>bp_detector := Some t\<rparr>) \<and> d_in_flight (det t)
     \<and> job_queue t = [\<lparr>job_slot = el_current_slot (ls_loop (bp_loop p0)),
          job_store_hash = el_store_hash (ls_loop (bp_loop p0)), job_next_expected_output = None\<rparr>]"
proof -
  have run: "running s" using assms(3,4) by (simp add: process_running_def)
  have "single_flight s"
    by (rule reachable_single_flight [OF process_detector_reachable [OF assms(1-3)] run])
  with assms(5) have idle: "actor s \<noteq> ActorStopped" "job_queue s = []"
    using idle_nothing_pending [of s] by (auto simp: single_flight_def split: if_splits)
  have job: "current_job (det s) = \<lparr>job_slot = el_current_slot (ls_loop (bp_loop p0)),
      job_store_hash = el_store_hash (ls_loop (bp_loop p0)), job_next_expected_output = None\<rparr>"
    using process_reachable_inv [OF assms(1,2)] assms(3)
    by (simp add: process_inv_def unattended_def tracks_start_def current_job_def filtered_next_def)
  have r: "on_tick (actor s \<noteq> ActorStopped) (det s)
      = Continue ((det s)\<lparr>d_in_flight := True\<rparr>) (Some (current_job (det s))) (None :: 'x dual_proof_inputs_with_window option)"
    using assms(5) idle by (simp add: on_tick_eq)
  let ?r = "Continue ((det s)\<lparr>d_in_flight := True\<rparr>) (Some (current_job (det s))) (None :: 'x dual_proof_inputs_with_window option)"
  have "system_step Prep s (react s ?r)"
    by (rule tick [OF run r [symmetric]]) (simp add: reaction_fits_def idle CHANNEL_CAPACITY_def)
  then have "own_step Prep s (react s ?r)"
    by (simp add: own_step_def) (simp add: react_def)
  from detector_side [OF assms(4,3) this] show ?thesis
    by (intro exI [of _ "react s ?r"]) (simp add: idle job)
qed

section \<open>A concrete start\<close>

text \<open>Seconds are natural numbers; the variable's text is a number or the default.\<close>

definition demo_startup :: "string option \<Rightarrow> (nat, nat, nat) startup" where
  "demo_startup interval =
     \<lparr>st_env_var = demo_env_var(''HELIOS_POLLING_INTERVAL'' := interval), st_parse_url = (\<lambda>u. Some 0),
      st_light_client = demo_light_client, st_beacon = demo_beacon_env, st_head_runtime = ideal_runtime,
      st_slot_runtime = ideal_runtime,
      parse_f64 = (\<lambda>s. if s = ''10.0'' then Some 10 else map_option unat (parse_u64 s)),
      duration_from_secs_f64 = (\<lambda>n. Some (n * 1000000000))\<rparr>"

text \<open>The demonstration start: the latest checkpoint is at slot 32.\<close>

definition demo_start_env :: "string option \<Rightarrow> (nat, nat, nat) startup" where
  "demo_start_env interval = (demo_startup interval)
     \<lparr>st_beacon := demo_beacon_env\<lparr>fetch_latest_checkpoint := \<lambda>cf net t. Some (Ok 32, Suc t)\<rparr>\<rparr>"

lemma demo_start_client:
  "client_new (demo_env_var(''HELIOS_POLLING_INTERVAL'' := i)) (st_beacon (demo_start_env i))
   = Ok \<lparr>cl_config = demo_config, cl_store = demo_store 0\<rparr>"
  by (simp add: client_new_def chain_network_def demo_env_var_def demo_beacon_env_def demo_start_env_def demo_config_def
      parse_u64_def digit_value_def Let_def)

lemma demo_start_network:
  "chain_network (demo_env_var(''HELIOS_POLLING_INTERVAL'' := i)) (st_beacon (demo_start_env i)) = Ok 1"
  by (simp add: chain_network_def demo_env_var_def demo_beacon_env_def demo_start_env_def
      parse_u64_def digit_value_def Let_def)

lemma demo_start_checkpoint:
  "meanwhile (st_beacon (demo_start_env i))
     (get_latest_checkpoint (demo_env_var(''HELIOS_POLLING_INTERVAL'' := i)) (st_beacon (demo_start_env i))) w
   = Some (Ok 32, Suc (Suc w))"
  by (simp add: meanwhile_def get_latest_checkpoint_def io_bind_def io_of_def io_map_err_def demo_start_network)
    (simp add: demo_start_env_def demo_beacon_env_def io_bind_def io_of_def io_map_err_def)

lemma demo_start_bootstrap:
  "bootstrap_from_checkpoint (demo_env_var(''HELIOS_POLLING_INTERVAL'' := i)) (st_beacon (demo_start_env i)) 32 w
   = Some (Ok \<lparr>cl_config = demo_config, cl_store = demo_store 32\<rparr>, Suc w)"
  by (simp add: bootstrap_from_checkpoint_def io_bind_def io_of_def io_map_err_def demo_start_client)
    (simp add: demo_start_env_def demo_beacon_env_def io_bind_def io_of_def io_map_err_def)

lemma demo_start_head:
  "client_get_latest_finality_slot_and_store_hash (demo_env_var(''HELIOS_POLLING_INTERVAL'' := i))
     demo_light_client (st_beacon (demo_start_env i)) w = Some (Ok (32, 32), Suc (Suc (Suc (Suc w))))"
proof -
  have first: "get_first_update (st_beacon (demo_start_env i)) c v = Some (Ok demo_update, Suc v)" for c v
    by (simp add: get_first_update_def Let_def io_bind_def io_map_err_def io_of_def)
      (simp add: demo_start_env_def demo_beacon_env_def io_of_def)
  have "get_store_with_next_sync_committee demo_light_client c (demo_store 32) g f demo_update = Ok (demo_store 32)" for c g f
    by (simp add: store_with_next_sync_committee_Ok restored_from_def) (simp add: demo_defs demo_update_def)
  then show ?thesis
    by (simp add: client_get_latest_finality_slot_and_store_hash_def io_bind_def io_of_def
        demo_start_checkpoint demo_start_bootstrap first Let_def)
      (simp add: demo_defs get_current_finalizer_header_beacon_slot_def io_of_def)
qed

lemma demo_start_slot:
  "client_get_latest_finality_slot (st_beacon (demo_start_env i)) w = Some (Ok 64, Suc w)"
  by (simp add: client_get_latest_finality_slot_def get_latest_finality_update_def io_bind_def io_map_err_def io_of_def)
    (simp add: demo_start_env_def demo_beacon_env_def demo_header_def io_of_def)

lemma demo_start_proxy:
  "consensus_http_proxy_from_env (demo_env_var(''HELIOS_POLLING_INTERVAL'' := i)) (\<lambda>u. Some 0) = Ok demo_proxy"
  by (simp add: consensus_http_proxy_from_env_def validation_timeout_from_def demo_env_var_def rpc_urls_def
      trim_def is_space_def List.map_filter_def demo_proxy_def Let_def)

lemma demo_start_clock: "beacon_clock (st_beacon (demo_start_env i)) = id"
  by (simp add: demo_start_env_def demo_beacon_env_def)

definition demo_process :: "string option \<Rightarrow> (nat, nat, bytes) bridge_process" where
  "demo_process i =
     \<lparr>bp_loop = loop_init ((new_event_loop 32 32)\<lparr>el_output_rx := False, el_advance_tx := False, el_job_rx := False\<rparr>),
      bp_detector = map_option (\<lambda>_. system_init (detector_init 32 32 None))
        (if i = Some ''0'' then None else Some ())\<rparr>"

lemma demo_start_looks:
  "get_latest_finality_slot_and_store_hash ideal_runtime (demo_env_var(''HELIOS_POLLING_INTERVAL'' := i))
     demo_light_client (st_beacon (demo_start_env i)) demo_proxy = (4, Ok (32, 32))"
  "get_latest_finality_slot ideal_runtime (demo_env_var(''HELIOS_POLLING_INTERVAL'' := i))
     (st_beacon (demo_start_env i)) demo_proxy = (4, Ok 64)"
  by (simp_all add: get_latest_finality_slot_and_store_hash_def get_latest_finality_slot_def future_of_def demo_proxy_def
      demo_start_head demo_start_checkpoint io_bind_def demo_start_bootstrap demo_start_slot demo_start_clock
      query_with_fallback_def multiplex_def with_timeout_def ideal_runtime_def ideal_timeout_def
      CONSENSUS_PROVIDER_TIMEOUT_def)

lemma demo_process_starts:
  assumes "i \<in> {None, Some ''0''}"
  shows "process_start (demo_start_env i) = (Ok (demo_process i) :: (unit, _) outcome)"
proof -
  let ?env = "demo_env_var(''HELIOS_POLLING_INTERVAL'' := i)" and ?beacon = "st_beacon (demo_start_env i)"
  have env: "st_env_var (demo_start_env i) = ?env" "st_parse_url (demo_start_env i) = (\<lambda>u. Some 0)"
    "st_light_client (demo_start_env i) = demo_light_client"
    "st_head_runtime (demo_start_env i) = ideal_runtime" "st_slot_runtime (demo_start_env i) = ideal_runtime"
    by (simp_all add: demo_start_env_def demo_startup_def)
  have interval: "\<exists>secs. (polling_interval_sec (demo_start_env i) :: (unit, _) outcome) = Ok secs
      \<and> detector_task (demo_start_env i) secs 32 32 None
          = (if i = Some ''0'' then None else Some (detector_init 32 32 None))"
    using assms
    by (auto simp: polling_interval_sec_def demo_start_env_def demo_startup_def demo_env_var_def
        DEFAULT_POLLING_INTERVAL_def detector_task_cases parse_u64_def digit_value_def)
  have "event_loop_new (demo_start_env i) = (Ok (new_event_loop 32 32,
      if i = Some ''0'' then None else Some (detector_init 32 32 None)) :: (unit, _) outcome)"
    using interval by (simp add: event_loop_new_Ok env demo_start_proxy demo_start_looks) metis
  then show ?thesis
    by (simp add: process_start_def run_start_def demo_process_def new_event_loop_def)
qed

end
