(* ===== verification/Cold_Start.thy ===== *)
theory Cold_Start
  imports Bridge_Process
begin

text \<open>
  The cold start meets the preparation: \<open>get_latest_finality_slot_and_store_hash\<close> hands the
  detector a slot and the hash of a store it then forgets, and \<open>prepare_consensus_proof_inputs\<close> has to
  rebuild a store with that hash from the slot alone.
\<close>

section \<open>What the two sides rely on\<close>

text \<open>
  Two facts both sides take for granted about bootstrapping, which the beacon API serves for finalized
  blocks only: the block fetched for a slot bootstraps a store at that slot, and two stores
  bootstrapped at one slot are the same store, the finalized chain having one block per slot.  Nothing is
  assumed about the updates of a period, of which a node serves the best it knows at the time.
\<close>

definition canonical_bootstraps :: "'x light_client \<Rightarrow> ('w, 'x) beacon_env \<Rightarrow> bool" where
  "canonical_bootstraps lc env \<longleftrightarrow>
     (\<forall>cfg slot w block w1 v s v1.
        rpc_get_block env slot w = Some (Ok block, w1)
        \<and> inner_bootstrap env cfg (tree_hash_root lc block) v = Some (Ok s, v1)
        \<longrightarrow> beacon_slot (finalized_header s) = slot) \<and>
     (\<forall>cfg c w s w1 c' w' s' w1'.
        inner_bootstrap env cfg c w = Some (Ok s, w1) \<and> inner_bootstrap env cfg c' w' = Some (Ok s', w1')
        \<and> beacon_slot (finalized_header s) = beacon_slot (finalized_header s') \<longrightarrow> s = s')"

lemma bootstrap_from_checkpoint_Ok:
  assumes "bootstrap_from_checkpoint env_var env c w = Some (Ok client, w')"
  obtains fresh where "client_new env_var env = Ok fresh" "cl_config client = cl_config fresh"
    "inner_bootstrap env (cl_config fresh) c w = Some (Ok (cl_store client), w')"
  using assms by (auto simp: bootstrap_from_checkpoint_def outcome_simps)

lemma bootstrap_from_slot_Ok:
  assumes "bootstrap_from_slot env_var lc env slot w = Some (Ok client, w')"
  obtains block v w1 where "rpc_get_block env slot w = Some (Ok block, v)"
    "bootstrap_from_checkpoint env_var env (tree_hash_root lc block) w1 = Some (Ok client, w')"
  using assms
  by (auto simp: bootstrap_from_slot_def fetch_block_root_def outcome_simps b256_from_slice_def
      from_to_be_bytes split: if_splits)

text \<open>A client bootstrapped from a checkpoint is bootstrapped again from its own slot.\<close>

lemma bootstraps_agree:
  assumes "canonical_bootstraps lc env"
    and "bootstrap_from_checkpoint env_var env c w = Some (Ok client, w1)"
    and "bootstrap_from_slot env_var lc env (get_current_finalizer_header_beacon_slot client) v = Some (Ok client', v1)"
  shows "client' = client"
proof -
  from assms(2) obtain fresh where fresh: "client_new env_var env = Ok fresh" "cl_config client = cl_config fresh"
    and s: "inner_bootstrap env (cl_config fresh) c w = Some (Ok (cl_store client), w1)"
    by (rule bootstrap_from_checkpoint_Ok)
  from assms(3) obtain block b v0 where
    block: "rpc_get_block env (get_current_finalizer_header_beacon_slot client) v = Some (Ok block, b)"
    and "bootstrap_from_checkpoint env_var env (tree_hash_root lc block) v0 = Some (Ok client', v1)"
    by (rule bootstrap_from_slot_Ok)
  from this(2) fresh(1) have cfg: "cl_config client' = cl_config fresh"
    and s': "inner_bootstrap env (cl_config fresh) (tree_hash_root lc block) v0 = Some (Ok (cl_store client'), v1)"
    by (auto elim: bootstrap_from_checkpoint_Ok)
  from assms(1) block s' have "beacon_slot (finalized_header (cl_store client')) = get_current_finalizer_header_beacon_slot client"
    unfolding canonical_bootstraps_def by blast
  with assms(1) s s' have "cl_store client' = cl_store client"
    unfolding canonical_bootstraps_def get_current_finalizer_header_beacon_slot_def by metis
  with fresh(2) cfg show ?thesis by simp
qed

section \<open>The store of the cold start\<close>

text \<open>The head a process starts at is a cold start's, at the principal provider.\<close>

lemma process_start_is_cold:
  assumes "process_start st = Ok p" and "runtime_contract (st_head_runtime st)"
  obtains proxy s u where "consensus_http_proxy_from_env (st_env_var st) (st_parse_url st) = Ok proxy"
    and "cold_start_head (st_env_var st) (st_light_client st) (st_beacon st) (ch_principal_provider_url proxy)
           (el_current_slot (ls_loop (bp_loop p))) (el_store_hash (ls_loop (bp_loop p))) s u"
proof -
  from assms(1) obtain proxy slot h where proxy: "consensus_http_proxy_from_env (st_env_var st) (st_parse_url st) = Ok proxy"
    and head: "snd (get_latest_finality_slot_and_store_hash (st_head_runtime st) (st_env_var st)
        (st_light_client st) (st_beacon st) proxy) = Ok (slot, h)"
    and p: "el_current_slot (ls_loop (bp_loop p)) = slot" "el_store_hash (ls_loop (bp_loop p)) = h"
    by (auto simp: process_start_Ok event_loop_new_Ok loop_init_def new_event_loop_def)
  from head obtain t where "get_latest_finality_slot_and_store_hash (st_head_runtime st) (st_env_var st)
        (st_light_client st) (st_beacon st) proxy = (t, Ok (slot, h))"
    by (metis prod.collapse)
  from latest_head_from_principal [OF assms(2) this] proxy p that show ?thesis by blast
qed

text \<open>What a preparation makes of a head from the first update it is served itself.\<close>

definition rebuilds ::
  "'x light_client \<Rightarrow> 'x lc_store \<Rightarrow> u64 \<Rightarrow> 'x lc_update \<Rightarrow> 'x lc_update list \<Rightarrow> 'x consensus_proof_inputs \<Rightarrow> bool" where
  "rebuilds lc bootstrapped slot first rest inputs \<longleftrightarrow>
     (if beacon_slot (update_finalized_header first) < slot
      then cpi_store inputs = apply_update lc bootstrapped first \<and> cpi_updates inputs = rest
      else cpi_store inputs = synced_by lc bootstrapped first \<and> cpi_updates inputs = first # rest)"

lemma preparation_rebuilds:
  assumes "canonical_bootstraps lc env"
    and "cold_start_head env_var lc env w slot h s u"
    and "prepare_consensus_proof_inputs env_var lc env slot h v = Some (Ok inputs, v')"
  obtains vf first rest vu where
    "rpc_get_updates env (calc_sync_period env slot) 128 vf = Some (Ok (first # rest), vu)"
    "rebuilds lc s slot first rest inputs" "cpi_store_hash inputs = h"
proof -
  from assms(2) obtain c t client w1 where
    client: "bootstrap_from_checkpoint env_var env c (beacon_wait env t w) = Some (Ok client, w1)"
    and s: "cl_store client = s" and slot: "slot = get_current_finalizer_header_beacon_slot client"
    by (auto simp: cold_start_head_def get_current_finalizer_header_beacon_slot_def)
  from assms(3) obtain client' vc vf first rest vu where
    client': "bootstrap_from_slot env_var lc env slot v = Some (Ok client', vc)"
    and u: "get_updates env client' vf = Some (Ok (first # rest), vu)"
    and store: "synced_store lc client' (cpi_expected_current_slot inputs) slot first rest
       = Ok (cpi_store inputs, cpi_updates inputs)"
    and h: "cpi_store_hash inputs = h"
    by (rule prepare_consensus_proof_inputs_Ok)
  from bootstraps_agree [OF assms(1) client client' [unfolded slot]] have same: "client' = client" .
  from u same slot have "rpc_get_updates env (calc_sync_period env slot) 128 vf = Some (Ok (first # rest), vu)"
    by (simp add: get_updates_Ok get_current_finalizer_header_beacon_slot_def)
  moreover from store same s have "rebuilds lc s slot first rest inputs"
    by (simp add: rebuilds_def synced_store_Ok restored_from_synced split: if_splits)
  ultimately show ?thesis using h that by blast
qed

section \<open>The demonstration start\<close>

lemma slot_of_root: "(ucast (ucast slot :: b256) :: u64) = slot"
  by transfer (simp add: min_def)

lemma demo_start_canonical:
  "canonical_bootstraps demo_light_client (st_beacon (demo_start_env i))"
  by (auto simp: canonical_bootstraps_def demo_start_env_def demo_beacon_env_def demo_defs
      slot_of_root)

lemma demo_start_bootstrap_from_slot:
  "bootstrap_from_slot (demo_env_var(''HELIOS_POLLING_INTERVAL'' := i)) demo_light_client (st_beacon (demo_start_env i)) 32 w
   = Some (Ok \<lparr>cl_config = demo_config, cl_store = demo_store 32\<rparr>, Suc (Suc w))"
proof -
  have "fetch_block_root demo_light_client (st_beacon (demo_start_env i)) 32 w = Some (Ok 32, Suc w)"
    by (simp add: fetch_block_root_def io_bind_def io_of_def io_map_err_def b256_from_slice_def from_to_be_bytes)
      (simp add: demo_start_env_def demo_beacon_env_def demo_light_client_def io_of_def)
  then show ?thesis
    by (simp add: bootstrap_from_slot_def io_bind_def io_of_def demo_start_client demo_start_bootstrap)
qed

lemma demo_start_prepares:
  "prepare_consensus_proof_inputs (demo_env_var(''HELIOS_POLLING_INTERVAL'' := i)) demo_light_client
     (st_beacon (demo_start_env i)) 32 32 w = Some (Ok demo_consensus_inputs, Suc (Suc (Suc (Suc w))))"
proof -
  have fetch: "get_latest_finality_update (st_beacon (demo_start_env i)) v
      = Some (Ok \<lparr>finality_finalized_header = demo_header 64, finality_rest = 0\<rparr>, Suc v)"
    "get_updates (st_beacon (demo_start_env i)) c v = Some (Ok [demo_update], Suc v)"
    "client_expected_current_slot (st_beacon (demo_start_env i)) c v = 1000" for v c
    by (simp_all add: client_expected_current_slot_def get_latest_finality_update_def get_updates_def io_map_err_def
        demo_start_env_def demo_beacon_env_def Let_def)
  show ?thesis
    by (simp add: prepare_consensus_proof_inputs_def io_bind_def demo_start_bootstrap_from_slot fetch io_of_def
        demo_synced Let_def)
      (simp add: demo_consensus_inputs_def demo_inputs_def demo_config_def)
qed

section \<open>Properties\<close>

text \<open>C22: A preparation from the head a process starts at, by any provider and at any later time, starts from the
  very store the start bootstrapped.  The start hashed it with the sync committee and participant counts
  of the first update its principal served it then; the preparation restores those of the first update
  it is served itself, or, when that update lies before the head, applies it whole and drops it.  The
  program rejects the inputs for their store hash exactly when the store built so has another hash, and
  then the update lay before the head or brought other counts or another committee.\<close>

theorem first_preparation_rebuilds_cold_start:
  assumes "process_start st = Ok p" and "runtime_contract (st_head_runtime st)"
    and "canonical_bootstraps (st_light_client st) (st_beacon st)"
    and "slot = el_current_slot (ls_loop (bp_loop p))" and "h = el_store_hash (ls_loop (bp_loop p))"
    and "prepare_consensus_proof_inputs (st_env_var st) (st_light_client st) (st_beacon st) slot h w = Some (Ok inputs, w')"
  shows "\<exists>proxy s served v first rest v'.
     consensus_http_proxy_from_env (st_env_var st) (st_parse_url st) = Ok proxy
     \<and> cold_start_head (st_env_var st) (st_light_client st) (st_beacon st) (ch_principal_provider_url proxy) slot h s served
     \<and> rpc_get_updates (st_beacon st) (calc_sync_period (st_beacon st) slot) 128 v = Some (Ok (first # rest), v')
     \<and> (if beacon_slot (update_finalized_header first) < slot
        then cpi_store inputs = apply_update (st_light_client st) s first \<and> cpi_updates inputs = rest
        else cpi_store inputs = synced_by (st_light_client st) s first \<and> cpi_updates inputs = first # rest)
     \<and> ((\<exists>h1 h2. consensus_program (st_light_client st) inputs = Err (HashChainMismatch h1 h2))
         \<longleftrightarrow> (\<exists>h'. sha256_hash_helios_store (st_light_client st) (cpi_store inputs) = Ok h' \<and> h' \<noteq> h))
     \<and> ((\<exists>h1 h2. consensus_program (st_light_client st) inputs = Err (HashChainMismatch h1 h2))
         \<longrightarrow> beacon_slot (update_finalized_header first) < slot
             \<or> synced_by (st_light_client st) s first \<noteq> synced_by (st_light_client st) s served)"
proof -
  from assms(1,2) obtain proxy s served where
    proxy: "consensus_http_proxy_from_env (st_env_var st) (st_parse_url st) = Ok proxy"
    and cold: "cold_start_head (st_env_var st) (st_light_client st) (st_beacon st) (ch_principal_provider_url proxy) slot h s served"
    unfolding assms(4,5) by (rule process_start_is_cold)
  from preparation_rebuilds [OF assms(3) cold assms(6)] obtain v first rest v' where
    served: "rpc_get_updates (st_beacon st) (calc_sync_period (st_beacon st) slot) 128 v = Some (Ok (first # rest), v')"
    and store: "rebuilds (st_light_client st) s slot first rest inputs" and hash: "cpi_store_hash inputs = h" .
  from cold have "sha256_hash_helios_store (st_light_client st) (synced_by (st_light_client st) s served) = Ok h"
    by (auto simp: cold_start_head_def)
  with proxy cold served store hash show ?thesis
    by (intro exI [of _ proxy] exI [of _ s] exI [of _ served] exI [of _ v] exI [of _ first] exI [of _ rest] exI [of _ v'])
      (auto simp: rebuilds_def consensus_program_mismatch split: if_splits)
qed

theorem first_preparation_rebuilds_cold_start_witness:
  "\<exists>s served v first rest v'.
     sha256_hash_helios_store demo_light_client (synced_by demo_light_client s served) = Ok 32
     \<and> rpc_get_updates (st_beacon (demo_start_env None)) (calc_sync_period (st_beacon (demo_start_env None)) 32) 128 v
         = Some (Ok (first # rest), v')
     \<and> (if beacon_slot (update_finalized_header first) < 32
        then demo_store 32 = apply_update demo_light_client s first \<and> [demo_update] = rest
        else demo_store 32 = synced_by demo_light_client s first \<and> [demo_update] = first # rest)"
proof -
  let ?st = "demo_start_env None" and ?p = "demo_process None"
  have parts: "st_light_client ?st = demo_light_client" "st_env_var ?st = demo_env_var(''HELIOS_POLLING_INTERVAL'' := None)"
    by (simp_all add: demo_start_env_def demo_startup_def)
  have head: "32 = el_current_slot (ls_loop (bp_loop ?p))" "32 = el_store_hash (ls_loop (bp_loop ?p))"
    by (simp_all add: demo_process_def loop_init_def new_event_loop_def)
  have rt: "runtime_contract (st_head_runtime ?st)"
    by (simp add: demo_start_env_def demo_startup_def ideal_runtime_contract)
  have prepared: "prepare_consensus_proof_inputs (st_env_var ?st) (st_light_client ?st) (st_beacon ?st) 32 32 0
      = Some (Ok demo_consensus_inputs, 4)"
    using demo_start_prepares [of None 0] by (simp add: parts numeral_eq_Suc)
  have canonical: "canonical_bootstraps (st_light_client ?st) (st_beacon ?st)"
    by (simp add: parts demo_start_canonical)
  have inputs: "cpi_store demo_consensus_inputs = demo_store 32" "cpi_updates demo_consensus_inputs = [demo_update]"
    by (simp_all add: demo_consensus_inputs_def demo_inputs_def)
  from first_preparation_rebuilds_cold_start [OF demo_process_starts rt canonical head prepared]
  obtain w s served v first rest v' where
    cold: "cold_start_head (st_env_var ?st) demo_light_client (st_beacon ?st) w 32 32 s served"
    and v: "rpc_get_updates (st_beacon ?st) (calc_sync_period (st_beacon ?st) 32) 128 v = Some (Ok (first # rest), v')"
    and store: "if beacon_slot (update_finalized_header first) < 32
        then demo_store 32 = apply_update demo_light_client s first \<and> [demo_update] = rest
        else demo_store 32 = synced_by demo_light_client s first \<and> [demo_update] = first # rest"
    unfolding parts(1) inputs by auto
  from cold have "sha256_hash_helios_store demo_light_client (synced_by demo_light_client s served) = Ok 32"
    by (auto simp: cold_start_head_def)
  with v store show ?thesis by blast
qed

end
