(* ===== verification/Preparation_Failures.thy ===== *)
theory Preparation_Failures
  imports Execution_Http
begin

text \<open>
  How \<open>_prepare_consensus_mpt_proof_inputs\<close> of \<open>rpcs/execution/http.rs\<close> ends, one case per kind of
  failure: a chunk of logs given up after its retries, a failed proof query, a dry run that returns an
  error or does not return.  The inputs it is called with have passed the native run of the consensus
  program, so the dry run can only fail on the storage it was given.
\<close>

section \<open>Events\<close>

text \<open>Four failed queries for the same chunk, with the delays between them; the last error is kept.\<close>

definition chunk_given_up ::
  "('w, 'l) exec_env \<Rightarrow> address \<Rightarrow> u64 \<Rightarrow> u64 \<Rightarrow> 'w \<Rightarrow> string \<Rightarrow> 'w \<Rightarrow> bool" where
  "chunk_given_up env a s e w msg w' \<longleftrightarrow>
     (let query = get_logs env a (tokens_locked_signature env) s e
      in \<exists>e1 w1 e2 w2 e3 w3. query w = Some (Err e1, w1) \<and> query (sleep env 1 w1) = Some (Err e2, w2)
         \<and> query (sleep env 2 w2) = Some (Err e3, w3) \<and> query (sleep env 4 w3) = Some (Err msg, w'))"

lemma chunk_query_fails [outcome_simps]:
  "get_source_contract_event_chunk env a s e w = Some (Err err, w') \<longleftrightarrow>
     (\<exists>msg. err = LogsRpcError msg \<and> get_logs env a (tokens_locked_signature env) s e w = Some (Err msg, w'))"
  by (auto simp: get_source_contract_event_chunk_def outcome_simps)

lemma fetch_gives_up:
  "fetch_chunk_with_retries env a s e 0 w = Some (Err err, w') \<longleftrightarrow>
     (\<exists>msg. err = LogsRpcError msg \<and> chunk_given_up env a s e w msg w')"
  by (simp add: fetch_chunk_fails chunk_query_fails chunk_given_up_def Let_def) blast

lemma events_from_Err:
  "get_source_contract_events_from env a cur hi acc w = Some (Err err, w') \<Longrightarrow>
     \<exists>s e v msg. unat cur \<le> unat s \<and> unat s \<le> unat e \<and> unat e \<le> unat hi \<and> unat e \<le> unat s + 100
       \<and> err = LogsRpcError msg \<and> chunk_given_up env a s e v msg w'"
proof (induction env a cur hi acc w rule: get_source_contract_events_from.induct)
  case (1 env a cur hi acc w)
  show ?case
  proof (cases "cur \<le> hi")
    case True
    with "1.prems" obtain far where
      far: "(checked_add cur CHUNK_SIZE :: (http_error, u64) outcome) = Ok far"
      by (subst (asm) get_source_contract_events_from.simps) (auto split: outcome.splits)
    let ?e = "min far hi"
    have size: "unat far = unat cur + 100"
      using far by (auto simp: checked_add_def CHUNK_SIZE_def unat_word_ariths split: if_splits)
    with True have within: "unat cur \<le> unat ?e" "unat ?e \<le> unat hi" "unat ?e \<le> unat cur + 100"
      by (auto simp: min_def word_le_nat_alt)
    from "1.prems" True far consider
      "fetch_chunk_with_retries env a cur ?e 0 w = Some (Err err, w')"
    | evs w1 nxt where "fetch_chunk_with_retries env a cur ?e 0 w = Some (Ok evs, w1)"
        "(checked_add ?e 1 :: (http_error, u64) outcome) = Ok nxt"
        "get_source_contract_events_from env a nxt hi (acc @ evs) w1 = Some (Err err, w')"
      by (subst (asm) get_source_contract_events_from.simps)
        (auto simp: Let_def split: outcome.splits option.splits)
    then show ?thesis
    proof cases
      case 1
      with within show ?thesis unfolding fetch_gives_up by blast
    next
      case (2 evs w1 nxt)
      from chunk_progress(2) [OF True far 2(2)] within have "unat cur \<le> unat nxt" by simp
      moreover from "1.IH" [OF True far refl 2(1) refl refl 2(2,3)] obtain s e v msg where
        "unat nxt \<le> unat s" "unat s \<le> unat e" "unat e \<le> unat hi" "unat e \<le> unat s + 100"
        "err = LogsRpcError msg" "chunk_given_up env a s e v msg w'"
        by blast
      ultimately show ?thesis by (intro exI [of _ s] exI [of _ e] exI [of _ v] exI [of _ msg]) simp
    qed
  next
    case False
    with "1.prems" show ?thesis by (simp add: get_source_contract_events_from.simps [of env a cur])
  qed
qed

section \<open>The dry run\<close>

text \<open>On inputs whose consensus part succeeds, the full program is the verification of the storage.\<close>

lemma dry_run_is_storage_verification:
  assumes "consensus_program lc (forget_storage i) = Ok co"
  shows "consensus_mpt_program lc env i dbg =
     and_then (map_err ProgramMptError
                 (verify_storage_slot_proofs env (co_execution_state_root co) (pi_contract_storage i)))
       (\<lambda>r. Ok (mpt_outputs co r))"
proof -
  from assms obtain s' ex h where r: "reaches lc (forget_storage i) s'" "execution (finalized_header s') = Some ex"
    "sha256_hash_helios_store lc s' = Ok h" "co = consensus_outputs lc (forget_storage i) s' ex h"
    by (auto simp: consensus_program_Ok)
  then show ?thesis
    by (auto simp: consensus_mpt_program_def Let_def hash_store_or_def reaches_def outcome_simps
        process_events_Ok [where n = 0] consensus_outputs_def mpt_outputs_def forget_storage_def
        split: outcome.splits)
qed

text \<open>The storage errors prepared inputs can meet: a mapping error is not among them.\<close>

definition refused_storage ::
  "'m mpt_env \<Rightarrow> account_proof_response \<Rightarrow> storage_slot list \<Rightarrow> program_error \<Rightarrow> bool" where
  "refused_storage mpt r slots e \<longleftrightarrow>
     (\<exists>msg. e = ProgramMptError (InvalidAccountProof (ap_address r) msg))
     \<or> (\<exists>slot \<in> set slots. \<exists>msg. e = ProgramMptError (InvalidStorageSlotProof (ss_key slot) msg))
     \<or> (\<exists>depth. e = ProgramMptError (ExceedsMaxTreeDepth (length slots) depth (MAX_TREE_DEPTH mpt))
           \<and> MAX_TREE_DEPTH mpt < depth)"

lemma mapped_slot_error:
  assumes "slot_error mpt root slot me" and "slot_mapped mpt slot" and "fp_accepts_canonical mpt"
  shows "\<exists>msg. me = InvalidStorageSlotProof (ss_key slot) msg"
proof -
  from hash_storage_slot_total [OF assms(3)] have "\<nexists>msg. hash_storage_slot mpt a v = Err msg" for a v
    by (metis outcome.distinct(1))
  with assms(1,2) show ?thesis
    by (auto simp: slot_error_def slot_mapped_def Let_def split: option.splits)
qed

lemma mapped_storage_error:
  assumes "storage_error mpt root (pi_contract_storage (assemble_proof_inputs cpi r slots)) me"
    and "\<And>slot. slot \<in> set slots \<Longrightarrow> slot_mapped mpt slot" and "fp_accepts_canonical mpt"
  shows "refused_storage mpt r slots (ProgramMptError me)"
  using assms(1)
  by (auto simp: storage_error_def Let_def refused_storage_def assembled_slots(2) [symmetric]
      dest!: mapped_slot_error [OF _ assms(2,3)]
      split: option.splits if_splits)

section \<open>The outcome of a preparation\<close>

text \<open>The data the dry run is made on.\<close>

lemma prepare_Err:
  assumes "prepare_mpt_proof_inputs_from env lc mpt dbg a lo hi cpi w = Some (Err err, w')"
  obtains
    (events) "get_source_contract_events_of env a lo hi w = Some (Err err, w')"
  | (slots_of) events w1 m msg where "get_source_contract_events_of env a lo hi w = Some (Ok events, w1)"
      "addresses_attestation_pair_to_storage_slots (keccak256 mpt) events = (Ok m :: (http_error, _) outcome)"
      "get_proof env a (hash_map_keys env m) hi w1 = Some (Err msg, w')" "err = ExecutionHttpRpcError msg"
  | (dry) events r slots result where "prepared_from env mpt a hi events r slots"
      "result = consensus_mpt_program lc mpt (assemble_proof_inputs cpi r (sort_key ss_slot_key_address slots)) dbg"
      "result = Panic \<and> err = DryRunJoinError \<or> (\<exists>e. result = Err e \<and> err = DryRunFailed e)"
proof -
  have no_err: "addresses_attestation_pair_to_storage_slots (keccak256 mpt) events \<noteq> (Err e :: (http_error, _) outcome)" for events e
    using slot_map [of "keccak256 mpt" events, where ?'e = http_error] by (metis outcome.distinct(1))
  from assms consider "get_source_contract_events_of env a lo hi w = Some (Err err, w')"
  | events w1 m where "get_source_contract_events_of env a lo hi w = Some (Ok events, w1)"
      "addresses_attestation_pair_to_storage_slots (keccak256 mpt) events = (Ok m :: (http_error, _) outcome)"
      "get_proof_at env a (hash_map_keys env m) hi w1 = Some (Err err, w')"
  | events w1 m r w2 slots where
      "addresses_attestation_pair_to_storage_slots (keccak256 mpt) events = (Ok m :: (http_error, _) outcome)"
      "get_proof env a (hash_map_keys env m) hi w1 = Some (Ok r, w2)"
      "list_all2 (slot_from m) (ap_storage_proof r) slots"
      "spawn_blocking (run_blocking env) DryRunJoinError DryRunFailed (consensus_mpt_program lc mpt
         (assemble_proof_inputs cpi r (sort_key ss_slot_key_address slots)) dbg) w2 = Some (Err err, w')"
    by (auto simp: prepare_mpt_proof_inputs_from_def outcome_simps get_proof_at_def Let_def no_err
        collect_storage_slots_Ok)
  then show ?thesis
  proof cases
    case 1
    then show ?thesis by (rule events)
  next
    case (2 events w1 m)
    then show ?thesis by (auto simp: get_proof_at_def outcome_simps intro: slots_of)
  next
    case (3 events w1 m r w2 slots)
    from slot_map_Ok(1,2) [OF 3(1)] 3(2,3) have "prepared_from env mpt a hi events r slots"
      unfolding prepared_from_def by blast
    from this refl show ?thesis
      by (rule dry) (use 3(4) in \<open>auto simp: outcome_simps\<close>)
  qed
qed

lemma dry_run_refuses_storage:
  assumes "consensus_program lc cpi = Ok co" and "fp_accepts_canonical mpt"
    and "prepared_from env mpt a hi events r slots"
    and "consensus_mpt_program lc mpt (assemble_proof_inputs cpi r (sort_key ss_slot_key_address slots)) dbg = Err e"
  shows "refused_storage mpt r slots e"
proof -
  let ?i = "assemble_proof_inputs cpi r (sort_key ss_slot_key_address slots)"
  from assms(1,4) obtain me where e: "e = ProgramMptError me"
    and "verify_storage_slot_proofs mpt (co_execution_state_root co) (pi_contract_storage ?i) = Err me"
    using dry_run_is_storage_verification [of lc ?i co mpt dbg] by (auto simp: outcome_simps)
  from this(2) have "refused_storage mpt r (sort_key ss_slot_key_address slots) (ProgramMptError me)"
    using prepared_slots_of_users [OF assms(3)] assms(2)
    by (intro mapped_storage_error) (auto simp: verify_storage_slot_proofs_Err)
  then show ?thesis by (simp add: refused_storage_def e)
qed

lemma dry_run_returns:
  assumes "consensus_program lc cpi = Ok co"
    and "\<forall>bs. fp_from_bytes mpt bs \<noteq> Panic" and "\<forall>x. length (fp_to_bytes mpt x) = 32"
  shows "consensus_mpt_program lc mpt (assemble_proof_inputs cpi r slots) dbg \<noteq> Panic"
  using assms dry_run_is_storage_verification [of lc "assemble_proof_inputs cpi r slots" co mpt dbg]
  by (auto simp: outcome_simps verify_storage_slot_proofs_not_Panic)

section \<open>A provider that cannot prove\<close>

definition proofless_exec_env :: "(nat, tokens_locked) exec_env" where
  "proofless_exec_env = demo_exec_env\<lparr>get_proof := \<lambda>a ks b w. Some (Err ''pruned'', Suc w)\<rparr>"

lemma proofless_returns: "calls_return proofless_exec_env" "proofs_as_requested proofless_exec_env"
  by (auto simp: calls_return_def proofs_as_requested_def proofless_exec_env_def demo_exec_env_def)

lemma proofless_prepares:
  "prepare_mpt_proof_inputs_from proofless_exec_env demo_light_client demo_mpt_env dbg (Address 3) 1032 1064
     demo_consensus_inputs w = Some (Err (ExecutionHttpRpcError ''pruned''), Suc (Suc w))"
proof -
  have "get_source_contract_event_chunk proofless_exec_env a s e w =
      Some (Ok (if unat s \<le> 1050 \<and> 1050 \<le> unat e then [demo_event] else []), Suc w)" for a s e w
    by (simp add: get_source_contract_event_chunk_def proofless_exec_env_def demo_exec_env_def io_bind_def
        io_map_err_def io_of_def)
  then have events: "get_source_contract_events_of proofless_exec_env a 1032 1064 w = Some (Ok [demo_event], Suc w)" for a
    by (simp add: get_source_contract_events_of_def get_source_contract_events_from.simps checked_add_def
        CHUNK_SIZE_def fetch_chunk_with_retries.simps min_def)
  obtain m where "addresses_attestation_pair_to_storage_slots (keccak256 demo_mpt_env) [demo_event]
      = (Ok m :: (http_error, _) outcome)"
    by (rule slot_map)
  with events show ?thesis
    by (simp add: prepare_mpt_proof_inputs_from_def io_bind_def io_of_def get_proof_at_def io_map_err_def)
      (simp add: proofless_exec_env_def)
qed

section \<open>Properties\<close>

text \<open>C17: A preparation on validated inputs, away from the end of the 64-bit block range, ends in one of four
  ways: inputs that pass the native run; the last error of a chunk of the range queried four times, 1, 2
  and 4 seconds apart; the error of the one proof query, made for the slots of all depositors; or a dry
  run that refuses the answered storage for the account's proof, the proof of one of the slots, or more
  slots than a tree can hold.  It never panics, and neither the consensus part nor the mapping of a
  slot to its depositor is ever refused.\<close>

theorem preparation_failures_classified:
  assumes "calls_return env" and "proofs_as_requested env" and "unat hi + 100 < 2 ^ 64"
    and "fp_accepts_canonical mpt" and "\<forall>bs. fp_from_bytes mpt bs \<noteq> Panic" and "\<forall>x. length (fp_to_bytes mpt x) = 32"
    and "consensus_program lc cpi = Ok co"
    and "prepare_mpt_proof_inputs_from env lc mpt dbg a lo hi cpi w = Some (result, w')"
  shows "(\<exists>inputs out. result = Ok inputs \<and> consensus_mpt_program lc mpt inputs dbg = Ok out)
    \<or> (\<exists>s e v msg. result = Err (LogsRpcError msg) \<and> unat lo \<le> unat s \<and> unat s \<le> unat e \<and> unat e \<le> unat hi
          \<and> unat e \<le> unat s + 100 \<and> chunk_given_up env a s e v msg w')
    \<or> (\<exists>events w1 keys msg. result = Err (ExecutionHttpRpcError msg)
          \<and> get_source_contract_events_of env a lo hi w = Some (Ok events, w1)
          \<and> set keys = locked_tokens_slot (keccak256 mpt) ` tl_user ` set events
          \<and> get_proof env a keys hi w1 = Some (Err msg, w'))
    \<or> (\<exists>events r slots e. result = Err (DryRunFailed e) \<and> prepared_from env mpt a hi events r slots
          \<and> refused_storage mpt r slots e)"
proof (cases result)
  case (Ok inputs)
  with assms(8) show ?thesis by (auto elim!: prepare_Ok)
next
  case Panic
  from assms(3) have "unat hi + unat CHUNK_SIZE < 2 ^ 64" by (simp add: CHUNK_SIZE_def)
  from prepare_not_Panic [OF assms(1,2) this, of lc mpt dbg a lo cpi w w'] assms(8) Panic show ?thesis by simp
next
  case (Err err)
  from assms(8) [unfolded Err] show ?thesis
  proof (cases rule: prepare_Err)
    case events
    from events_from_Err [OF this [unfolded get_source_contract_events_of_def]] obtain s e v msg where
      "unat lo \<le> unat s" "unat s \<le> unat e" "unat e \<le> unat hi" "unat e \<le> unat s + 100"
      "err = LogsRpcError msg" "chunk_given_up env a s e v msg w'"
      by blast
    with Err show ?thesis
      by (intro disjI2 disjI1 exI [of _ s] exI [of _ e] exI [of _ v] exI [of _ msg]) simp
  next
    case (slots_of events w1 m msg)
    from slot_map_Ok [OF slots_of(2)] assms(2)
    have "set (hash_map_keys env m) = locked_tokens_slot (keccak256 mpt) ` tl_user ` set events"
      by (simp add: proofs_as_requested_def)
    with slots_of Err show ?thesis
      by (intro disjI2 disjI1 exI [of _ events] exI [of _ w1] exI [of _ "hash_map_keys env m"] exI [of _ msg]) simp
  next
    case (dry events r slots result)
    with dry_run_returns [OF assms(7,5,6)] obtain e where "result = Err e" "err = DryRunFailed e" by metis
    with dry_run_refuses_storage [OF assms(7,4) dry(1)] dry(1,2) Err show ?thesis
      by (intro disjI2 exI [of _ events] exI [of _ r] exI [of _ slots] exI [of _ e]) simp
  qed
qed

theorem preparation_failures_classified_witness:
  "\<exists>events w1 keys. get_source_contract_events_of proofless_exec_env (Address 3) 1032 1064 0 = Some (Ok events, w1)
     \<and> set keys = locked_tokens_slot (keccak256 demo_mpt_env) ` tl_user ` set events
     \<and> get_proof proofless_exec_env (Address 3) keys 1064 w1 = Some (Err ''pruned'', 2)"
proof -
  have "prepare_mpt_proof_inputs_from proofless_exec_env demo_light_client demo_mpt_env True (Address 3) 1032 1064
      demo_consensus_inputs 0 = Some (Err (ExecutionHttpRpcError ''pruned''), 2)"
    using proofless_prepares [of True 0] by (simp add: numeral_eq_Suc)
  from preparation_failures_classified [OF proofless_returns _ demo_fp_accepts _ _ demo_consensus_run this]
  show ?thesis using demo_never_panics by simp
qed

end
