(* ===== verification/Detector_Liveness.thy ===== *)
theory Detector_Liveness
  imports Finality_Detector
begin

text \<open>
  What the detector can always do.  Safety of the detector is in \<open>Finality_Detector\<close>; here, runs are
  constructed: while the actor lives and the output is read, whatever is in flight can be finished, the
  stale mark cleared, and then any answer that is ahead is emitted.
\<close>

section \<open>Runs of one round\<close>

text \<open>A state of a round, over a state that supplies the rest; the output has been taken.\<close>

definition phase ::
  "('e, 'x) system \<Rightarrow> detector \<Rightarrow> job_input list \<Rightarrow> actor_state
   \<Rightarrow> ('e, 'x dual_proof_inputs_with_window) outcome list \<Rightarrow> 'x log_entry list \<Rightarrow> ('e, 'x) system"
where
  "phase s d jobs a results l =
     \<lparr>det = d, job_queue = jobs, actor = a, result_queue = results, stage_queue = stage_queue s,
      advance_queue = advance_queue s, output_queue = [], output_open = output_open s,
      running = running s, log = l\<rparr>"

definition attended :: "('e, 'x) system \<Rightarrow> bool" where
  "attended s \<longleftrightarrow> running s \<and> output_open s"

lemma phase_simps [simp]:
  "det (phase s d jobs a results l) = d" "job_queue (phase s d jobs a results l) = jobs"
  "actor (phase s d jobs a results l) = a" "result_queue (phase s d jobs a results l) = results"
  "output_queue (phase s d jobs a results l) = []" "log (phase s d jobs a results l) = l"
  "running (phase s d jobs a results l) = running s" "output_open (phase s d jobs a results l) = output_open s"
  "attended (phase s d jobs a results l) = attended s"
  by (simp_all add: phase_def attended_def)

lemma steps_drain: "attended s \<Longrightarrow> steps Prep s (s\<lparr>output_queue := []\<rparr>)"
proof (induction "output_queue s" arbitrary: s)
  case (Cons o' os)
  then have "system_step Prep s (s\<lparr>output_queue := os\<rparr>)"
    by (intro take_output [where o' = o']) (auto simp: attended_def)
  moreover have "steps Prep (s\<lparr>output_queue := os\<rparr>) (s\<lparr>output_queue := []\<rparr>)"
    using Cons(1) [of "s\<lparr>output_queue := os\<rparr>"] Cons(3) by (simp add: attended_def)
  ultimately show ?case by (blast intro: leads_to_trans steps_one)
next
  case Nil
  then have "s\<lparr>output_queue := []\<rparr> = s" by simp
  then show ?case by (simp add: leads_to_refl)
qed

lemma steps_to_phase:
  "attended s \<Longrightarrow> steps Prep s (phase s (det s) (job_queue s) (actor s) (result_queue s) (log s))"
  using steps_drain [of s Prep] by (cases s) (simp add: phase_def)

lemma phase_tick:
  assumes "attended s" and "\<not> d_in_flight d"
  shows "steps Prep (phase s d [] ActorIdle [] l)
           (phase s (d\<lparr>d_in_flight := True\<rparr>) [current_job d] ActorIdle [] l)"
proof -
  let ?s = "phase s d [] ActorIdle [] l"
  have r: "on_tick (actor ?s \<noteq> ActorStopped) (det ?s)
      = Continue (d\<lparr>d_in_flight := True\<rparr>) (Some (current_job d)) None"
    using assms(2) by (simp add: on_tick_eq)
  have "system_step Prep ?s (react ?s (Continue (d\<lparr>d_in_flight := True\<rparr>) (Some (current_job d)) None))"
    using assms(1) by (intro tick) (simp_all only: r, simp_all add: reaction_fits_def CHANNEL_CAPACITY_def attended_def)
  then show ?thesis by (intro steps_one) (simp add: react_def phase_def)
qed

lemma phase_work:
  assumes "attended s" and "prepare \<in> Prep" and "validate_and_prepare_job prepare j \<noteq> Panic"
  shows "steps Prep (phase s d [] (ActorWorking j) [] l)
           (phase s d [] ActorIdle [validate_and_prepare_job prepare j] l)"
  using actor_done [of "phase s d [] (ActorWorking j) [] l" j prepare Prep] assms
  by (intro steps_one) (simp add: phase_def CHANNEL_CAPACITY_def attended_def)

lemma phase_job:
  assumes "attended s" and "prepare \<in> Prep" and "validate_and_prepare_job prepare j \<noteq> Panic"
  shows "steps Prep (phase s d [j] ActorIdle [] l)
           (phase s d [] ActorIdle [validate_and_prepare_job prepare j] l)"
proof -
  have "system_step Prep (phase s d [j] ActorIdle [] l) (phase s d [] (ActorWorking j) [] l)"
    using actor_recv [of "phase s d [j] ActorIdle [] l" j "[]" Prep] assms(1)
    by (simp add: phase_def attended_def)
  from leads_to_trans [OF phase_work [OF assms] steps_one [OF this]] show ?thesis .
qed

text \<open>Handling the one result; an emission is taken from the output at once.\<close>

lemma phase_result:
  fixes r :: "('e, 'x dual_proof_inputs_with_window) outcome"
  assumes "attended s" and "on_result True True r d = Continue d' job out"
  shows "steps Prep (phase s d [] ActorIdle [r] l)
           (phase s d' (case job of Some j \<Rightarrow> [j] | None \<Rightarrow> []) ActorIdle []
             (l @ (case out of Some dual \<Rightarrow> [LogEmit d dual] | None \<Rightarrow> [])))"
proof -
  let ?s = "phase s d [] ActorIdle [r] l"
  let ?t = "react (?s\<lparr>result_queue := []\<rparr>) (Continue d' job out)"
  have r: "on_result (actor ?s \<noteq> ActorStopped) (output_open ?s) r (det ?s) = Continue d' job out"
    using assms by (simp add: attended_def)
  have "system_step Prep ?s ?t"
    using assms(1) by (intro recv_result [where r = r])
      (simp_all only: r, simp_all add: reaction_fits_def CHANNEL_CAPACITY_def attended_def)
  moreover have "steps Prep ?t (?t\<lparr>output_queue := []\<rparr>)"
    using assms(1) by (intro steps_drain) (simp add: attended_def)
  ultimately have "steps Prep ?s (?t\<lparr>output_queue := []\<rparr>)"
    by (rule leads_to_trans [OF _ steps_one, rotated])
  moreover have "?t\<lparr>output_queue := []\<rparr> = phase s d' (case job of Some j \<Rightarrow> [j] | None \<Rightarrow> []) ActorIdle []
      (l @ (case out of Some dual \<Rightarrow> [LogEmit d dual] | None \<Rightarrow> []))"
    by (cases job; cases out) (simp_all add: react_def phase_def)
  ultimately show ?thesis by simp
qed

section \<open>Settling\<close>

text \<open>Preparation can succeed for every job.\<close>

definition willing :: "('e, 'x) preparer set \<Rightarrow> bool" where
  "willing Prep \<longleftrightarrow> (\<forall>j. \<exists>prepare \<in> Prep. is_ok (validate_and_prepare_job prepare j))"

text \<open>A run to a state where nothing is in flight or stale, and the windows are those of \<open>d\<close>.\<close>

definition settles :: "('e, 'x) preparer set \<Rightarrow> detector \<Rightarrow> ('e, 'x) system \<Rightarrow> bool" where
  "settles Prep d s \<longleftrightarrow> (\<exists>d' l'. steps Prep s (phase s d' [] ActorIdle [] l') \<and> \<not> d_in_flight d' \<and> \<not> d_stale d'
     \<and> d_slot d' = d_slot d \<and> d_store_hash d' = d_store_hash d
     \<and> d_next_expected_output d' = d_next_expected_output d)"

lemma settles_trans:
  assumes "steps Prep s (phase s' d1 jobs a results l)"
    and "settles Prep d1 (phase s' d1 jobs a results l)"
    and "stage_queue s' = stage_queue s" "advance_queue s' = advance_queue s" "running s' = running s"
      "output_open s' = output_open s"
    and "d_slot d1 = d_slot d" "d_store_hash d1 = d_store_hash d"
      "d_next_expected_output d1 = d_next_expected_output d"
  shows "settles Prep d s"
proof -
  have again: "phase (phase s' d1 jobs a results l) d' jobs' a' results' l' = phase s d' jobs' a' results' l'"
    for d' jobs' a' results' l' using assms(3-6) by (simp add: phase_def)
  from assms(2,7-) show ?thesis
    unfolding settles_def again by (metis assms(1) leads_to_trans)
qed

lemma settles_phase:
  assumes "steps Prep (phase s d jobs a results l) (phase s d1 jobs' a' results' l')"
    and "settles Prep d1 (phase s d1 jobs' a' results' l')"
    and "d_slot d1 = d_slot d" "d_store_hash d1 = d_store_hash d"
      "d_next_expected_output d1 = d_next_expected_output d"
  shows "settles Prep d (phase s d jobs a results l)"
  by (rule settles_trans [OF assms(1,2) _ _ _ _ assms(3-)]) (simp_all add: phase_def)

lemma settles_fresh_result:
  assumes "attended s" and "\<not> d_stale d"
  shows "settles Prep d (phase s d [] ActorIdle [r] l)"
proof -
  have "\<exists>d' out. on_result True True r d = Continue d' None out \<and> \<not> d_in_flight d' \<and> \<not> d_stale d'
      \<and> d_slot d' = d_slot d \<and> d_store_hash d' = d_store_hash d
      \<and> d_next_expected_output d' = d_next_expected_output d"
    using assms(2) by (cases rule: on_result_cases [where job_open = True and out_open = True and r = r and d = d]) auto
  then obtain d' out where r: "on_result True True r d = Continue d' None out" and d': "\<not> d_in_flight d'" "\<not> d_stale d'"
      "d_slot d' = d_slot d" "d_store_hash d' = d_store_hash d" "d_next_expected_output d' = d_next_expected_output d"
    by blast
  show ?thesis
    unfolding settles_def using phase_result [OF assms(1) r, of Prep l] d' by (auto simp: phase_def)
qed

lemma willing_job:
  assumes "attended s" and "willing Prep"
  obtains r where "is_ok r" and "steps Prep (phase s d [j] ActorIdle [] l) (phase s d [] ActorIdle [r] l)"
    and "steps Prep (phase s d [] (ActorWorking j) [] l) (phase s d [] ActorIdle [r] l)"
proof -
  from assms(2) obtain prepare where "prepare \<in> Prep" "is_ok (validate_and_prepare_job prepare j)"
    unfolding willing_def by blast
  then show ?thesis
    using phase_job [OF assms(1), of prepare Prep j] phase_work [OF assms(1), of prepare Prep j]
    by (intro that [of "validate_and_prepare_job prepare j"]) (auto simp: is_ok_iff)
qed


lemma settles_stale_ok:
  assumes "attended s" and "willing Prep" and "d_stale d" and "is_ok r"
  shows "settles Prep d (phase s d [] ActorIdle [r] l)"
proof -
  let ?d = "d\<lparr>d_in_flight := True, d_stale := False\<rparr>"
  have "on_result True True r d = Continue ?d (Some (current_job d)) None"
    using assms(3,4) by (simp add: on_result_starts)
  from phase_result [OF assms(1) this, of Prep l]
  have restart: "steps Prep (phase s d [] ActorIdle [r] l) (phase s ?d [current_job d] ActorIdle [] l)" by simp
  obtain r' where "steps Prep (phase s ?d [current_job d] ActorIdle [] l) (phase s ?d [] ActorIdle [r'] l)"
    using willing_job [OF assms(1,2)] by metis
  from settles_phase [OF leads_to_trans [OF this restart] settles_fresh_result [OF assms(1)]]
  show ?thesis by simp
qed

lemma settles_job:
  assumes "attended s" and "willing Prep"
  shows "settles Prep d (phase s d [j] ActorIdle [] l)" and "settles Prep d (phase s d [] (ActorWorking j) [] l)"
proof -
  obtain r where ok: "is_ok r"
    and runs: "steps Prep (phase s d [j] ActorIdle [] l) (phase s d [] ActorIdle [r] l)"
      "steps Prep (phase s d [] (ActorWorking j) [] l) (phase s d [] ActorIdle [r] l)"
    by (rule willing_job [OF assms])
  have settled: "settles Prep d (phase s d [] ActorIdle [r] l)"
    using settles_stale_ok [OF assms _ ok] settles_fresh_result [OF assms(1)] by (cases "d_stale d") auto
  show "settles Prep d (phase s d [j] ActorIdle [] l)" and "settles Prep d (phase s d [] (ActorWorking j) [] l)"
    by (rule settles_phase [OF runs(1) settled], simp_all) (rule settles_phase [OF runs(2) settled], simp_all)
qed

lemma settles_idle:
  assumes "attended s" and "willing Prep" and "\<not> d_in_flight d"
  shows "settles Prep d (phase s d [] ActorIdle [] l)"
  by (rule settles_phase [OF phase_tick [OF assms(1,3)] settles_job(1) [OF assms(1,2)]]) simp_all

lemma settles_result:
  assumes "attended s" and "willing Prep"
  shows "settles Prep d (phase s d [] ActorIdle [r] l)"
proof (cases "d_stale d \<and> \<not> is_ok r")
  case True
  let ?d = "d\<lparr>d_in_flight := False\<rparr>"
  from True have "on_result True True r d = Continue ?d None None"
    by (cases r) (simp_all add: on_result_def Let_def)
  from phase_result [OF assms(1) this, of Prep l]
  have "steps Prep (phase s d [] ActorIdle [r] l) (phase s ?d [] ActorIdle [] l)" by simp
  from settles_phase [OF this settles_idle [OF assms]] show ?thesis by simp
next
  case False
  then show ?thesis using settles_stale_ok [OF assms] settles_fresh_result [OF assms(1)] by blast
qed

lemma single_flight_settles:
  assumes "attended s" and "willing Prep" and "single_flight s" and "actor s \<noteq> ActorStopped"
  shows "settles Prep (det s) s"
proof -
  let ?p = "phase s (det s) (job_queue s) (actor s) (result_queue s) (log s)"
  from assms(3,4) consider
      "\<not> d_in_flight (det s)" "job_queue s = []" "actor s = ActorIdle" "result_queue s = []"
    | j where "job_queue s = [j]" "actor s = ActorIdle" "result_queue s = []"
    | j where "job_queue s = []" "actor s = ActorWorking j" "result_queue s = []"
    | r where "job_queue s = []" "actor s = ActorIdle" "result_queue s = [r]"
    by (cases "actor s"; cases "job_queue s"; cases "result_queue s")
      (auto simp: single_flight_def pending_def working_def split: if_splits)
  then have "settles Prep (det s) ?p"
    using settles_idle [OF assms(1,2)] settles_job [OF assms(1,2)] settles_result [OF assms(1,2)]
    by cases auto
  from settles_trans [OF steps_to_phase [OF assms(1)] this] show ?thesis by simp
qed

text \<open>From a settled state, an answer that is ahead is emitted.\<close>

lemma settled_emits:
  assumes "attended s" and "\<not> d_in_flight d" and "\<not> d_stale d"
    and "answers Prep (current_job d) dual" and "w_input_slot (current_window dual) = d_slot d"
    and "ahead (d_latest_slot d) dual"
  shows "\<exists>u. steps Prep (phase s d [] ActorIdle [] l) u
     \<and> log u = l @ [LogEmit (d\<lparr>d_in_flight := True\<rparr>) dual]"
proof -
  let ?d = "d\<lparr>d_in_flight := True\<rparr>" and ?e = "d\<lparr>d_in_flight := False, d_latest_slot := output_slot_of dual\<rparr>"
  from assms(4) obtain prepare where prep: "prepare \<in> Prep" "validate_and_prepare_job prepare (current_job d) = Ok dual"
    by (auto simp: answers_def)
  have tick: "steps Prep (phase s d [] ActorIdle [] l) (phase s ?d [current_job d] ActorIdle [] l)"
    by (rule phase_tick [OF assms(1,2)])
  have job: "steps Prep (phase s ?d [current_job d] ActorIdle [] l) (phase s ?d [] ActorIdle [Ok dual] l)"
    using phase_job [OF assms(1) prep(1), of "current_job d" ?d l] prep(2) by simp
  have "on_result True True (Ok dual) ?d = Continue ?e None (Some dual)"
    unfolding on_result_emits using assms by simp
  from phase_result [OF assms(1) this, of Prep l]
  have "steps Prep (phase s ?d [] ActorIdle [Ok dual] l) (phase s ?e [] ActorIdle [] (l @ [LogEmit ?d dual]))"
    by simp
  from leads_to_trans [OF leads_to_trans [OF this job] tick] show ?thesis by auto
qed

section \<open>Properties\<close>

text \<open>C12: While its actor lives and its output is read, the detector never gets stuck: from every reachable
  state, with providers that can answer, it can finish what is in flight, clear the stale mark and come
  to rest with the windows it tracks unchanged, and from there every answer that starts at the tracked
  slot and is ahead of everything accepted is emitted.\<close>

theorem detector_can_always_emit:
  assumes "reachable Prep (detector_init slot h nx) s" and "running s" and "output_open s"
    and "actor s \<noteq> ActorStopped"
    and "\<forall>j. \<exists>prepare \<in> Prep. is_ok (validate_and_prepare_job prepare j)"
  shows "\<exists>t. steps Prep s t \<and> current_job (det t) = current_job (det s) \<and> \<not> d_in_flight (det t)
     \<and> (\<forall>dual. answers Prep (current_job (det t)) dual
           \<and> w_input_slot (current_window dual) = d_slot (det t) \<and> ahead (d_latest_slot (det t)) dual
         \<longrightarrow> (\<exists>u. steps Prep t u \<and> log u = log t @ [LogEmit ((det t)\<lparr>d_in_flight := True\<rparr>) dual]))"
proof -
  have att: "attended s" using assms(2,3) by (simp add: attended_def)
  from single_flight_settles [OF att _ reachable_single_flight [OF assms(1,2)] assms(4), of Prep] assms(5)
  obtain d l where d: "steps Prep s (phase s d [] ActorIdle [] l)" "\<not> d_in_flight d" "\<not> d_stale d"
      "d_slot d = d_slot (det s)" "d_store_hash d = d_store_hash (det s)"
      "d_next_expected_output d = d_next_expected_output (det s)"
    by (auto simp: settles_def willing_def)
  then have "current_job d = current_job (det s)" by (simp add: current_job_def)
  with d settled_emits [OF att d(2,3)] show ?thesis
    by (intro exI [of _ "phase s d [] ActorIdle [] l"]) auto
qed

theorem detector_can_always_emit_witness:
  "\<exists>t. steps (range demo_prepare) (system_init (demo_detector 32)) t \<and> current_job (det t) = demo_job
     \<and> \<not> d_in_flight (det t)"
proof -
  have "\<forall>j. \<exists>prepare \<in> range demo_prepare. is_ok (validate_and_prepare_job prepare j)"
    by (auto simp: is_ok_iff validate_and_prepare_job_def demo_prepare_def Let_def split: option.split)
  from detector_can_always_emit [OF reach_init [of "range demo_prepare" "detector_init 32 32 None"] _ _ _ this]
  show ?thesis
    by (simp add: system_init_def demo_detector_32 demo_job_current) blast
qed

end
