(* ===== verification/Error_Text.thy ===== *)
theory Error_Text
  imports Event_Loop
begin

text \<open>
  What errors print: the \<open>Display\<close> implementations of \<open>MptError\<close> (mpt.rs), \<open>ProgramError\<close>
  (consensus.rs) and \<open>ProverJobError\<close> (event_loop.rs), over Rust's \<open>Debug\<close> of strings and the printers
  of the external number types, and that the text of an error of the zk program identifies it.
\<close>

section \<open>Debug of a string\<close>

text \<open>
  \<open>str\<close> is printed in quotes; a character that is not printable is escaped by name or by its code
  point.  Of the first 256 code points, those below 32, from 127 to 160, and 173 are not printable.
\<close>

definition hex_digit :: "nat \<Rightarrow> char" where
  "hex_digit d = (if d < 10 then char_of (48 + d) else char_of (87 + d))"

definition hex_byte :: "nat \<Rightarrow> string" where
  "hex_byte n = (if n < 16 then [hex_digit n] else [hex_digit (n div 16), hex_digit (n mod 16)])"

definition printable :: "nat \<Rightarrow> bool" where
  "printable n \<longleftrightarrow> 32 \<le> n \<and> \<not> (127 \<le> n \<and> n \<le> 160) \<and> n \<noteq> 173"

definition escape_debug :: "char \<Rightarrow> string" where
  "escape_debug c =
     (let n = of_char c :: nat in
      if n = 0 then [CHR 92, CHR ''0''] else if n = 9 then [CHR 92, CHR ''t'']
      else if n = 10 then [CHR 92, CHR ''n''] else if n = 13 then [CHR 92, CHR ''r'']
      else if n = 34 \<or> n = 92 then [CHR 92, c]
      else if printable n then [c]
      else [CHR 92, CHR ''u'', CHR ''{''] @ hex_byte n @ [CHR ''}''])"

definition debug_string :: "string \<Rightarrow> string" where
  "debug_string s = CHR 34 # concat (map escape_debug s) @ [CHR 34]"

text \<open>Reading one escaped character back.\<close>

definition hex_value :: "char \<Rightarrow> nat" where
  "hex_value c = (let n = of_char c in if n < 58 then n - 48 else n - 87)"

fun unescape :: "string \<Rightarrow> (char \<times> string) option" where
  "unescape [] = None"
| "unescape (c # cs) =
     (if c \<noteq> CHR 92 then Some (c, cs)
      else case cs of
          [] \<Rightarrow> None
        | k # ks \<Rightarrow>
            if k = CHR ''0'' then Some (char_of (0 :: nat), ks)
            else if k = CHR ''t'' then Some (char_of (9 :: nat), ks)
            else if k = CHR ''n'' then Some (char_of (10 :: nat), ks)
            else if k = CHR ''r'' then Some (char_of (13 :: nat), ks)
            else if k = CHR ''u'' then
              (case ks of
                 _ # a # b # rest \<Rightarrow>
                   if b = CHR ''}'' then Some (char_of (hex_value a), rest)
                   else Some (char_of (16 * hex_value a + hex_value b), tl rest)
               | _ \<Rightarrow> None)
            else Some (k, ks))"

lemma of_char_hex_digit: "d < 16 \<Longrightarrow> (of_char (hex_digit d) :: nat) = (if d < 10 then 48 + d else 87 + d)"
  by (simp add: hex_digit_def)

lemma hex_value_digit: "d < 16 \<Longrightarrow> hex_value (hex_digit d) = d"
  by (simp add: hex_value_def of_char_hex_digit Let_def)

lemma hex_digit_not_brace:
  assumes "d < 16"
  shows "hex_digit d \<noteq> CHR ''}''"
proof
  assume "hex_digit d = CHR ''}''"
  then have "(of_char (hex_digit d) :: nat) = 125" by simp
  with assms show False by (simp add: of_char_hex_digit split: if_splits)
qed

lemma named_chars:
  "char_of (0 :: nat) = CHR 0x00" "char_of (9 :: nat) = CHR 0x09" "char_of (10 :: nat) = CHR 0x0A"
  "char_of (13 :: nat) = CHR 0x0D" "char_of (34 :: nat) = CHR 0x22" "char_of (92 :: nat) = CHR 0x5C"
  by (simp_all add: char_of_def bit_Suc_0_iff)

lemma unescape_hex:
  assumes "n < 256"
  shows "unescape ([CHR 92, CHR ''u'', CHR ''{''] @ hex_byte n @ CHR ''}'' # rest) = Some (char_of n, rest)"
proof -
  from assms have "n div 16 < 16" "n mod 16 < 16" by auto
  then show ?thesis
    using hex_digit_not_brace [of "n mod 16"] by (simp add: hex_byte_def hex_value_digit)
qed

lemma unescape_escape: "unescape (escape_debug c @ rest) = Some (c, rest)"
proof -
  define n where "n = (of_char c :: nat)"
  have c: "c = char_of n" and n: "n < 256" by (simp_all add: n_def)
  consider "n \<in> {0, 9, 10, 13, 34, 92}" | "n \<notin> {0, 9, 10, 13, 34, 92}" "printable n"
    | "n \<notin> {0, 9, 10, 13, 34, 92}" "\<not> printable n"
    by blast
  then show ?thesis
  proof cases
    case 1
    then have "c = CHR 0x00 \<or> c = CHR 0x09 \<or> c = CHR 0x0A \<or> c = CHR 0x0D \<or> c = CHR 0x22 \<or> c = CHR 0x5C"
      unfolding c by (elim insertE) (simp_all only: named_chars simp_thms, simp)
    then show ?thesis by (elim disjE) (simp_all add: escape_debug_def named_chars)
  next
    case 2
    then have "escape_debug c = [c]" by (simp add: escape_debug_def n_def Let_def)
    moreover have "c \<noteq> CHR 92" using 2(1) by (auto simp: n_def)
    ultimately show ?thesis by simp
  next
    case 3
    then have "escape_debug c = [CHR 92, CHR ''u'', CHR ''{''] @ hex_byte n @ [CHR ''}'']"
      by (simp add: escape_debug_def n_def Let_def)
    with unescape_hex [OF n, of rest] show ?thesis by (simp add: c del: unescape.simps)
  qed
qed

lemma escape_debug_start: "hd (escape_debug c @ rest) \<noteq> CHR 34" "escape_debug c \<noteq> []"
  by (auto simp: escape_debug_def Let_def)

text \<open>The printed form ends where it should, whatever follows.\<close>

lemma escaped_quote_inject:
  "concat (map escape_debug s) @ CHR 34 # x = concat (map escape_debug t) @ CHR 34 # y \<Longrightarrow> s = t \<and> x = y"
proof (induction s arbitrary: t)
  case Nil
  show ?case
  proof (cases t)
    case (Cons d t')
    with Nil have "escape_debug d @ concat (map escape_debug t') @ CHR 34 # y = CHR 34 # x" by simp
    with escape_debug_start(1) [of d "concat (map escape_debug t') @ CHR 34 # y"] show ?thesis by simp
  qed (use Nil in simp)
next
  case (Cons c s)
  show ?case
  proof (cases t)
    case Nil
    with Cons.prems have "escape_debug c @ concat (map escape_debug s) @ CHR 34 # x = CHR 34 # y" by simp
    with escape_debug_start(1) [of c "concat (map escape_debug s) @ CHR 34 # x"] show ?thesis by simp
  next
    case (Cons d t')
    with Cons.prems have "escape_debug c @ concat (map escape_debug s) @ CHR 34 # x
        = escape_debug d @ concat (map escape_debug t') @ CHR 34 # y"
      by simp
    then have "unescape (escape_debug c @ concat (map escape_debug s) @ CHR 34 # x)
        = unescape (escape_debug d @ concat (map escape_debug t') @ CHR 34 # y)"
      by (rule arg_cong)
    then have "c = d" "concat (map escape_debug s) @ CHR 34 # x = concat (map escape_debug t') @ CHR 34 # y"
      unfolding unescape_escape by simp_all
    with Cons.IH Cons show ?thesis by blast
  qed
qed

lemma debug_string_inject: "debug_string s @ x = debug_string t @ y \<longleftrightarrow> s = t \<and> x = y"
  using escaped_quote_inject [of s x t y] by (auto simp: debug_string_def)

section \<open>Printing errors\<close>

text \<open>\<open>Debug\<close> of the address and integer types of \<open>alloy_primitives\<close>.\<close>

record printers =
  debug_address :: "address \<Rightarrow> string"
  debug_b256 :: "b256 \<Rightarrow> string"
  debug_u256 :: "u256 \<Rightarrow> string"

definition quoted :: "string \<Rightarrow> string" where
  "quoted s = CHR 39 # s @ [CHR 39]"

fun display_mpt_error :: "printers \<Rightarrow> mpt_error \<Rightarrow> string" where
  "display_mpt_error f (InvalidAccountProof address reason) =
     ''MPT account proof failed for '' @ debug_address f address @ '': '' @ debug_string reason"
| "display_mpt_error f (InvalidStorageSlotProof slot_key reason) =
     ''MPT storage proof failed for slot '' @ debug_b256 f slot_key @ '': '' @ debug_string reason"
| "display_mpt_error f (InvalidStorageSlotAddressMapping slot_key address computed_address_slot_key) =
     ''MPT invalid storage slot address, expected '' @ debug_b256 f slot_key @ '', but for address ''
     @ quoted (debug_address f address) @ '', this slot '' @ quoted (debug_b256 f computed_address_slot_key)
     @ '' was computed''"
| "display_mpt_error f (MerkleHashError address v reason) =
     ''MPT error computing merkle hash of verified slots, address '' @ debug_address f address
     @ '' and value '' @ debug_u256 f v @ '': '' @ debug_string reason"
| "display_mpt_error f (ExceedsMaxTreeDepth slots requested_depth max_depth) =
     ''Merkle tree depth '' @ decimal requested_depth @ '' (derived from contract storage slots = ''
     @ decimal slots @ '') exceeds the maximum allowed depth of '' @ decimal max_depth"

fun display_program_error :: "printers \<Rightarrow> program_error \<Rightarrow> string" where
  "display_program_error f (HashChainMismatch expected actual) =
     ''Hash chain mismatch: expected '' @ debug_b256 f expected @ '', got '' @ debug_b256 f actual"
| "display_program_error f (InvalidUpdate index reason) =
     ''Invalid update at index '' @ decimal index @ '': '' @ reason"
| "display_program_error f (InvalidFinalityUpdate reason) = ''Invalid finality update: '' @ reason"
| "display_program_error f MissingExecutionRoot = ''Missing execution root in proof inputs''"
| "display_program_error f (StoreHashingError reason) = ''Failed to hash store: '' @ reason"
| "display_program_error f (ProgramMptError e) = ''MPT error: '' @ display_mpt_error f e"

text \<open>A prover job's error wraps an \<open>anyhow::Error\<close>, whose two printers are given.\<close>

definition display_prover_job_error :: "(job_failure \<Rightarrow> string) \<Rightarrow> prover_job_error \<Rightarrow> string" where
  "display_prover_job_error display_error e =
     ''Prover job '' @ show_u64 (pje_job_id e) @ '' failed: '' @ display_error (pje_error e)"

definition debug_prover_job_error :: "(job_failure \<Rightarrow> string) \<Rightarrow> prover_job_error \<Rightarrow> string" where
  "debug_prover_job_error debug_error e =
     ''ProverJobError { job_id: '' @ show_u64 (pje_job_id e) @ '', source: '' @ debug_error (pje_error e) @ '' }''"

text \<open>\<open>StdError::source\<close>: the error a prover job's error wraps.\<close>

definition prover_job_error_source :: "prover_job_error \<Rightarrow> job_failure option" where
  "prover_job_error_source e = Some (pje_error e)"

text \<open>What \<open>handle_prover_failure\<close> logs.\<close>

definition prover_failure_message :: "(job_failure \<Rightarrow> string) \<Rightarrow> prover_job_error \<Rightarrow> string" where
  "prover_failure_message display_error e =
     ''Job '' @ quoted (show_u64 (pje_job_id e)) @ '' failed with error: ''
     @ display_prover_job_error display_error e"

section \<open>Texts identify errors\<close>

text \<open>
  The printers of fixed-size byte arrays print all digits; that of an integer prints digits only.
\<close>

definition printers_distinguish :: "printers \<Rightarrow> bool" where
  "printers_distinguish f \<longleftrightarrow>
     inj (debug_address f) \<and> (\<forall>a b. length (debug_address f a) = length (debug_address f b)) \<and>
     inj (debug_b256 f) \<and> (\<forall>a b. length (debug_b256 f a) = length (debug_b256 f b)) \<and>
     inj (debug_u256 f) \<and> (\<forall>v. CHR '':'' \<notin> set (debug_u256 f v))"

lemma fixed_text_inject:
  fixes x y :: string
  assumes "inj p" and "\<forall>a b. length (p a) = length (p b)"
  shows "p a @ x = p b @ y \<longleftrightarrow> a = b \<and> x = y"
proof
  assume eq: "p a @ x = p b @ y"
  from assms(2) have "length (p a) = length (p b)" by blast
  with eq assms(1) show "a = b \<and> x = y" by (auto simp: inj_eq)
qed simp

lemma delimited_text_inject:
  "c \<notin> set s \<Longrightarrow> c \<notin> set t \<Longrightarrow> s @ c # x = t @ c # y \<longleftrightarrow> s = t \<and> x = y"
proof (induction s arbitrary: t)
  case Nil
  then show ?case by (cases t) auto
next
  case (Cons a s)
  then show ?case by (cases t) auto
qed

lemma decimal_value: "foldl (\<lambda>v c. 10 * v + the (digit_value c)) 0 (decimal n) = n"
proof (induction n rule: decimal.induct)
  case (1 n)
  then show ?case by (subst decimal.simps) simp
qed

lemma decimal_inject: "decimal m = decimal n \<longleftrightarrow> m = n"
  by (metis decimal_value)

lemma decimal_delimited:
  assumes "digit_value c = None"
  shows "decimal m @ c # x = decimal n @ c # y \<longleftrightarrow> m = n \<and> x = y"
  using delimited_text_inject [OF not_in_decimal [OF assms] not_in_decimal [OF assms]] decimal_inject
  by blast

lemma debug_string_inject0: "debug_string s = debug_string t \<longleftrightarrow> s = t"
  using debug_string_inject [of s "[]" t "[]"] by simp

lemma display_mpt_error_inject:
  assumes "printers_distinguish f"
  shows "display_mpt_error f e = display_mpt_error f e' \<longleftrightarrow> e = e'"
proof -
  from assms have address: "debug_address f a @ x = debug_address f b @ y \<longleftrightarrow> a = b \<and> x = y" for a b x y
    by (intro fixed_text_inject) (simp_all add: printers_distinguish_def)
  from assms have b256: "debug_b256 f a @ x = debug_b256 f b @ y \<longleftrightarrow> a = b \<and> x = y" for a b x y
    by (intro fixed_text_inject) (simp_all add: printers_distinguish_def)
  from b256 [of _ "[]" _ "[]"] have b256_end: "debug_b256 f a = debug_b256 f b \<longleftrightarrow> a = b" for a b by simp
  from assms have u256: "debug_u256 f a @ CHR '':'' # x = debug_u256 f b @ CHR '':'' # y \<longleftrightarrow> a = b \<and> x = y" for a b x y
    using delimited_text_inject [of "CHR '':''" "debug_u256 f a" "debug_u256 f b" x y]
    by (auto simp: printers_distinguish_def inj_eq)
  have spaces: "digit_value (CHR '' '') = None" "digit_value (CHR '')'') = None"
    by (simp_all add: digit_value_def)
  show ?thesis
    by (cases e; cases e')
      (auto simp: quoted_def address b256 b256_end u256 debug_string_inject0 decimal_inject decimal_delimited spaces)
qed

lemma display_program_error_inject:
  assumes "printers_distinguish f"
  shows "display_program_error f e = display_program_error f e' \<longleftrightarrow> e = e'"
proof -
  from assms have b256: "debug_b256 f a @ x = debug_b256 f b @ y \<longleftrightarrow> a = b \<and> x = y" for a b x y
    by (intro fixed_text_inject) (simp_all add: printers_distinguish_def)
  from b256 [of _ "[]" _ "[]"] have b256_end: "debug_b256 f a = debug_b256 f b \<longleftrightarrow> a = b" for a b by simp
  have colon: "digit_value (CHR '':'') = None" by (simp add: digit_value_def)
  show ?thesis
    by (cases e; cases e')
      (auto simp: b256 b256_end decimal_delimited colon display_mpt_error_inject [OF assms])
qed

lemma display_prover_job_error_inject:
  assumes "inj display_error"
  shows "display_prover_job_error display_error e = display_prover_job_error display_error e' \<longleftrightarrow> e = e'"
proof -
  have "digit_value (CHR '' '') = None" by (simp add: digit_value_def)
  then show ?thesis
    using assms by (cases e; cases e')
      (auto simp: display_prover_job_error_def show_u64_def decimal_delimited inj_eq)
qed

section \<open>Properties\<close>

text \<open>Byte arrays printed as their bytes, integers in decimal.\<close>

definition demo_printers :: printers where
  "demo_printers =
     \<lparr>debug_address = (\<lambda>a. map (\<lambda>b. char_of (unat b)) (be_bytes 20 (address_word a))),
      debug_b256 = (\<lambda>h. map (\<lambda>b. char_of (unat b)) (be_bytes 32 h)),
      debug_u256 = (\<lambda>v. decimal (unat v))\<rparr>"

lemma byte_chars_inject:
  "map (\<lambda>b. char_of (unat b)) bs = map (\<lambda>b. char_of (unat b)) cs \<longleftrightarrow> bs = (cs :: bytes)"
proof -
  have "inj (\<lambda>b :: u8. char_of (unat b))"
  proof (rule injI)
    fix b c :: u8
    assume "char_of (unat b) = (char_of (unat c) :: char)"
    then have "(of_char (char_of (unat b) :: char) :: nat) = of_char (char_of (unat c) :: char)" by simp
    then show "b = c"
      using unsigned_less [where ?'a = nat, of b] unsigned_less [where ?'a = nat, of c]
      by (simp add: word_unat_eq_iff)
  qed
  then show ?thesis by (simp add: inj_map_eq_map)
qed

lemma demo_printers_distinguish: "printers_distinguish demo_printers"
proof -
  have "be_bytes 32 g = be_bytes 32 h \<longleftrightarrow> g = h" for g h :: b256 by (rule be_bytes_inject) simp
  moreover have "be_bytes 20 (address_word a) = be_bytes 20 (address_word b) \<longleftrightarrow> a = b" for a b
    using be_bytes_inject [of 20 "address_word a" "address_word b"] by (auto intro: address.expand)
  moreover have "CHR '':'' \<notin> set (decimal n)" for n
    by (intro not_in_decimal) (simp add: digit_value_def)
  ultimately show ?thesis
    by (simp add: printers_distinguish_def demo_printers_def inj_def byte_chars_inject decimal_inject
        word_unat_eq_iff)
qed

text \<open>C38: What the zk program reports identifies its error: two errors of the transition or of storage
  verification that print the same text are the same error with the same data, since reasons are
  printed quoted and escaped, byte arrays at full width and counters in decimal.\<close>

theorem error_texts_identify_errors:
  assumes "printers_distinguish f"
  shows "(display_program_error f e = display_program_error f e' \<longleftrightarrow> e = e')
     \<and> (display_mpt_error f m = display_mpt_error f m' \<longleftrightarrow> m = m')"
  using display_program_error_inject [OF assms] display_mpt_error_inject [OF assms] by blast

theorem error_texts_identify_errors_witness:
  "display_program_error demo_printers (InvalidUpdate 1 ''1: x'') \<noteq> display_program_error demo_printers (InvalidUpdate 11 ''x'')"
  using error_texts_identify_errors [OF demo_printers_distinguish, THEN conjunct1,
    of "InvalidUpdate 1 ''1: x''" "InvalidUpdate 11 ''x''"]
  by (simp del: display_program_error.simps)

end
