(* ===== verification/App_Source.thy ===== *)
theory App_Source
  imports Types "HOL-Library.Multiset"
begin

text \<open>
  The source contract \<open>AppSource\<close> of \<open>golem-symbiotic-app-source-contract-bindings/src/app_src.rs\<close> and
  the contract the deployment scripts deploy, \<open>src/layerzero/app/AppSource.sol\<close>, which has the same storage,
  events and signatures but keeps a fee back: their storage layout and \<open>depositETH\<close>, whose call to the message endpoint hands control to foreign
  code before the second half of the bookkeeping.  A call is a tree: the deposits the endpoint (or
  whoever it calls) makes while the outer deposit is inside \<open>endpoint.send\<close> are its children.
\<close>

section \<open>State and storage layout\<close>

datatype app_event =
    ETHDeposited address u256 b256
  | TokensLocked address u256 u256

text \<open>The arguments of one call of \<open>IEndpointV2.send\<close>, with the contract called.\<close>

record send_call =
  send_to :: address
  dst_eid :: u32
  send_receiver :: bytes
  message :: bytes
  options :: bytes

text \<open>
  The state of the contract, the ether it holds, and the two traces it leaves: the events it emitted
  and the calls it made to the endpoint, both without those of reverted transactions.
\<close>

record app_source =
  endpoint :: address
  total_locked :: u256
  locked_tokens :: "address \<Rightarrow> u256"
  eth_balance :: nat
  emitted :: "app_event list"
  sent :: "send_call list"

text \<open>
  The state variables in declaration order.  An immutable is part of the code, the others take one
  storage slot each.
\<close>

datatype variable_kind = Immutable | Stored

definition state_variables :: "(string \<times> variable_kind) list" where
  "state_variables =
     [(''endpoint'', Immutable), (''totalLocked'', Stored), (''lockedTokens'', Stored)]"

fun slot_index :: "(string \<times> variable_kind) list \<Rightarrow> nat \<Rightarrow> string \<Rightarrow> nat option" where
  "slot_index [] n name = None"
| "slot_index ((v, k) # vs) n name =
     (case k of
        Immutable \<Rightarrow> if v = name then None else slot_index vs n name
      | Stored \<Rightarrow> if v = name then Some n else slot_index vs (Suc n) name)"

section \<open>Deposits\<close>

text \<open>The parameters of \<open>depositETH\<close>.\<close>

record deposit_args =
  arg_dst_eid :: u32
  arg_receiver :: b256
  arg_options :: bytes

text \<open>
  The sender, the value sent, the parameters, the calls made by the endpoint during \<open>send\<close>, and the guid it returns
  (\<open>None\<close> when it reverts).  Calls the endpoint makes to the contract may fail without failing the
  endpoint; what they did is then undone.
\<close>

datatype deposit = Deposit address u256 deposit_args "deposit list" "b256 option"

text \<open>\<open>abi.encode\<close> of an address and an integer, and the \<open>abi.decode\<close> that reads it back.\<close>

definition abi_encode :: "address \<Rightarrow> u256 \<Rightarrow> bytes" where
  "abi_encode a v = replicate 12 0 @ address_bytes a @ be_bytes 32 v"

definition abi_decode :: "bytes \<Rightarrow> address \<times> u256" where
  "abi_decode bs = (Address (of_be_bytes (take 20 (drop 12 bs))), of_be_bytes (drop 32 bs))"

lemma abi_decode_encode [simp]: "abi_decode (abi_encode a v) = (a, v)"
  by (simp add: abi_decode_def abi_encode_def address_bytes_def from_to_be_bytes)

definition add_u256 :: "u256 \<Rightarrow> u256 \<Rightarrow> u256 option" where
  "add_u256 a b = (if unat a + unat b < 2 ^ 256 then Some (a + b) else None)"

text \<open>\<open>None\<close>: the transaction reverts.  \<open>now\<close> is the block's timestamp.\<close>

fun depositETH :: "u256 \<Rightarrow> deposit \<Rightarrow> app_source \<Rightarrow> app_source option"
  and endpoint_calls :: "u256 \<Rightarrow> deposit list \<Rightarrow> app_source \<Rightarrow> app_source" where
  "depositETH now (Deposit sender msg_value args calls guid) s =
     (if \<not> msg_value > 0 then None
      else case add_u256 (total_locked s) msg_value of
             None \<Rightarrow> None
           | Some new_total \<Rightarrow>
               let s = s\<lparr>eth_balance := eth_balance s + unat msg_value, total_locked := new_total\<rparr>;
                   payload = abi_encode sender msg_value;
                   call = \<lparr>send_to = endpoint s, dst_eid = arg_dst_eid args,
                           send_receiver = be_bytes 32 (arg_receiver args), message = payload,
                           options = arg_options args\<rparr>;
                   s = endpoint_calls now calls (s\<lparr>sent := sent s @ [call]\<rparr>)
               in case guid of
                    None \<Rightarrow> None
                  | Some guid \<Rightarrow>
                      let s = s\<lparr>emitted := emitted s @ [ETHDeposited sender msg_value guid]\<rparr>
                      in case add_u256 (locked_tokens s sender) msg_value of
                           None \<Rightarrow> None
                         | Some locked \<Rightarrow>
                             let s = s\<lparr>locked_tokens := (locked_tokens s)(sender := locked)\<rparr>
                             in Some (s\<lparr>emitted := emitted s @ [TokensLocked sender msg_value now]\<rparr>))"
| "endpoint_calls now [] s = s"
| "endpoint_calls now (c # cs) s =
     endpoint_calls now cs (case depositETH now c s of Some s' \<Rightarrow> s' | None \<Rightarrow> s)"

definition getUserLockedTokens :: "app_source \<Rightarrow> address \<Rightarrow> u256" where
  "getUserLockedTokens s user = locked_tokens s user"

text \<open>The balance as a number; the ether there is fits 256 bits many times over.\<close>

definition getTLockedBalance :: "app_source \<Rightarrow> nat" where
  "getTLockedBalance s = eth_balance s"

text \<open>The constructor, from the zeroed storage of a new contract.\<close>

definition app_source_new :: "address \<Rightarrow> app_source" where
  "app_source_new endpoint_address =
     \<lparr>endpoint = endpoint_address, total_locked = 0, locked_tokens = \<lambda>_. 0, eth_balance = 0, emitted = [], sent = []\<rparr>"

section \<open>The deployed contract\<close>

text \<open>\<open>src/layerzero/app/AppSource.sol\<close> reserves 0.01 ether of every deposit for the endpoint.\<close>

definition LAYER_ZERO_FEE :: u256 where
  "LAYER_ZERO_FEE = 10 ^ 16"

fun deployed_depositETH :: "u256 \<Rightarrow> deposit \<Rightarrow> app_source \<Rightarrow> app_source option"
  and deployed_endpoint_calls :: "u256 \<Rightarrow> deposit list \<Rightarrow> app_source \<Rightarrow> app_source" where
  "deployed_depositETH now (Deposit sender msg_value args calls guid) s =
     (if \<not> msg_value > 0 then None
      else if \<not> msg_value > LAYER_ZERO_FEE then None
      else let deposit_amount = msg_value - LAYER_ZERO_FEE
           in case add_u256 (total_locked s) deposit_amount of
                None \<Rightarrow> None
              | Some new_total \<Rightarrow>
                  let s = s\<lparr>eth_balance := eth_balance s + unat msg_value, total_locked := new_total\<rparr>;
                      payload = abi_encode sender deposit_amount;
                      call = \<lparr>send_to = endpoint s, dst_eid = arg_dst_eid args,
                              send_receiver = be_bytes 32 (arg_receiver args), message = payload,
                              options = arg_options args\<rparr>;
                      s = s\<lparr>eth_balance := eth_balance s - unat LAYER_ZERO_FEE, sent := sent s @ [call]\<rparr>;
                      s = deployed_endpoint_calls now calls s
                  in case guid of
                       None \<Rightarrow> None
                     | Some guid \<Rightarrow>
                         let s = s\<lparr>emitted := emitted s @ [ETHDeposited sender deposit_amount guid]\<rparr>
                         in case add_u256 (locked_tokens s sender) deposit_amount of
                              None \<Rightarrow> None
                            | Some locked \<Rightarrow>
                                let s = s\<lparr>locked_tokens := (locked_tokens s)(sender := locked)\<rparr>
                                in Some (s\<lparr>emitted := emitted s @ [TokensLocked sender deposit_amount now]\<rparr>))"
| "deployed_endpoint_calls now [] s = s"
| "deployed_endpoint_calls now (c # cs) s =
     deployed_endpoint_calls now cs (case deployed_depositETH now c s of Some s' \<Rightarrow> s' | None \<Rightarrow> s)"

text \<open>
  The same transaction with the fee taken off every value, nothing being left of a value that does not
  exceed it.
\<close>

definition net_value :: "u256 \<Rightarrow> u256" where
  "net_value v = (if LAYER_ZERO_FEE < v then v - LAYER_ZERO_FEE else 0)"

primrec net_of :: "deposit \<Rightarrow> deposit" where
  "net_of (Deposit sender v args calls guid) = Deposit sender (net_value v) args (map net_of calls) guid"

lemma net_value_pos: "0 < net_value v \<longleftrightarrow> LAYER_ZERO_FEE < v"
  by (auto simp: net_value_def word_gt_0)

lemma deployed_is_net:
  "deployed_depositETH now d s = depositETH now (net_of d) s"
  "deployed_endpoint_calls now ds s = endpoint_calls now (map net_of ds) s"
proof (induction now d s and now ds s rule: deployed_depositETH_deployed_endpoint_calls.induct)
  case (1 now sender v args calls guid s)
  show ?case
  proof (cases "LAYER_ZERO_FEE < v")
    case True
    then have net: "net_value v = v - LAYER_ZERO_FEE" "0 < net_value v" "0 < v"
      using order_le_less_trans [OF word_zero_le] by (auto simp: net_value_pos) (simp add: net_value_def)
    have paid: "eth_balance s + unat v - unat LAYER_ZERO_FEE = eth_balance s + unat (v - LAYER_ZERO_FEE)"
      using True by (simp add: unat_sub word_less_nat_alt less_imp_le)
    have order: "t\<lparr>total_locked := a, eth_balance := b\<rparr> = t\<lparr>eth_balance := b, total_locked := a\<rparr>"
      for t :: app_source and a b by simp
    show ?thesis
      using "1.IH" True net by (auto simp: Let_def paid order split: option.splits)
  next
    case False
    then have "\<not> 0 < net_value v" by (simp add: net_value_pos)
    with False show ?thesis by simp
  qed
qed (auto split: option.split)

section \<open>Bookkeeping\<close>

text \<open>The amounts locked by the \<open>TokensLocked\<close> events of a log, of one user or of all.\<close>

fun locked_amount :: "app_event \<Rightarrow> nat" where
  "locked_amount (TokensLocked u a t) = unat a"
| "locked_amount (ETHDeposited u a g) = 0"

fun locked_amount_of :: "address \<Rightarrow> app_event \<Rightarrow> nat" where
  "locked_amount_of user (TokensLocked u a t) = (if u = user then unat a else 0)"
| "locked_amount_of user (ETHDeposited u a g) = 0"

definition locked_in :: "app_event list \<Rightarrow> nat" where
  "locked_in es = sum_list (map locked_amount es)"

definition locked_in_by :: "app_event list \<Rightarrow> address \<Rightarrow> nat" where
  "locked_in_by es user = sum_list (map (locked_amount_of user) es)"

lemma locked_in_simps [simp]:
  "locked_in [] = 0" "locked_in (es @ fs) = locked_in es + locked_in fs"
  "locked_in (e # es) = locked_amount e + locked_in es"
  by (simp_all add: locked_in_def)

lemma locked_in_by_simps [simp]:
  "locked_in_by [] user = 0" "locked_in_by (es @ fs) user = locked_in_by es user + locked_in_by fs user"
  "locked_in_by (e # es) user = locked_amount_of user e + locked_in_by es user"
  by (simp_all add: locked_in_by_def)

lemma locked_in_by_le: "locked_in_by es user \<le> locked_in es"
proof (induction es)
  case (Cons e es)
  then show ?case
    by (cases e) (simp_all add: locked_in_def locked_in_by_def)
qed simp

text \<open>
  \<open>entered\<close> is the value of the deposits that are inside \<open>endpoint.send\<close>: counted in the total but
  not yet locked for their senders.
\<close>

definition books :: "nat \<Rightarrow> app_source \<Rightarrow> bool" where
  "books entered s \<longleftrightarrow>
     unat (total_locked s) = locked_in (emitted s) + entered \<and>
     (\<forall>u. unat (locked_tokens s u) = locked_in_by (emitted s) u) \<and>
     unat (total_locked s) \<le> eth_balance s"

lemma add_u256_Some: "add_u256 a b = Some c \<longleftrightarrow> unat a + unat b < 2 ^ 256 \<and> c = a + b"
  by (auto simp: add_u256_def)

lemma unat_add_u256: "unat a + unat b < 2 ^ 256 \<Longrightarrow> unat (a + b) = unat a + unat (b :: u256)"
  by (simp add: unat_word_ariths)

text \<open>The call made to the endpoint, and the state the endpoint finds the contract in.\<close>

definition deposit_call :: "address \<Rightarrow> u256 \<Rightarrow> deposit_args \<Rightarrow> app_source \<Rightarrow> send_call" where
  "deposit_call sender amount args s =
     \<lparr>send_to = endpoint s, dst_eid = arg_dst_eid args, send_receiver = be_bytes 32 (arg_receiver args),
      message = abi_encode sender amount, options = arg_options args\<rparr>"

definition send_state :: "address \<Rightarrow> u256 \<Rightarrow> deposit_args \<Rightarrow> app_source \<Rightarrow> app_source" where
  "send_state sender amount args s =
     s\<lparr>eth_balance := eth_balance s + unat amount, total_locked := total_locked s + amount,
       sent := sent s @ [deposit_call sender amount args s]\<rparr>"

definition finish_deposit :: "u256 \<Rightarrow> address \<Rightarrow> u256 \<Rightarrow> b256 \<Rightarrow> app_source \<Rightarrow> app_source" where
  "finish_deposit now sender amount g s =
     s\<lparr>locked_tokens := (locked_tokens s)(sender := locked_tokens s sender + amount),
       emitted := emitted s @ [ETHDeposited sender amount g, TokensLocked sender amount now]\<rparr>"

lemma depositETH_Some:
  "depositETH now (Deposit sender amount args calls guid) s = Some s' \<longleftrightarrow>
     (\<exists>g. guid = Some g \<and> 0 < amount \<and> unat (total_locked s) + unat amount < 2 ^ 256 \<and>
        (let s2 = endpoint_calls now calls (send_state sender amount args s)
         in unat (locked_tokens s2 sender) + unat amount < 2 ^ 256 \<and> s' = finish_deposit now sender amount g s2))"
  by (auto simp: Let_def add_u256_def send_state_def deposit_call_def finish_deposit_def
      split: option.splits)

text \<open>
  What the endpoint's calls keep, deposits keep: an invariant over the deposits under way, which a
  deposit enters before the endpoint is called and leaves after it.
\<close>

locale deposit_law =
  fixes I :: "'p :: comm_monoid_add \<Rightarrow> app_source \<Rightarrow> bool"
    and owed :: "address \<Rightarrow> u256 \<Rightarrow> 'p"
  assumes enter: "I p s \<Longrightarrow> 0 < amount \<Longrightarrow> unat (total_locked s) + unat amount < 2 ^ 256
      \<Longrightarrow> I (p + owed sender amount) (send_state sender amount args s)"
    and finish: "I (p + owed sender amount) s \<Longrightarrow> unat (locked_tokens s sender) + unat amount < 2 ^ 256
      \<Longrightarrow> I p (finish_deposit now sender amount g s)"
begin

lemma kept:
  "depositETH now d s = Some s' \<Longrightarrow> I p s \<Longrightarrow> I p s'"
  "I p s \<Longrightarrow> I p (endpoint_calls now ds s)"
proof (induction now d s and now ds s arbitrary: p s' and p rule: depositETH_endpoint_calls.induct)
  case (1 now sender amount args calls guid s)
  let ?s2 = "endpoint_calls now calls (send_state sender amount args s)"
  from "1.prems"(1) obtain g where amount: "0 < amount" "unat (total_locked s) + unat amount < 2 ^ 256"
    and locked: "unat (locked_tokens ?s2 sender) + unat amount < 2 ^ 256"
    and s': "s' = finish_deposit now sender amount g ?s2"
    by (auto simp: depositETH_Some Let_def simp del: depositETH.simps)
  from enter [OF "1.prems"(2) amount] have "I (p + owed sender amount) (send_state sender amount args s)" .
  then have "I (p + owed sender amount) ?s2"
    using "1.IH" amount by (simp add: add_u256_def send_state_def deposit_call_def)
  with finish locked show ?case by (simp add: s')
next
  case (3 now c cs s)
  then show ?case by (auto split: option.split)
qed simp

end

interpretation books_law: deposit_law books "\<lambda>sender amount. unat amount"
  by unfold_locales (auto simp: books_def send_state_def finish_deposit_def unat_add_u256)

lemmas books_preserved = books_law.kept

text \<open>The event log only grows, and a user's balance grows by what the new events lock for them.\<close>

interpretation log_law: deposit_law "\<lambda>(p :: nat) t. \<exists>es. emitted t = emitted s @ es" "\<lambda>_ _. 0" for s
  by unfold_locales (auto simp: send_state_def finish_deposit_def)

lemma emitted_extends: "depositETH now d s = Some s' \<Longrightarrow> \<exists>es. emitted s' = emitted s @ es"
  by (rule log_law.kept(1)) (assumption, rule exI [of _ "[]"], simp)

lemma depositETH_succeeds:
  assumes "books 0 s"
  shows "depositETH now (Deposit sender amount args calls guid) s \<noteq> None \<longleftrightarrow>
    0 < amount \<and> unat (total_locked s) + unat amount < 2 ^ 256 \<and> guid \<noteq> None"
proof (cases "0 < amount \<and> unat (total_locked s) + unat amount < 2 ^ 256 \<and> guid \<noteq> None")
  case True
  let ?s2 = "endpoint_calls now calls (send_state sender amount args s)"
  from True assms have "books (unat amount) (send_state sender amount args s)"
    by (simp add: books_def send_state_def unat_add_u256)
  then have "books (unat amount) ?s2" by (rule books_preserved(2))
  then have "unat (locked_tokens ?s2 sender) + unat amount \<le> unat (total_locked ?s2)"
    using locked_in_by_le [of "emitted ?s2" sender] by (simp add: books_def)
  also have "\<dots> < 2 ^ 256"
    using unsigned_less [where ?'a = nat, of "total_locked ?s2"] by simp
  finally show ?thesis
    using True by (auto simp: depositETH_Some Let_def simp del: depositETH.simps)
next
  case False
  then show ?thesis by (auto simp: depositETH_Some Let_def simp del: depositETH.simps)
qed

definition app_locks :: "app_event list \<Rightarrow> address \<Rightarrow> bool" where
  "app_locks es u \<longleftrightarrow> (\<exists>a t. TokensLocked u a t \<in> set es)"

lemma locked_in_by_event: "locked_in_by es u > 0 \<Longrightarrow> app_locks es u"
proof (induction es)
  case (Cons e es)
  then show ?case by (cases e) (auto simp: app_locks_def split: if_splits)
qed simp

lemma locked_change_has_event:
  assumes "depositETH now d s = Some s'" and "books entered s"
    and "locked_tokens s' u \<noteq> locked_tokens s u"
  obtains es where "emitted s' = emitted s @ es" "app_locks es u"
    "unat (locked_tokens s' u) = unat (locked_tokens s u) + locked_in_by es u"
proof -
  from emitted_extends [OF assms(1)] obtain es where es: "emitted s' = emitted s @ es" ..
  from books_preserved(1) [OF assms(1,2)] assms(2) es
  have grow: "unat (locked_tokens s' u) = unat (locked_tokens s u) + locked_in_by es u"
    by (simp add: books_def)
  with assms(3) have "locked_in_by es u > 0" by (auto simp: word_unat_eq_iff)
  with es grow show ?thesis by (intro that [of es] locked_in_by_event)
qed

lemma locked_tokens_slot_index:
  "slot_index state_variables 0 ''lockedTokens'' = Some (unat SOURCE_CONTRACT_LOCKED_TOKENS_STORAGE_INDEX)"
  by (simp add: state_variables_def SOURCE_CONTRACT_LOCKED_TOKENS_STORAGE_INDEX_def)

section \<open>Messages to the endpoint\<close>

text \<open>
  What the messages say against what the events lock: the endpoint was told of every finished deposit
  and of those under way, and nobody else was called.
\<close>

primrec event_locks :: "app_event \<Rightarrow> (address \<times> u256) list" where
  "event_locks (TokensLocked u a t) = [(u, a)]"
| "event_locks (ETHDeposited u a g) = []"

definition announcements :: "app_source \<Rightarrow> (address \<times> u256) list" where
  "announcements s = map (\<lambda>call. abi_decode (message call)) (sent s)"

definition announced :: "address \<Rightarrow> (address \<times> u256) multiset \<Rightarrow> app_source \<Rightarrow> bool" where
  "announced e under_way s \<longleftrightarrow>
     endpoint s = e \<and> send_to ` set (sent s) \<subseteq> {e} \<and>
     mset (announcements s) = mset (concat (map event_locks (emitted s))) + under_way"

interpretation announced_law: deposit_law "announced e" "\<lambda>sender amount. {#(sender, amount)#}" for e
  by unfold_locales
    (auto simp: announced_def announcements_def send_state_def deposit_call_def finish_deposit_def)

lemmas announced_preserved = announced_law.kept

lemma locked_in_locks: "locked_in es = sum_list (map (\<lambda>(u, a). unat a) (concat (map event_locks es)))"
proof (induction es)
  case (Cons e es)
  then show ?case by (cases e) simp_all
qed simp

lemma locked_in_by_locks:
  "locked_in_by es user = sum_list (map (\<lambda>(u, a). if u = user then unat a else 0) (concat (map event_locks es)))"
proof (induction es)
  case (Cons e es)
  then show ?case by (cases e) simp_all
qed simp

lemma sum_list_mset_cong: "mset xs = mset ys \<Longrightarrow> sum_list (map f xs) = (sum_list (map f ys) :: nat)"
  by (metis mset_map sum_mset_sum_list)

text \<open>The transactions of a chain, those that revert leaving no trace.\<close>

definition run_transactions :: "(u256 \<times> deposit) list \<Rightarrow> app_source \<Rightarrow> app_source" where
  "run_transactions txs s =
     fold (\<lambda>(now, d) s. case depositETH now d s of Some s' \<Rightarrow> s' | None \<Rightarrow> s) txs s"

lemma run_transactions_keep:
  assumes "books 0 s" and "announced e {#} s"
  shows "books 0 (run_transactions txs s) \<and> announced e {#} (run_transactions txs s)"
  using assms
proof (induction txs arbitrary: s)
  case (Cons tx txs)
  obtain now d where tx: "tx = (now, d)" by (cases tx)
  show ?case
  proof (cases "depositETH now d s")
    case None
    with Cons show ?thesis by (simp add: run_transactions_def tx)
  next
    case (Some s')
    from Cons.IH [OF books_preserved(1) [OF Some Cons.prems(1)] announced_preserved(1) [OF Some Cons.prems(2)]]
    show ?thesis by (simp add: run_transactions_def tx Some)
  qed
qed (simp add: run_transactions_def)

lemma new_contract: "books 0 (app_source_new e)" "announced e {#} (app_source_new e)"
  by (simp_all add: books_def announced_def announcements_def app_source_new_def)

section \<open>Properties\<close>

text \<open>C31: The books of the bindings' contract balance at every point where foreign code can run: after any deposit, nested
  deposits of the endpoint included, the total locked is the sum of all \<open>TokensLocked\<close> amounts plus
  the deposits still being sent, each user's locked tokens are the sum of the user's events, and the
  contract holds at least the total in ether.\<close>

theorem deposits_keep_books:
  assumes "books entered s"
  shows "(\<forall>s'. depositETH now d s = Some s' \<longrightarrow> books entered s') \<and> books entered (endpoint_calls now ds s)"
  using books_preserved assms by blast

definition demo_args :: deposit_args where
  "demo_args = \<lparr>arg_dst_eid = 30101, arg_receiver = 11, arg_options = [0, 3]\<rparr>"

definition demo_deposit :: deposit where
  "demo_deposit = Deposit (Address 5) 9 demo_args
     [Deposit (Address 6) 4 demo_args [] (Some 1), Deposit (Address 5) 0 demo_args [] (Some 2)] (Some 3)"

theorem deposits_keep_books_witness:
  "\<exists>s. depositETH 77 demo_deposit (app_source_new (Address 8)) = Some s \<and> books 0 s \<and> total_locked s = 13
     \<and> locked_tokens s (Address 5) = 9 \<and> locked_tokens s (Address 6) = 4"
proof -
  have init: "books 0 (app_source_new (Address 8))" by (simp add: books_def app_source_new_def)
  obtain s where run: "depositETH 77 demo_deposit (app_source_new (Address 8)) = Some s"
    and s: "total_locked s = 13" "locked_tokens s = (\<lambda>_. 0)(Address 6 := 4, Address 5 := 9)"
    by (simp add: demo_deposit_def app_source_new_def add_u256_def Let_def)
  with deposits_keep_books [OF init, of 77 demo_deposit] show ?thesis by auto
qed

text \<open>C33: With balanced books a deposit reverts only for its value, an overflow of the total or the endpoint:
  the second addition, to the sender's locked tokens, cannot overflow, whatever deposits happened in
  between.  In the contract of the bindings every positive value will do; the deployed contract also
  refuses values up to its fee, and is otherwise the bindings' contract on values without the fee.\<close>

theorem deposit_reverts_only_upfront:
  assumes "books 0 s"
  shows "(depositETH now (Deposit sender amount args calls guid) s \<noteq> None \<longleftrightarrow>
       0 < amount \<and> unat (total_locked s) + unat amount < 2 ^ 256 \<and> guid \<noteq> None)
   \<and> (deployed_depositETH now (Deposit sender amount args calls guid) s \<noteq> None \<longleftrightarrow>
       10 ^ 16 < amount \<and> unat (total_locked s) + unat (amount - 10 ^ 16) < 2 ^ 256 \<and> guid \<noteq> None)
   \<and> deployed_depositETH now d s = depositETH now (net_of d) s"
proof (intro conjI)
  show "depositETH now (Deposit sender amount args calls guid) s \<noteq> None \<longleftrightarrow>
      0 < amount \<and> unat (total_locked s) + unat amount < 2 ^ 256 \<and> guid \<noteq> None"
    using assms by (rule depositETH_succeeds)
  have "deployed_depositETH now (Deposit sender amount args calls guid) s \<noteq> None \<longleftrightarrow>
      0 < net_value amount \<and> unat (total_locked s) + unat (net_value amount) < 2 ^ 256 \<and> guid \<noteq> None"
    using depositETH_succeeds [OF assms] by (simp only: deployed_is_net net_of.simps)
  also have "\<dots> \<longleftrightarrow> 10 ^ 16 < amount \<and> unat (total_locked s) + unat (amount - 10 ^ 16) < 2 ^ 256 \<and> guid \<noteq> None"
    unfolding net_value_pos by (simp add: net_value_def LAYER_ZERO_FEE_def cong: conj_cong)
  finally show "deployed_depositETH now (Deposit sender amount args calls guid) s \<noteq> None \<longleftrightarrow>
      10 ^ 16 < amount \<and> unat (total_locked s) + unat (amount - 10 ^ 16) < 2 ^ 256 \<and> guid \<noteq> None" .
qed (rule deployed_is_net)

theorem deposit_reverts_only_upfront_witness:
  "depositETH 77 (Deposit (Address 5) 0 demo_args [] (Some 3)) (app_source_new (Address 8)) = None
   \<and> depositETH 77 (Deposit (Address 5) 9 demo_args [] None) (app_source_new (Address 8)) = None
   \<and> deployed_depositETH 77 (Deposit (Address 5) (10 ^ 16) demo_args [] (Some 3)) (app_source_new (Address 8)) = None
   \<and> deployed_depositETH 77 (Deposit (Address 5) (10 ^ 16 + 9) demo_args [] (Some 3)) (app_source_new (Address 8)) \<noteq> None"
proof -
  have books: "books 0 (app_source_new (Address 8))" by (rule new_contract)
  show ?thesis
    using deposit_reverts_only_upfront [OF books, of 77 "Address 5" 0 demo_args "[]" "Some 3"]
      deposit_reverts_only_upfront [OF books, of 77 "Address 5" 9 demo_args "[]" None]
      deposit_reverts_only_upfront [OF books, of 77 "Address 5" "10 ^ 16" demo_args "[]" "Some 3"]
      deposit_reverts_only_upfront [OF books, of 77 "Address 5" "10 ^ 16 + 9" demo_args "[]" "Some 3"]
    by (simp add: app_source_new_def del: depositETH.simps deployed_depositETH.simps)
qed

text \<open>C32: What the contract tells its endpoint is what it owes: after any sequence of transactions since its
  construction, with any nesting of deposits inside the endpoint, every call went to the endpoint the
  contract was built with, a user's locked tokens are the sum of the amounts of the messages that name
  the user, and the total locked is the sum over all messages.\<close>

theorem messages_account_for_balances:
  "let s = run_transactions txs (app_source_new e)
   in send_to ` set (sent s) \<subseteq> {e}
      \<and> unat (getUserLockedTokens s user)
          = sum_list (map (\<lambda>call. let (u, a) = abi_decode (message call) in if u = user then unat a else 0) (sent s))
      \<and> unat (total_locked s) = sum_list (map (\<lambda>call. unat (snd (abi_decode (message call)))) (sent s))
      \<and> unat (total_locked s) \<le> getTLockedBalance s"
proof -
  let ?s = "run_transactions txs (app_source_new e)"
  from run_transactions_keep [OF new_contract] have books: "books 0 ?s" and calls: "send_to ` set (sent ?s) \<subseteq> {e}"
    and "mset (announcements ?s) = mset (concat (map event_locks (emitted ?s)))"
    by (simp_all add: announced_def)
  from sum_list_mset_cong [OF this(3)]
  have sums: "sum_list (map f (announcements ?s)) = sum_list (map f (concat (map event_locks (emitted ?s))))"
    for f :: "address \<times> u256 \<Rightarrow> nat" .
  from books calls sums [of "\<lambda>(u, a). unat a"] sums [of "\<lambda>(u, a). if u = user then unat a else 0"]
  show ?thesis
    by (simp add: books_def getUserLockedTokens_def getTLockedBalance_def locked_in_locks locked_in_by_locks
        announcements_def o_def Let_def case_prod_beta)
qed

end
