(* ===== verification/Golem_Store.thy ===== *)
theory Golem_Store
  imports Provider_Io Env_Text
begin

text \<open>
  \<open>golem-symbiotic-consensus-mpt/src/api/golem.rs\<close>: storing a proof bundle as an entity of a Golem
  Base store and finding the bundle of a block again.  The store and the JSON codec are external.  The
  store is public, so it holds entities of others too; what is relied on is the documented meaning of
  the query text, which is read here by a lexer and a parser of its own.
\<close>

section \<open>Bundles and entities\<close>

definition ETH_CONSENSUS_PROOF_TTL :: u64 where
  "ETH_CONSENSUS_PROOF_TTL = 24 * 60 * 60"

text \<open>
  Half the seconds, rounded up, because a block takes two: the code's \<open>f64\<close> division and \<open>ceil\<close>, both
  exact for this constant.
\<close>

definition ETH_CONSENSUS_PROOF_BTL :: u64 where
  "ETH_CONSENSUS_PROOF_BTL = of_nat ((unat ETH_CONSENSUS_PROOF_TTL + 1) div 2)"

record proof_bundle =
  input_block_number :: u64
  output_block_number :: u64

record golem_create =
  gc_data :: bytes
  gc_btl :: u64
  gc_string_annotations :: "(string \<times> string) list"
  gc_numeric_annotations :: "(string \<times> u64) list"

record golem_entity =
  storage_value :: bytes
  numeric_annotations :: "(string \<times> u64) list"

record ('w, 'r) golem_env =
  json_to_vec :: "proof_bundle \<Rightarrow> bytes option"
  json_from_bytes :: "bytes \<Rightarrow> proof_bundle option" \<comment> \<open>\<open>from_utf8\<close>, then \<open>from_str\<close>\<close>
  create_entities :: "golem_create list \<Rightarrow> ('w, string, 'r list) io"
  query_entities :: "string \<Rightarrow> ('w, string, golem_entity list) io"

section \<open>Operations\<close>

definition serialise_eth_consensus_proof_bundle ::
  "('w, 'r) golem_env \<Rightarrow> proof_bundle \<Rightarrow> ('e, bytes) outcome" where
  "serialise_eth_consensus_proof_bundle env bundle = expect (json_to_vec env bundle)"

definition deserialise_eth_consensus_proof_bundle ::
  "('w, 'r) golem_env \<Rightarrow> bytes \<Rightarrow> ('e, proof_bundle) outcome" where
  "deserialise_eth_consensus_proof_bundle env data = expect (json_from_bytes env data)"

definition bundle_id :: "proof_bundle \<Rightarrow> string" where
  "bundle_id bundle =
     show_u64 (input_block_number bundle) @ ''_'' @ show_u64 (output_block_number bundle)"

definition bundle_create :: "('w, 'r) golem_env \<Rightarrow> proof_bundle \<Rightarrow> ('e, golem_create) outcome" where
  "bundle_create env bundle =
     and_then (serialise_eth_consensus_proof_bundle env bundle) (\<lambda>serialised_data.
     Ok \<lparr>gc_data = serialised_data, gc_btl = ETH_CONSENSUS_PROOF_BTL,
         gc_string_annotations = [(''id'', bundle_id bundle)],
         gc_numeric_annotations = [(''inputBlockNumber'', input_block_number bundle),
                                   (''outputBlockNumber'', output_block_number bundle)]\<rparr>)"

definition create_eth_consensus_proof_bundle_entity ::
  "('w, 'r) golem_env \<Rightarrow> proof_bundle \<Rightarrow> ('w, string, 'r list) io" where
  "create_eth_consensus_proof_bundle_entity env bundle =
     io_bind (io_of (bundle_create env bundle)) (\<lambda>create_proof_entity.
     create_entities env [create_proof_entity])"

definition block_query :: "u64 \<Rightarrow> string" where
  "block_query target_block_number =
     (let n = show_u64 target_block_number
      in ''(inputBlockNumber < '' @ n @ '' || inputBlockNumber = '' @ n
         @ '') && (outputBlockNumber > '' @ n @ '' || outputBlockNumber = '' @ n @ '')'')"

definition get_eth_consensus_proof_bundle_entity ::
  "('w, 'r) golem_env \<Rightarrow> u64 \<Rightarrow> ('w, string, proof_bundle option) io" where
  "get_eth_consensus_proof_bundle_entity env target_block_number =
     io_bind (query_entities env (block_query target_block_number)) (\<lambda>entities.
     case entities of
       [] \<Rightarrow> io_of (Ok None)
     | entity # rest \<Rightarrow>
         io_bind (io_of (deserialise_eth_consensus_proof_bundle env (storage_value entity))) (\<lambda>bundle.
         io_of (Ok (Some bundle))))"

section \<open>The query language\<close>

text \<open>
  The part of the language with numbers: comparisons of a numeric annotation with a number, joined by
  \<open>&&\<close>, which binds tighter, and \<open>||\<close>, with parentheses.  A text outside this part is not read.
\<close>

datatype golem_query =
    Less_Than string u64
  | Greater_Than string u64
  | Equal_To string u64
  | Both golem_query golem_query
  | Either golem_query golem_query

fun satisfies :: "golem_query \<Rightarrow> (string \<times> u64) list \<Rightarrow> bool" where
  "satisfies (Less_Than k n) as \<longleftrightarrow> (\<exists>(k', v) \<in> set as. k' = k \<and> v < n)"
| "satisfies (Greater_Than k n) as \<longleftrightarrow> (\<exists>(k', v) \<in> set as. k' = k \<and> v > n)"
| "satisfies (Equal_To k n) as \<longleftrightarrow> (\<exists>(k', v) \<in> set as. k' = k \<and> v = n)"
| "satisfies (Both p q) as \<longleftrightarrow> satisfies p as \<and> satisfies q as"
| "satisfies (Either p q) as \<longleftrightarrow> satisfies p as \<or> satisfies q as"

datatype golem_token =
  TokOpen | TokClose | TokAnd | TokOr | TokLess | TokGreater | TokEqual | TokName string | TokNumber u64

definition word_char :: "char \<Rightarrow> bool" where
  "word_char c = (let n = of_char c :: nat
     in 48 \<le> n \<and> n \<le> 57 \<or> 65 \<le> n \<and> n \<le> 90 \<or> 97 \<le> n \<and> n \<le> 122 \<or> c = CHR ''_'')"

definition word_token :: "string \<Rightarrow> golem_token option" where
  "word_token w =
     (if digit_value (hd w) = None then Some (TokName w) else map_option TokNumber (parse_u64 w))"

definition lexeme :: "golem_token option \<Rightarrow> golem_token list option \<Rightarrow> golem_token list option" where
  "lexeme t ts = Option.bind t (\<lambda>t. map_option ((#) t) ts)"

function query_tokens :: "string \<Rightarrow> golem_token list option" where
  "query_tokens [] = Some []"
| "query_tokens (c # cs) =
     (if c = CHR '' '' then query_tokens cs
      else if c = CHR ''('' then lexeme (Some TokOpen) (query_tokens cs)
      else if c = CHR '')'' then lexeme (Some TokClose) (query_tokens cs)
      else if c = CHR ''<'' then lexeme (Some TokLess) (query_tokens cs)
      else if c = CHR ''>'' then lexeme (Some TokGreater) (query_tokens cs)
      else if c = CHR ''='' then lexeme (Some TokEqual) (query_tokens cs)
      else if word_char c
      then lexeme (word_token (c # takeWhile word_char cs)) (query_tokens (dropWhile word_char cs))
      else case cs of
             d # ds \<Rightarrow> if c = CHR ''&'' \<and> d = c then lexeme (Some TokAnd) (query_tokens ds)
                       else if c = CHR ''|'' \<and> d = c then lexeme (Some TokOr) (query_tokens ds) else None
           | [] \<Rightarrow> None)"
  by pat_completeness auto
termination
  by (relation "measure length") (auto simp: less_Suc_eq_le length_dropWhile_le)

text \<open>
  One pass over the tokens: a level keeps the disjuncts that are complete and the conjuncts of the one
  being read, and a parenthesis opens a new level.
\<close>

definition joined :: "(golem_query \<Rightarrow> golem_query \<Rightarrow> golem_query) \<Rightarrow> golem_query option \<Rightarrow> golem_query \<Rightarrow> golem_query" where
  "joined f p q = (case p of None \<Rightarrow> q | Some p \<Rightarrow> f p q)"

function (sequential) operand ::
    "(golem_query option \<times> golem_query option) list \<Rightarrow> golem_query option \<Rightarrow> golem_query option
     \<Rightarrow> golem_token list \<Rightarrow> golem_query option"
  and operator ::
    "(golem_query option \<times> golem_query option) list \<Rightarrow> golem_query option \<Rightarrow> golem_query
     \<Rightarrow> golem_token list \<Rightarrow> golem_query option" where
  "operand outer d c (TokOpen # ts) = operand ((d, c) # outer) None None ts"
| "operand outer d c (TokName k # TokLess # TokNumber n # ts) = operator outer d (joined Both c (Less_Than k n)) ts"
| "operand outer d c (TokName k # TokGreater # TokNumber n # ts) = operator outer d (joined Both c (Greater_Than k n)) ts"
| "operand outer d c (TokName k # TokEqual # TokNumber n # ts) = operator outer d (joined Both c (Equal_To k n)) ts"
| "operand outer d c ts = None"
| "operator outer d c (TokAnd # ts) = operand outer d (Some c) ts"
| "operator outer d c (TokOr # ts) = operand outer (Some (joined Either d c)) None ts"
| "operator ((d', c') # outer) d c (TokClose # ts) = operator outer d' (joined Both c' (joined Either d c)) ts"
| "operator [] d c [] = Some (joined Either d c)"
| "operator outer d c ts = None"
  by pat_completeness auto
termination
  by (relation "measure (\<lambda>x. case x of Inl (_, _, _, ts) \<Rightarrow> length ts | Inr (_, _, _, ts) \<Rightarrow> length ts)") auto

definition read_query :: "string \<Rightarrow> golem_query option" where
  "read_query text = Option.bind (query_tokens text) (operand [] None None)"

section \<open>The query of a block\<close>

definition spans_block :: "u64 \<Rightarrow> golem_query" where
  "spans_block n =
     Both (Either (Less_Than ''inputBlockNumber'' n) (Equal_To ''inputBlockNumber'' n))
          (Either (Greater_Than ''outputBlockNumber'' n) (Equal_To ''outputBlockNumber'' n))"

lemma satisfies_spans_block:
  "satisfies (spans_block n) as \<longleftrightarrow>
     (\<exists>i out. (''inputBlockNumber'', i) \<in> set as \<and> i \<le> n \<and> (''outputBlockNumber'', out) \<in> set as \<and> n \<le> out)"
  by (force simp: spans_block_def order_le_less)

lemma lexeme_Some [simp]: "lexeme (Some t) (Some ts) = Some (t # ts)"
  by (simp add: lexeme_def)

lemma word_chars_decimal: "c \<in> set (decimal n) \<Longrightarrow> word_char c \<and> digit_value c \<noteq> None"
  using decimal_digits [of c n] by (auto simp: word_char_def)

lemma query_tokens_number:
  assumes "cs = [] \<or> \<not> word_char (hd cs)"
  shows "query_tokens (show_u64 n @ cs) = lexeme (Some (TokNumber n)) (query_tokens cs)"
proof -
  obtain c w where w: "show_u64 n = c # w" using decimal_not_Nil [of "unat n"] by (cases "show_u64 n") (auto simp: show_u64_def)
  have chars: "\<forall>x \<in> set (c # w). word_char x \<and> digit_value x \<noteq> None"
    using word_chars_decimal [of _ "unat n"] w by (simp add: show_u64_def)
  have "takeWhile word_char (w @ cs) = w" "dropWhile word_char (w @ cs) = cs"
    using chars assms by (auto simp: takeWhile_append dropWhile_append takeWhile_eq_Nil_iff dropWhile_eq_self_iff)
  moreover have "c \<notin> {CHR '' '', CHR ''('', CHR '')'', CHR ''<'', CHR ''>'', CHR ''=''}"
    using chars by (auto simp: word_char_def)
  moreover have "word_token (c # w) = Some (TokNumber n)"
    using chars parse_show_u64 [of n] by (auto simp: word_token_def w)
  ultimately show ?thesis
    using chars by (simp add: w)
qed

lemma query_tokens_block_query:
  "query_tokens (block_query n) = Some
     [TokOpen, TokName ''inputBlockNumber'', TokLess, TokNumber n, TokOr,
      TokName ''inputBlockNumber'', TokEqual, TokNumber n, TokClose, TokAnd,
      TokOpen, TokName ''outputBlockNumber'', TokGreater, TokNumber n, TokOr,
      TokName ''outputBlockNumber'', TokEqual, TokNumber n, TokClose]"
  by (simp add: block_query_def Let_def query_tokens_number word_char_def word_token_def digit_value_def)

lemma read_block_query: "read_query (block_query n) = Some (spans_block n)"
  by (simp add: read_query_def query_tokens_block_query joined_def spans_block_def)

text \<open>
  What the store and the codec are relied on for.  A query that is read is answered with the entities of
  the store that satisfy it; \<open>live w\<close> are those in the store when the query is asked.  Decoding undoes
  encoding.
\<close>

definition answers_queries :: "('w, 'r) golem_env \<Rightarrow> ('w \<Rightarrow> golem_entity set) \<Rightarrow> bool" where
  "answers_queries env live \<longleftrightarrow>
     (\<forall>text q w es w'. read_query text = Some q \<and> query_entities env text w = Some (Ok es, w')
        \<longrightarrow> set es = {e \<in> live w. satisfies q (numeric_annotations e)})"

definition json_round_trip :: "('w, 'r) golem_env \<Rightarrow> bool" where
  "json_round_trip env \<longleftrightarrow> (\<forall>b bs. json_to_vec env b = Some bs \<longrightarrow> json_from_bytes env bs = Some b)"

text \<open>An entity as the program creates it for a bundle.\<close>

definition created_for :: "('w, 'r) golem_env \<Rightarrow> proof_bundle \<Rightarrow> golem_entity \<Rightarrow> bool" where
  "created_for env b e \<longleftrightarrow>
     (\<exists>req. (bundle_create env b :: (unit, _) outcome) = Ok req
        \<and> storage_value e = gc_data req \<and> numeric_annotations e = gc_numeric_annotations req)"

lemma created_for_iff:
  "created_for env b e \<longleftrightarrow> json_to_vec env b = Some (storage_value e)
     \<and> numeric_annotations e = [(''inputBlockNumber'', input_block_number b), (''outputBlockNumber'', output_block_number b)]"
  by (auto simp: created_for_def bundle_create_def serialise_eth_consensus_proof_bundle_def outcome_simps)

lemma created_for_spans:
  "created_for env b e \<Longrightarrow> satisfies (spans_block n) (numeric_annotations e) \<longleftrightarrow>
     input_block_number b \<le> n \<and> n \<le> output_block_number b"
  by (auto simp: created_for_iff satisfies_spans_block)

lemma created_for_decodes: "created_for env b e \<Longrightarrow> json_round_trip env \<Longrightarrow> json_from_bytes env (storage_value e) = Some b"
  by (simp add: created_for_iff json_round_trip_def)

lemma block_query_answer:
  assumes "answers_queries env live" and "query_entities env (block_query n) w = Some (Ok es, w')"
  shows "set es = {e \<in> live w. satisfies (spans_block n) (numeric_annotations e)}"
  using assms read_block_query unfolding answers_queries_def by blast

lemma bundle_id_inject: "bundle_id a = bundle_id b \<longleftrightarrow> a = b"
proof
  assume eq: "bundle_id a = bundle_id b"
  have "split_on (CHR ''_'') (bundle_id c)
      = [show_u64 (input_block_number c), show_u64 (output_block_number c)]" for c
    using not_in_decimal [of "CHR ''_''"]
    by (simp add: bundle_id_def split_on_word split_on_no_sep show_u64_def digit_value_def)
  with eq have "show_u64 (input_block_number a) = show_u64 (input_block_number b)"
    "show_u64 (output_block_number a) = show_u64 (output_block_number b)"
    by (metis list.inject)+
  then show "a = b" by (simp add: show_u64_inject)
qed simp

lemma ETH_CONSENSUS_PROOF_BTL_eq: "ETH_CONSENSUS_PROOF_BTL = 43200"
  by (simp add: ETH_CONSENSUS_PROOF_BTL_def ETH_CONSENSUS_PROOF_TTL_def)

lemma expect_cases: "expect x = (case x of None \<Rightarrow> Panic | Some a \<Rightarrow> Ok a)"
  by (cases x) simp_all

text \<open>How a lookup can end.\<close>

lemma lookup_cases:
  assumes "get_eth_consensus_proof_bundle_entity env n w = Some (r, w')"
  obtains (empty) "query_entities env (block_query n) w = Some (Ok [], w')" "r = Ok None"
    | (decoded) e es b where "query_entities env (block_query n) w = Some (Ok (e # es), w')"
        "json_from_bytes env (storage_value e) = Some b" "r = Ok (Some b)"
    | (foreign) e es where "query_entities env (block_query n) w = Some (Ok (e # es), w')"
        "json_from_bytes env (storage_value e) = None" "r = Panic"
    | (failed) err where "query_entities env (block_query n) w = Some (Err err, w')" "r = Err err"
    | (panicked) "query_entities env (block_query n) w = Some (Panic, w')" "r = Panic"
proof (cases "query_entities env (block_query n) w")
  case None
  with assms show ?thesis by (simp add: get_eth_consensus_proof_bundle_entity_def io_bind_def)
next
  case (Some q)
  then show ?thesis
    using assms that
    by (cases q; cases "fst q")
      (auto simp: get_eth_consensus_proof_bundle_entity_def io_bind_def io_of_def
        deserialise_eth_consensus_proof_bundle_def expect_cases split: list.splits option.splits)
qed

section \<open>Properties\<close>

text \<open>A store of one bundle; data is a number per bundle, and all queries that are read are answered.\<close>

definition demo_bundle :: proof_bundle where
  "demo_bundle = \<lparr>input_block_number = 100, output_block_number = 200\<rparr>"

definition demo_entity :: golem_entity where
  "demo_entity = \<lparr>storage_value = [1],
     numeric_annotations = [(''inputBlockNumber'', 100), (''outputBlockNumber'', 200)]\<rparr>"

definition demo_golem_env :: "(nat, nat) golem_env" where
  "demo_golem_env =
     \<lparr>json_to_vec = (\<lambda>b. if b = demo_bundle then Some [1] else None),
      json_from_bytes = (\<lambda>bs. if bs = [1] then Some demo_bundle else None),
      create_entities = (\<lambda>cs w. Some (Ok [length cs], Suc w)),
      query_entities = (\<lambda>text w. case read_query text of
          None \<Rightarrow> Some (Err ''query'', Suc w)
        | Some q \<Rightarrow> Some (Ok (filter (\<lambda>e. satisfies q (numeric_annotations e)) [demo_entity]), Suc w))\<rparr>"

lemma demo_golem_answers: "answers_queries demo_golem_env (\<lambda>w. {demo_entity})"
  by (auto simp: answers_queries_def demo_golem_env_def split: if_splits)

text \<open>C40: Looking up a block finds a bundle the program stored for a range that contains the block, both ends
  included, whenever the store holds one: no bundle means that there is none, and the bundle returned is
  decoded from an entity of the store whose annotations span the block, so that it contains the block
  when the program stored it.  The lookup fails only with the query, or when the first match is not an
  entity of the program and does not decode: then it panics.\<close>

theorem bundle_lookup_spans_block:
  assumes "answers_queries env live" and "json_round_trip env"
    and "get_eth_consensus_proof_bundle_entity env n w = Some (r, w')"
  shows "case r of
      Ok None \<Rightarrow> \<not> (\<exists>e \<in> live w. \<exists>b. created_for env b e \<and> input_block_number b \<le> n \<and> n \<le> output_block_number b)
    | Ok (Some b) \<Rightarrow> \<exists>e \<in> live w. json_from_bytes env (storage_value e) = Some b
        \<and> (\<exists>i out. (''inputBlockNumber'', i) \<in> set (numeric_annotations e) \<and> i \<le> n
             \<and> (''outputBlockNumber'', out) \<in> set (numeric_annotations e) \<and> n \<le> out)
        \<and> (\<forall>c. created_for env c e \<longrightarrow> c = b \<and> input_block_number b \<le> n \<and> n \<le> output_block_number b)
    | Err err \<Rightarrow> query_entities env (block_query n) w = Some (Err err, w')
    | Panic \<Rightarrow> query_entities env (block_query n) w = Some (Panic, w')
        \<or> (\<exists>e \<in> live w. json_from_bytes env (storage_value e) = None \<and> (\<forall>c. \<not> created_for env c e))"
proof -
  from assms(3) show ?thesis
  proof (cases rule: lookup_cases)
    case empty
    then show ?thesis using block_query_answer [OF assms(1) empty(1)] created_for_spans [of env _ _ n] by auto
  next
    case (decoded e es b)
    from block_query_answer [OF assms(1) decoded(1)]
    have e: "e \<in> live w" "satisfies (spans_block n) (numeric_annotations e)" by auto
    have "\<forall>c. created_for env c e \<longrightarrow> c = b \<and> input_block_number b \<le> n \<and> n \<le> output_block_number b"
      using created_for_decodes [OF _ assms(2)] created_for_spans [of env _ e n] e(2) decoded(2) by fastforce
    with e decoded show ?thesis unfolding satisfies_spans_block by auto
  next
    case (foreign e es)
    from block_query_answer [OF assms(1) foreign(1)] have "e \<in> live w" by auto
    with foreign created_for_decodes [OF _ assms(2)] show ?thesis by fastforce
  qed simp_all
qed

theorem bundle_lookup_spans_block_witness:
  "\<exists>b. get_eth_consensus_proof_bundle_entity demo_golem_env 150 0 = Some (Ok (Some b), 1)
     \<and> input_block_number b \<le> 150 \<and> 150 \<le> output_block_number b"
proof -
  have found: "get_eth_consensus_proof_bundle_entity demo_golem_env 150 0 = Some (Ok (Some demo_bundle), 1)"
    by (simp add: get_eth_consensus_proof_bundle_entity_def io_bind_def io_of_def demo_golem_env_def read_block_query
        spans_block_def demo_entity_def deserialise_eth_consensus_proof_bundle_def)
  have trip: "json_round_trip demo_golem_env"
    by (auto simp: json_round_trip_def demo_golem_env_def split: if_splits)
  have "created_for demo_golem_env demo_bundle demo_entity"
    by (simp add: created_for_iff demo_golem_env_def demo_bundle_def demo_entity_def)
  with bundle_lookup_spans_block [OF demo_golem_answers trip found] found show ?thesis by auto
qed

end
