(* ===== verification/Spec2Isabelle.thy ===== *)
theory Spec2Isabelle
  imports Bridge_Chain Detector_Spec Release_Build Program_Builder Cold_Start Preparation_Failures Detector_Liveness Error_Text App_Source Golem_Store
begin

text \<open>
  A model of the bridge that proves Ethereum finality and contract storage with an SP1 zero-knowledge
  program, and the theorems that make it correct.

  The program.  A source contract locks deposits and emits events.  A service watches the beacon chain
  for new finality, collects the deposit events of the blocks between its last proved slot and the new
  one, gathers the storage proofs of the depositors' balances, runs the transition natively, and has it
  proved in a zkVM; the proof's public values chain from store hash to store hash.

  Theories, in dependency order, with the code under src/ each models:
    Prelude            outcomes of Rust calls (Ok, Err, Panic), byte orders, slices; shared hints
    Transition_System  executions of a step relation, invariants and simulation, for the systems below
    Light_Client       the interface to the light-client crate (external, a record of parameters)
    Types              golem-symbiotic-consensus-mpt-types/src/types.rs: inputs, outputs and their byte
                       layouts, the storage location of a mapping entry
    Mpt                golem-symbiotic-consensus-mpt-program/src/mpt.rs: verification of account and slot
                       proofs, and the Merkle root over the verified slots
    Consensus_Program  golem-symbiotic-consensus-mpt-program/src/consensus.rs and main.rs: the transition,
                       with and without contract storage, and the zkVM entry point
    Rpc_Query          golem-symbiotic-consensus-mpt/src/rpcs/mod.rs: fallback and racing of providers
    Provider_Io        asynchronous code against one provider, with spawn_blocking
    Env_Text           the string handling of the configuration (split, trim, u64), its readers and the
                       debug switch
    Execution_Http     .../rpcs/execution/http.rs: events in chunks with retries, storage slots, proof
                       inputs and their dry run, the execution proxy
    Preparation_Failures  how the preparation of execution/http.rs can end, one case per failure
    Release_Build      the same event collection with the wrapping additions of a release build
    Finality_Detector  .../api/finality_change_detector.rs: the actor, the handlers, the system of tasks
                       and channels as a step relation
    Detector_Spec      an abstract monitor of the bridge head; what the outside observes of the system of
                       tasks, the monitor can do
    Detector_Liveness  runs of the same system: what it can always do
    Consensus_Client   .../rpcs/consensus/mod.rs: the light client of one provider, preparation and
                       validation of inputs, the consensus proxy
    Bridge_Chain       the detector over the consensus client's preparation, and a bridge that moves by the
                       proofs of emitted windows
    Detector_Start     the start of the detector: polling interval, first look at the chain, its task
    Event_Loop         .../api/event_loop.rs and sp1_prover.rs: start, prover jobs, workers, the proving
                       key, result handling
    Bridge_Process     EventLoop::new and run with the detector task they start, as one process
    Cold_Start         the head a process starts at against the first preparation from it
    Error_Text         the Display and Debug implementations of the errors, over Rust's Debug of strings
    App_Source         golem-symbiotic-app-source-contract-bindings/src/app_src.rs: the contract, its
                       calls to the message endpoint and deposits made from inside them; and the deposits
                       of the deployed contract, src/layerzero/app/AppSource.sol, which keeps a fee back
    Golem_Store        .../api/golem.rs: storing and finding proof bundles, with a lexer and a parser for
                       the part of the store's query language that the program's queries use
    Program_Builder    the make.rs scripts that build the zk program, and the path it is included from

  Conventions.  A Rust Result is an outcome; Panic is an unwrap, expect, index or overflow check that
  fails (overflow is checked, as in debug builds; Release_Build shows that the wrapping of the release
  profile makes a difference to the collection of events only at the end of the 64-bit range of block
  numbers; the other checked addition is the counter of prover jobs).  Logging and cloning are left out.  Errors
  are values that keep their kind and data; only Error_Text turns them into text.  A future is its completion time and result.
  Code outside the repository is a field of an environment record (light_client, mpt_env, exec_env,
  beacon_env, prover_env, golem_env, runtime, startup, printers); what its documentation promises is a named predicate
  (runtime_contract, fp_accepts_canonical, serves, calls_return, proofs_as_requested, prover_honest,
  canonical_bootstraps, answers_queries, json_round_trip,
  printers_distinguish), shown satisfiable by a concrete environment (names with demo).

  Locales.  fixed_codec (byte layouts) is interpreted on ProofOutputs; provider_query and
  tokio_runtime (queries over a runtime) on the two query functions and on an ideal runtime;
  window_preparer (what the detector relies on from the preparation) on the preparation of the
  consensus client, for every environment whose runtimes meet their contract; labelled_simulation on the
  detector's system and its abstract monitor; simulation on the process and the detector inside it; deposit_law
  (what deposits keep across the endpoint's calls) on the books, the log and the announced messages.

  What the theorems show.
    Types, Mpt, Consensus_Program: layouts are bijective, success and every error of verification and of
      the transition are characterised, leaves bind address and value, and hash-chained runs are one
      verified history up to an explicit hash collision.
    Rpc_Query, Execution_Http, Consensus_Client: queries are sound, bounded and live; event collection
      covers its range exactly; prepared inputs hold the depositors' slots and run to the outputs they
      announce.
    Finality_Detector: one job at a time, sound and strictly increasing emissions, when the process
      exits; and three defects: a panicking actor silences it, a next window that is behind swallows
      the current one, a failed job leaves a stale mark.
    Detector_Spec: every sequence of updates sent to and windows taken from the system is one of the
      monitor, whose head moves only by the advancements it reads and which emits only what is ahead.
    Detector_Liveness: with a live actor and a read output, whatever is in flight can be finished and any
      answer that is ahead is then emitted.
    Release_Build: both builds agree on ranges that end a chunk before the end of the 64-bit range; on one
      that ends at its last block the checked build panics and the wrapping one never returns.
    Bridge_Chain: what the detector emits runs as announced, and a bridge that advances only by proofs of
      emitted windows that start at its head stays on one history of verified light-client updates.
    Preparation_Failures: validated inputs fail only on a given-up chunk, the proof query, or storage that
      the native run refuses; never on the consensus part, and never by a panic.
    Cold_Start: a preparation from the head of the start builds on the store the start bootstrapped, and is
      rejected for its store hash only when the first update it is served lies before the head or lends
      the store something else than the first update served to the start.
    Event_Loop: results always find their job; the running loop stages nothing; input heads are fixed; the
      job of a worker that panics is never cleared.
    Bridge_Process, with this theory: the process starts at the head of the checkpoint services' latest
      checkpoint, as its principal provider bootstraps it; with a polling interval that is a positive
      duration its detector works for as long as the process runs, with any other it starts without one; and, as it
      is composed, it never proves anything and never leaves the head it started from.
    Error_Text: the printed errors of the zk program identify the error and its data.
    App_Source, Golem_Store: balanced books under reentrancy, messages that account for every balance, the
      conditions of a revert in both contracts, lookups that find a bundle spanning the block when there is one.
    Program_Builder: the artefact is built where the prover includes it from.
    This theory: emitted windows are provable, changed balances are proved, honest proofs match their
      window.

  Termination and bounds.  Every operation is a total function: the retry loop by the retries left,
  the chunk loop by the blocks left (chunk_progress), nested deposits by the call tree; only the wrapping
  chunk loop may run forever and is a partial function with None for that.  No fuel is used.  A provider with a counter beside its world (counted) bounds the queries of a collection.  System behaviour is
  a step relation, and a reachable state one it leads to.

  Not modelled.  Cryptography, RLP, trie and light-client verification, CBOR/JSON, RPC transports, SP1
  and Golem clients are external crates.  Floating point (the polling interval, elapsed times) is a parameter.
  Derived Serialize and Debug implementations, the printing of debug output and ELF
  artefacts carry no logic of the system.  Timeouts are those of futures that yield.  The Go, TypeScript and
  Solidity parts of the repository outside the Rust crates are not modelled, the deposits of
  src/layerzero/app/AppSource.sol excepted: the contract in the Rust bindings fixes the ABI and the layout
  the bridge relies on, and its depositETH is not the deployed one.
\<close>

section \<open>From the detector to the providers\<close>

text \<open>C1: Whatever the providers answer and however events interleave, every pair of windows the detector
  emits is provable: the transition succeeds on the current window from the tracked slot and store
  hash to the announced output, past the input and on an epoch boundary, and the same holds for the
  next window from the output that was staged.\<close>

theorem emitted_windows_are_provable:
  assumes "reachable (preparers PR) (detector_init slot h nx) s" and "LogEmit d dual \<in> set (log s)"
  shows "(\<exists>pr \<in> PR. provable_window (pr_light_client pr) (pr_mpt pr) (pr_enable_debug pr)
            (d_slot d) (d_store_hash d) True (current_window dual))
    \<and> (\<forall>nw \<in> set_option (next_window dual). \<exists>u pr. d_next_expected_output d = Some u \<and> upd_slot u \<noteq> d_slot d
          \<and> pr \<in> PR \<and> provable_window (pr_light_client pr) (pr_mpt pr) (pr_enable_debug pr)
                (upd_slot u) (upd_store_hash u) True nw)"
proof -
  from reachable_log_inv [OF assms(1)] assms(2)
  have answer: "answers (preparers PR) (current_job d) dual"
    unfolding log_inv_def by (blast intro: log_ok_emit)
  have next_job: "job_next_expected_output (current_job d) = Some u
      \<Longrightarrow> d_next_expected_output d = Some u \<and> upd_slot u \<noteq> d_slot d" for u
    by (auto simp: current_job_def filtered_next_def split: option.splits if_splits)
  show ?thesis
    using answer_provable [OF answer] next_job by (simp add: current_job_def) metis
qed

theorem emitted_windows_are_provable_witness:
  "provable_window demo_light_client demo_mpt_env False 32 32 True demo_prepared_window"
  using emitted_windows_are_provable [OF demo_pipeline, of "demo_busy 32" demo_prepared_dual]
  by (simp add: demo_state_def demo_preparation_defs demo_prepared_dual_def demo_detector_defs)

text \<open>The detector's check that a result belongs to its slot never fires: a result that is not marked
  stale always starts at the slot the detector tracks, so the only results dropped at that point are
  those that are not ahead.\<close>

theorem fresh_results_start_at_tracked_slot:
  assumes "reachable (preparers PR) (detector_init slot h nx) s" and "running s"
    and "Ok dual \<in> set (result_queue s)" and "\<not> d_stale (det s)"
  shows "w_input_slot (current_window dual) = d_slot (det s)"
  using assms by (rule windows.fresh_result_matches)

theorem fresh_results_start_at_tracked_slot_witness:
  "w_input_slot (current_window demo_prepared_dual) = 32"
proof -
  let ?prepare = "prepare_from_env demo_preparation"
  have member: "?prepare \<in> preparers {demo_preparation}"
    by (simp add: preparers_def demo_contracts_hold)
  have job: "validate_and_prepare_job ?prepare demo_job = Ok demo_prepared_dual"
    by (simp add: validate_and_prepare_job_def demo_job_def demo_prepare_from_env demo_prepared_dual_def)
  from reach_step [OF reach_step [OF reach_step [OF demo_start demo_tick] demo_recv] demo_done [OF member job]]
  show ?thesis
    using fresh_results_start_at_tracked_slot [of "{demo_preparation}" 32 32 None]
    by (force simp: demo_state_def demo_detector_defs)
qed

section \<open>From deposits to proved slots\<close>

text \<open>
  \<open>logged\<close>: the decoded logs of a block hold the \<open>TokensLocked\<close> events among the given contract
  events.
\<close>

definition logged :: "('l \<Rightarrow> tokens_locked option) \<Rightarrow> 'l list \<Rightarrow> app_event list \<Rightarrow> bool" where
  "logged decode logs es \<longleftrightarrow>
     (\<forall>u a t. TokensLocked u a t \<in> set es
        \<longrightarrow> \<lparr>tl_user = u, tl_amount = a, tl_when = t\<rparr> \<in> set (List.map_filter decode logs))"

text \<open>C9: A user whose locked tokens a transaction in some block changed is proved by inputs prepared over
  any range that contains the block: among their slots is the storage slot of the user's entry in the
  contract's mapping, at the position the contract's layout gives it.\<close>

theorem changed_balances_are_proved:
  assumes "depositETH now d s = Some s'" and "books 0 s" and "locked_tokens s' u \<noteq> locked_tokens s u"
    and "\<forall>es. emitted s' = emitted s @ es \<longrightarrow> logged (decode_log env) (logs_of block) es"
    and "serves env a logs_of" and "proofs_as_requested env"
    and "unat lo \<le> block" and "block \<le> unat hi"
    and "prepare_mpt_proof_inputs_from env lc mpt dbg a lo hi cpi w = Some (Ok inputs, w')"
  shows "\<exists>i. slot_index state_variables 0 ''lockedTokens'' = Some (unat i)
    \<and> mapping_slot (keccak256 mpt) (address_bytes u) [i :: u8]
        \<in> ss_key ` set (cs_storage_slots (pi_contract_storage inputs))"
proof -
  from locked_change_has_event [OF assms(1-3)] obtain es where
    es: "emitted s' = emitted s @ es" and "app_locks es u" by blast
  then obtain amount t where event: "TokensLocked u amount t \<in> set es"
    by (auto simp: app_locks_def)
  with assms(4) es have log: "\<lparr>tl_user = u, tl_amount = amount, tl_when = t\<rparr>
      \<in> set (List.map_filter (decode_log env) (logs_of block))"
    by (auto simp: logged_def)
  from assms(9) obtain events w1 r slots out where
    ev: "get_source_contract_events_of env a lo hi w = Some (Ok events, w1)"
    and pf: "prepared_from env mpt a hi events r slots"
    and inputs: "inputs = assemble_proof_inputs cpi r (sort_key ss_slot_key_address slots)"
    by (rule prepare_Ok)
  have "events = block_events env logs_of (unat lo) (unat hi)"
    using events_from_covers [OF ev [unfolded get_source_contract_events_of_def] assms(5)] by simp
  with log assms(7,8) have "\<lparr>tl_user = u, tl_amount = amount, tl_when = t\<rparr> \<in> set events"
    by (force simp: block_events_def List.map_filter_def simp del: upt_Suc)
  then have "u \<in> tl_user ` set events" by force
  then have "locked_tokens_slot (keccak256 mpt) u \<in> ss_key ` set slots"
    using prepared_slots_complete [OF pf assms(6)] by simp
  then show ?thesis
    using locked_tokens_slot_index
    by (intro exI [of _ SOURCE_CONTRACT_LOCKED_TOKENS_STORAGE_INDEX]) (simp add: inputs locked_tokens_slot_def)
qed

theorem changed_balances_are_proved_witness:
  "mapping_slot of_be_bytes (address_bytes (Address 5)) [1]
     \<in> ss_key ` set (cs_storage_slots (pi_contract_storage demo_proof_inputs))"
proof -
  let ?d = "Deposit (Address 5) 9 demo_args [] (Some 3)" and ?start = "app_source_new (Address 8)"
  let ?s = "finish_deposit 1 (Address 5) 9 3 (send_state (Address 5) 9 demo_args ?start)"
  have run: "depositETH 1 ?d ?start = Some ?s"
    by (simp add: depositETH_Some send_state_def app_source_new_def del: depositETH.simps)
  have books: "books 0 ?start" by (rule new_contract)
  have logs: "\<forall>es. emitted ?s = emitted ?start @ es \<longrightarrow> logged (decode_log demo_exec_env) (demo_logs 1050) es"
    by (auto simp: app_source_new_def finish_deposit_def send_state_def logged_def demo_exec_env_def demo_logs_def demo_event_def List.map_filter_def)
  have "\<exists>i. slot_index state_variables 0 ''lockedTokens'' = Some (unat i)
    \<and> mapping_slot (keccak256 demo_mpt_env) (address_bytes (Address 5)) [i :: u8]
        \<in> ss_key ` set (cs_storage_slots (pi_contract_storage demo_proof_inputs))"
    by (rule changed_balances_are_proved [OF run books _ logs demo_serves demo_proofs_as_requested _ _
          demo_prepared [of True "Address 3" 0]]) (simp_all add: app_source_new_def finish_deposit_def send_state_def)
  then obtain i :: u8 where i: "slot_index state_variables 0 ''lockedTokens'' = Some (unat i)"
    "mapping_slot (keccak256 demo_mpt_env) (address_bytes (Address 5)) [i]
        \<in> ss_key ` set (cs_storage_slots (pi_contract_storage demo_proof_inputs))"
    by blast
  from i(1) have "i = 1" by (simp add: state_variables_def word_unat_eq_iff)
  with i(2) show ?thesis by (simp add: demo_mpt_env_def)
qed

section \<open>From a prepared window to a handled proof\<close>

lemma debug_print_irrelevant: "consensus_mpt_program lc mpt i dbg = consensus_mpt_program lc mpt i dbg'"
  by (simp add: consensus_mpt_program_def)

text \<open>
  What the prover is relied on for: the CBOR codec decodes what it encoded, and a proof carries as
  public values what the proved program committed on the given input.
\<close>

definition prover_honest ::
  "(bytes \<Rightarrow> (string, 'x proof_inputs) outcome) \<Rightarrow> 'x light_client \<Rightarrow> 'm mpt_env
   \<Rightarrow> ('x, 'k, 'p) prover_env \<Rightarrow> bool" where
  "prover_honest decode lc mpt env \<longleftrightarrow>
     (\<forall>i bs. cbor_to_vec env i = Ok bs \<longrightarrow> decode bs = Ok i) \<and>
     (\<forall>pk bs p. prove_plonk env pk bs = Ok p \<longrightarrow> zk_main decode lc mpt bs = Ok (public_values env p))"

text \<open>C10: The outputs of a proof are those its window announced: when a job over the inputs of a provable
  window ends with a proof, its public values decode, to the announced output slot and store hash from
  the store hash the window starts at; handling it removes the job and the loop goes on.\<close>

theorem honest_proofs_match_their_window:
  assumes "provable_window lc mpt dbg slot h True w" and "prover_honest decode lc mpt env"
    and "finality_update_job env cell job_id head (w_proof_inputs w) = (Ok result, cell')"
    and "el_prover_jobs el job_id = Some job" and "\<forall>po. json_to_string env po \<noteq> None"
  shows "on_job_result env (Ok result) el = (el\<lparr>el_prover_jobs := (el_prover_jobs el)(job_id := None)\<rparr>, Looping)
    \<and> (\<exists>po. proof_outputs_from_bytes (public_values env (pjo_proof result)) = Ok po
        \<and> po_input_store_hash po = h \<and> po_output_slot po = w_expected_output_slot w
        \<and> po_output_store_hash po = w_expected_output_store_hash w)"
proof -
  from finality_update_job_Ok [OF assms(3)] obtain bs pk where
    ids: "pjo_job_id result = job_id" and "cbor_to_vec env (w_proof_inputs w) = Ok bs"
    and "prove_plonk env pk bs = Ok (pjo_proof result)"
    by blast
  with assms(2) have decode: "decode bs = Ok (w_proof_inputs w)"
    and main: "zk_main decode lc mpt bs = Ok (public_values env (pjo_proof result))"
    by (auto simp: prover_honest_def)
  from assms(1) obtain out where out: "consensus_mpt_program lc mpt (w_proof_inputs w) dbg = Ok out"
    "po_input_store_hash out = h" "po_output_slot out = w_expected_output_slot w"
    "po_output_store_hash out = w_expected_output_store_hash w"
    by (auto simp: provable_window_def)
  from main decode out(1) debug_print_irrelevant [of lc mpt "w_proof_inputs w" dbg True]
  have "proof_outputs_to_bytes out = Ok (public_values env (pjo_proof result))"
    by (auto simp: zk_main_def outcome_simps)
  then have dec: "proof_outputs_from_bytes (public_values env (pjo_proof result)) = Ok out"
    by (simp add: po_codec.dec_iff)
  from dec assms(4,5) ids
  have "handle_prover_success env (pjo_job_id result) (pjo_proof result) el
      = (el\<lparr>el_prover_jobs := (el_prover_jobs el)(job_id := None)\<rparr>, Ok ())"
    by (auto simp: handle_prover_success_def Let_def outcome_simps)
  then show ?thesis
    using dec out(2-4) by (auto simp: on_job_result_def)
qed

theorem honest_proofs_match_their_window_witness:
  "\<exists>bs po. proof_outputs_from_bytes bs = Ok po \<and> po_output_slot po = 64 \<and> po_output_store_hash po = 64"
proof -
  obtain out where run: "consensus_mpt_program demo_light_client demo_mpt_env demo_proof_inputs True = Ok out"
    using demo_dry_run by blast
  obtain bs where bs: "proof_outputs_to_bytes out = Ok bs" using po_codec.enc_total by blast
  define env :: "(nat, nat, bytes) prover_env" where
    "env = \<lparr>cbor_to_vec = (\<lambda>i. if i = demo_proof_inputs then Ok [] else Err ''''), setup_elf = Some 0,
            prove_plonk = (\<lambda>pk c. if c = [] then Ok bs else Err ''''), public_values = id,
            json_to_string = (\<lambda>p. Some ''{}'')\<rparr>"
  have main: "zk_main (\<lambda>c. Ok demo_proof_inputs) demo_light_client demo_mpt_env [] = Ok bs"
    using run bs by (simp add: zk_main_def)
  have honest: "prover_honest (\<lambda>c. Ok demo_proof_inputs) demo_light_client demo_mpt_env env"
    using main by (auto simp: prover_honest_def env_def split: if_splits)
  have window: "provable_window demo_light_client demo_mpt_env False 32 32 True demo_prepared_window"
    using prepared_window_provable [OF demo_contracts_hold demo_preparation_runs] by (simp add: demo_preparation_defs)
  have job: "finality_update_job env None 1 32 (w_proof_inputs demo_prepared_window)
      = (Ok \<lparr>pjo_job_id = 1, pjo_input_head = 32, pjo_proof = bs\<rparr>, Some 0)"
    by (simp add: finality_update_job_def env_def demo_prepared_window_def join_blocking_def get_proving_key_def)
  have "el_prover_jobs (ls_loop demo_staged) 1 = Some \<lparr>pj_inputs_with_window = demo_prepared_window, pj_start_instant = 0\<rparr>"
    by (simp add: demo_staged_def)
  from honest_proofs_match_their_window [OF window honest job this] show ?thesis
    by (auto simp: env_def demo_prepared_window_def)
qed

section \<open>The running process\<close>

lemma emission_provable:
  assumes "reachable (preparers PR) (detector_init slot h nx) s" and "LogEmit d dual \<in> set (log s)"
    and "tracks_start slot h d"
  shows "next_window dual = None \<and> (\<exists>pr \<in> PR. provable_window (pr_light_client pr) (pr_mpt pr)
           (pr_enable_debug pr) slot h True (current_window dual))"
proof -
  from reachable_log_inv [OF assms(1)] assms(2) have answer: "answers (preparers PR) (current_job d) dual"
    unfolding log_inv_def by (blast intro: log_ok_emit)
  moreover from assms(3) have job: "job_next_expected_output (current_job d) = None"
    "job_slot (current_job d) = slot" "job_store_hash (current_job d) = h"
    by (simp_all add: current_job_def tracks_start_def filtered_next_def)
  ultimately have "next_window dual = None" by (auto simp: answers_def validate_and_prepare_job_Ok)
  with answer_provable(1) [OF answer] job show ?thesis by simp
qed

text \<open>A run of the process in which one window is emitted and taken.\<close>

lemma process_own_steps:
  assumes "process_reachable Prep Envs p0 \<lparr>bp_loop = l, bp_detector = Some (demo_state d js a rs os lg)\<rparr>"
    and "ls_status l = Looping" and "length os \<le> length os'"
    and "system_step Prep (demo_state d js a rs os lg) (demo_state d' js' a' rs' os' lg')"
  shows "process_reachable Prep Envs p0 \<lparr>bp_loop = l, bp_detector = Some (demo_state d' js' a' rs' os' lg')\<rparr>"
proof -
  have "own_step Prep (demo_state d js a rs os lg) (demo_state d' js' a' rs' os' lg')"
    using assms(3,4) by (simp add: own_step_def) (simp add: demo_state_def)
  from leads_to_step [OF assms(1) detector_side [OF _ _ this]] assms(2) show ?thesis
    by (simp add: process_running_def) (simp add: demo_state_def)
qed

lemma demo_process_emits:
  "process_reachable (preparers {demo_preparation}) {} (demo_process None)
     \<lparr>bp_loop = bp_loop (demo_process None),
      bp_detector = Some (demo_state (demo_detector 64) [] ActorIdle [] [demo_prepared_dual]
        [LogEmit (demo_busy 32) demo_prepared_dual])\<rparr>"
proof -
  have member: "prepare_from_env demo_preparation \<in> preparers {demo_preparation}"
    by (simp add: preparers_def demo_contracts_hold)
  have job: "validate_and_prepare_job (prepare_from_env demo_preparation) demo_job = Ok demo_prepared_dual"
    by (simp add: validate_and_prepare_job_def demo_job_def demo_prepare_from_env demo_prepared_dual_def)
  have dual: "32 < output_slot_of demo_prepared_dual" "w_input_slot (current_window demo_prepared_dual) = 32"
    "next_window demo_prepared_dual = None" "output_slot_of demo_prepared_dual = 64"
    by (simp_all add: demo_prepared_dual_def demo_prepared_window_def)
  have looping: "ls_status (bp_loop (demo_process None)) = Looping"
    by (simp add: demo_process_def loop_init_def)
  have start: "demo_process None = \<lparr>bp_loop = bp_loop (demo_process None),
      bp_detector = Some (demo_state (demo_detector 32) [] ActorIdle [] [] [])\<rparr>"
    by (simp add: demo_process_def demo_detector_32 demo_state_init)
  have "process_reachable (preparers {demo_preparation}) {} (demo_process None)
      \<lparr>bp_loop = bp_loop (demo_process None), bp_detector = Some (demo_state (demo_detector 32) [] ActorIdle [] [] [])\<rparr>"
    using leads_to_refl [of "process_step (preparers {demo_preparation}) {}" "demo_process None"] start by simp
  note process_own_steps [OF process_own_steps [OF process_own_steps [OF this looping _ demo_tick] looping _ demo_recv]
      looping _ demo_done [OF member job]]
  from process_own_steps [OF this looping _ demo_emit [OF dual(1-3)]] dual(4) show ?thesis by simp
qed

text \<open>C21: The process starts at the head of the latest checkpoint.  The checkpoint is the one the checkpoint
  services report at that time; the first configured provider bootstraps a client from it and serves
  the first update of the sync committee period of its slot, which is verified against the client's store.  The slot
  is the store's, and the hash is that of the store with exactly the next sync committee and participant
  counts that applying the update gives; the loop and the detector task start with this slot and hash.\<close>

theorem process_starts_at_checkpoint_head:
  assumes "process_start st = Ok p" and "runtime_contract (st_head_runtime st)"
    and "slot = el_current_slot (ls_loop (bp_loop p))" and "h = el_store_hash (ls_loop (bp_loop p))"
  shows "\<exists>s proxy principal checkpoint t client w1 first rest w2.
     consensus_http_proxy_from_env (st_env_var st) (st_parse_url st) = Ok proxy
     \<and> st_env_var st ''SOURCE_CONSENSUS_HTTP_RPCS'' = Some s \<and> principal = hd (rpc_urls (st_parse_url st) s)
     \<and> get_latest_checkpoint (st_env_var st) (st_beacon st) (beacon_clock (st_beacon st) principal) = Some (Ok checkpoint, t)
     \<and> bootstrap_from_checkpoint (st_env_var st) (st_beacon st) checkpoint (beacon_wait (st_beacon st) t principal)
         = Some (Ok client, w1)
     \<and> slot = beacon_slot (finalized_header (cl_store client))
     \<and> rpc_get_updates (st_beacon st) (calc_sync_period (st_beacon st) slot) 1 w1 = Some (Ok (first # rest), w2)
     \<and> verify_update (st_light_client st) first (inner_expected_current_slot (st_beacon st) (cl_config client) w2)
          (cl_store client) (bc_genesis_root (cl_config client)) (bc_forks (cl_config client)) = None
     \<and> (let advanced = apply_update (st_light_client st) (cl_store client) first
        in sha256_hash_helios_store (st_light_client st) ((cl_store client)
             \<lparr>next_sync_committee := next_sync_committee advanced,
              previous_max_active_participants := previous_max_active_participants advanced,
              current_max_active_participants := current_max_active_participants advanced\<rparr>) = Ok h)
     \<and> (\<forall>d \<in> set_option (bp_detector p). d = system_init (detector_init slot h None))"
proof -
  from assms(1,2) obtain proxy s served where
    proxy: "consensus_http_proxy_from_env (st_env_var st) (st_parse_url st) = Ok proxy"
    and cold: "cold_start_head (st_env_var st) (st_light_client st) (st_beacon st) (ch_principal_provider_url proxy) slot h s served"
    unfolding assms(3,4) by (rule process_start_is_cold)
  from configured_proxy [OF proxy] obtain urls where
    "st_env_var st ''SOURCE_CONSENSUS_HTTP_RPCS'' = Some urls" "ch_principal_provider_url proxy = hd (rpc_urls (st_parse_url st) urls)"
    by (metis list.sel(1))
  moreover have "\<forall>d \<in> set_option (bp_detector p). d = system_init (detector_init slot h None)"
    by (rule process_start_shape [OF assms(1)])
      (auto simp: assms(3,4) loop_init_def new_event_loop_def detector_task_cases split: if_splits)
  moreover from cold obtain checkpoint t client w1 rest w2 where
    "get_latest_checkpoint (st_env_var st) (st_beacon st) (beacon_clock (st_beacon st) (ch_principal_provider_url proxy))
       = Some (Ok checkpoint, t)"
    "bootstrap_from_checkpoint (st_env_var st) (st_beacon st) checkpoint
       (beacon_wait (st_beacon st) t (ch_principal_provider_url proxy)) = Some (Ok client, w1)"
    "slot = beacon_slot (finalized_header (cl_store client))"
    "rpc_get_updates (st_beacon st) (calc_sync_period (st_beacon st) slot) 1 w1 = Some (Ok (served # rest), w2)"
    "verify_update (st_light_client st) served (inner_expected_current_slot (st_beacon st) (cl_config client) w2)
       (cl_store client) (bc_genesis_root (cl_config client)) (bc_forks (cl_config client)) = None"
    "sha256_hash_helios_store (st_light_client st) (synced_by (st_light_client st) (cl_store client) served) = Ok h"
    unfolding cold_start_head_def by blast
  ultimately show ?thesis
    using proxy
    apply -
    apply (rule exI [of _ urls], rule exI [of _ proxy], rule exI [of _ "ch_principal_provider_url proxy"],
        rule exI [of _ checkpoint], rule exI [of _ t], rule exI [of _ client], rule exI [of _ w1],
        rule exI [of _ served], rule exI [of _ rest], rule exI [of _ w2])
    by (simp add: synced_by_def Let_def)
qed

theorem process_starts_at_checkpoint_head_witness:
  "\<exists>checkpoint client w w'. bootstrap_from_checkpoint (st_env_var (demo_start_env None))
     (st_beacon (demo_start_env None)) checkpoint w = Some (Ok client, w')
     \<and> beacon_slot (finalized_header (cl_store client)) = 32"
proof -
  have head: "32 = el_current_slot (ls_loop (bp_loop (demo_process None)))"
    "32 = el_store_hash (ls_loop (bp_loop (demo_process None)))"
    by (simp_all add: demo_process_def loop_init_def new_event_loop_def)
  have rt: "runtime_contract (st_head_runtime (demo_start_env None))"
    by (simp add: demo_start_env_def demo_startup_def ideal_runtime_contract)
  have start: "process_start (demo_start_env None) = (Ok (demo_process None) :: (unit, _) outcome)"
    by (rule demo_process_starts) simp
  from process_starts_at_checkpoint_head [OF start rt head]
  obtain checkpoint v client w1 where
    "bootstrap_from_checkpoint (st_env_var (demo_start_env None)) (st_beacon (demo_start_env None)) checkpoint v
       = Some (Ok client, w1)"
    and "32 = beacon_slot (finalized_header (cl_store client))"
    by (elim exE conjE) (rule that)
  then show ?thesis by metis
qed

text \<open>C11: The process, as it is composed, never proves anything and never moves: from any start, whatever
  the providers answer, the loop stays as it began without a worker or a staged proof, the process
  keeps running, and all the detector emits are single windows from the head of the start, each
  provable and each further than the one before.\<close>

theorem running_process_never_advances:
  assumes "process_start st = Ok p0" and "process_reachable (preparers PR) Envs p0 p"
  shows "ls_loop (bp_loop p) = ls_loop (bp_loop p0) \<and> ls_workers (bp_loop p) = [] \<and> ls_staged (bp_loop p) = []
     \<and> (\<forall>s \<in> set_option (bp_detector p). running s
          \<and> sorted_wrt (<) (map emitted_slot (log s))
          \<and> (\<forall>e \<in> set (log s). \<exists>d dual. e = LogEmit d dual \<and> next_window dual = None
               \<and> (\<exists>pr \<in> PR. provable_window (pr_light_client pr) (pr_mpt pr) (pr_enable_debug pr)
                     (el_current_slot (ls_loop (bp_loop p0))) (el_store_hash (ls_loop (bp_loop p0))) True
                     (current_window dual))))"
proof -
  let ?el = "ls_loop (bp_loop p0)"
  have inv: "process_inv ?el p"
    using process_reachable_inv [OF assms(2,1)] by blast
  have "running s \<and> sorted_wrt (<) (map emitted_slot (log s))
      \<and> (\<forall>e \<in> set (log s). \<exists>d dual. e = LogEmit d dual \<and> next_window dual = None
           \<and> (\<exists>pr \<in> PR. provable_window (pr_light_client pr) (pr_mpt pr) (pr_enable_debug pr)
                 (el_current_slot ?el) (el_store_hash ?el) True (current_window dual)))"
    if "bp_detector p = Some s" for s
  proof -
    from process_detector_reachable [OF assms(2,1) that]
    have reach: "reachable (preparers PR) (detector_init (el_current_slot ?el) (el_store_hash ?el) None) s" .
    from inv that have alone: "unattended (el_current_slot ?el) (el_store_hash ?el) s"
      by (auto simp: process_inv_def)
    have "running s" using reachable_exit_inv [OF reach] alone by (simp add: exit_inv_def unattended_def)
    moreover have "sorted_wrt (<) (map emitted_slot (log s))"
      using reachable_log_inv [OF reach] log_ok_sorted unattended_emissions [OF alone] by (auto simp: log_inv_def)
    moreover have "\<exists>d dual. e = LogEmit d dual \<and> next_window dual = None
        \<and> (\<exists>pr \<in> PR. provable_window (pr_light_client pr) (pr_mpt pr) (pr_enable_debug pr)
              (el_current_slot ?el) (el_store_hash ?el) True (current_window dual))" if e: "e \<in> set (log s)" for e
    proof -
      from alone e obtain d dual where "e = LogEmit d dual" "tracks_start (el_current_slot ?el) (el_store_hash ?el) d"
        unfolding unattended_def by blast
      with emission_provable [OF reach] e show ?thesis by blast
    qed
    ultimately show ?thesis by blast
  qed
  with inv show ?thesis by (auto simp: process_inv_def)
qed

theorem running_process_never_advances_witness:
  "provable_window demo_light_client demo_mpt_env False 32 32 True (current_window demo_prepared_dual)
   \<and> next_window demo_prepared_dual = None"
  using running_process_never_advances [OF demo_process_starts [of None] demo_process_emits]
  by (auto simp: demo_state_def demo_process_def loop_init_def new_event_loop_def demo_preparation_defs)

text \<open>C39: When the configuration parses and the providers answer, the start succeeds whatever the sign of the
  polling interval, and the process never exits.  With a positive interval its detector keeps working: at
  every point it runs, and is either waiting for a job's result or can start the job of the head at the
  next tick.  With an interval that no timer can have, zero or negative, there is no detector from the
  start on.\<close>

theorem detector_lives_on_positive_interval:
  assumes "consensus_http_proxy_from_env (st_env_var st) (st_parse_url st) = Ok proxy"
    and "snd (get_latest_finality_slot_and_store_hash (st_head_runtime st) (st_env_var st) (st_light_client st)
              (st_beacon st) proxy) = Ok (slot, h)"
    and "snd (get_latest_finality_slot (st_slot_runtime st) (st_env_var st) (st_beacon st) proxy) = Ok init"
    and "parse_f64 st (case st_env_var st ''HELIOS_POLLING_INTERVAL'' of
                         Some v \<Rightarrow> v | None \<Rightarrow> DEFAULT_POLLING_INTERVAL) = Some secs"
  shows "\<exists>p0. process_start st = Ok p0 \<and> (\<forall>p. process_reachable Prep Envs p0 p \<longrightarrow>
     process_running p \<and>
     (if \<exists>period > 0. duration_from_secs_f64 st secs = Some period
      then \<exists>s. bp_detector p = Some s \<and> running s \<and>
             (d_in_flight (det s) \<or>
              (\<exists>t. process_step Prep Envs p (p\<lparr>bp_detector := Some t\<rparr>) \<and> d_in_flight (det t)
                 \<and> job_queue t = [\<lparr>job_slot = slot, job_store_hash = h, job_next_expected_output = None\<rparr>]))
      else bp_detector p = None))"
proof -
  have secs: "(polling_interval_sec st :: (unit, _) outcome) = Ok secs"
    using assms(4) by (simp add: polling_interval_sec_def)
  let ?p0 = "\<lparr>bp_loop = loop_init ((new_event_loop slot h)\<lparr>el_output_rx := False, el_advance_tx := False, el_job_rx := False\<rparr>),
      bp_detector = map_option system_init (detector_task st secs slot h None)\<rparr>"
  have start: "process_start st = Ok ?p0"
    using assms(1-3) secs by (auto simp: process_start_Ok event_loop_new_Ok)
  have head: "el_current_slot (ls_loop (bp_loop ?p0)) = slot" "el_store_hash (ls_loop (bp_loop ?p0)) = h"
    by (simp_all add: loop_init_def new_event_loop_def)
  have works: "process_running p \<and> (bp_detector p = None \<longleftrightarrow> bp_detector ?p0 = None)
      \<and> (\<forall>s \<in> set_option (bp_detector p). running s \<and> (d_in_flight (det s) \<or> (\<exists>t.
             process_step Prep Envs p (p\<lparr>bp_detector := Some t\<rparr>) \<and> d_in_flight (det t)
             \<and> job_queue t = [\<lparr>job_slot = slot, job_store_hash = h, job_next_expected_output = None\<rparr>])))"
    if p: "process_reachable Prep Envs ?p0 p" for p
  proof -
    note inv = process_reachable_inv [OF p start]
    have running: "process_running p"
      using hosted_runs [OF p start] inv by (simp add: process_running_def process_inv_def)
    then show ?thesis
      using inv idle_detector_ticks [OF p start _ running] unfolding head by (auto simp: process_running_def)
  qed
  have alive: "bp_detector ?p0 = (if \<exists>period > 0. duration_from_secs_f64 st secs = Some period
      then Some (system_init (detector_init slot h None)) else None)"
    by (simp add: detector_task_cases)
  show ?thesis
  proof (intro exI [of _ ?p0] conjI allI impI start)
    fix p assume p: "process_reachable Prep Envs ?p0 p"
    from works [OF p] show "process_running p" by blast
    from works [OF p] alive show "if \<exists>period > 0. duration_from_secs_f64 st secs = Some period
      then \<exists>s. bp_detector p = Some s \<and> running s \<and>
             (d_in_flight (det s) \<or>
              (\<exists>t. process_step Prep Envs p (p\<lparr>bp_detector := Some t\<rparr>) \<and> d_in_flight (det t)
                 \<and> job_queue t = [\<lparr>job_slot = slot, job_store_hash = h, job_next_expected_output = None\<rparr>]))
      else bp_detector p = None"
      by (cases "bp_detector p") (simp_all split: if_splits)
  qed
qed

theorem detector_lives_on_positive_interval_witness:
  "\<exists>p q. process_start (demo_start_env None) = (Ok p :: (unit, _) outcome) \<and> bp_detector p \<noteq> None \<and> process_running p
     \<and> process_start (demo_start_env (Some ''0'')) = (Ok q :: (unit, _) outcome) \<and> bp_detector q = None \<and> process_running q"
proof -
  have env: "st_env_var (demo_start_env i) = demo_env_var(''HELIOS_POLLING_INTERVAL'' := i)"
    "st_parse_url (demo_start_env i) = (\<lambda>u. Some 0)" "st_light_client (demo_start_env i) = demo_light_client"
    "st_head_runtime (demo_start_env i) = ideal_runtime" "st_slot_runtime (demo_start_env i) = ideal_runtime" for i
    by (simp_all add: demo_start_env_def demo_startup_def)
  have answers: "consensus_http_proxy_from_env (st_env_var (demo_start_env i)) (st_parse_url (demo_start_env i)) = Ok demo_proxy"
    "snd (get_latest_finality_slot_and_store_hash (st_head_runtime (demo_start_env i)) (st_env_var (demo_start_env i))
       (st_light_client (demo_start_env i)) (st_beacon (demo_start_env i)) demo_proxy) = Ok (32, 32)"
    "snd (get_latest_finality_slot (st_slot_runtime (demo_start_env i)) (st_env_var (demo_start_env i))
       (st_beacon (demo_start_env i)) demo_proxy) = Ok 64" for i
    by (simp_all add: env demo_start_proxy demo_start_looks)
  have default: "parse_f64 (demo_start_env None) (case st_env_var (demo_start_env None) ''HELIOS_POLLING_INTERVAL'' of
        Some v \<Rightarrow> v | None \<Rightarrow> DEFAULT_POLLING_INTERVAL) = Some 10"
    and zero: "parse_f64 (demo_start_env (Some ''0'')) (case st_env_var (demo_start_env (Some ''0'')) ''HELIOS_POLLING_INTERVAL'' of
        Some v \<Rightarrow> v | None \<Rightarrow> DEFAULT_POLLING_INTERVAL) = Some 0"
    and secs: "duration_from_secs_f64 (demo_start_env i) n = Some (n * 1000000000)" for i n
    by (simp_all add: demo_start_env_def demo_startup_def DEFAULT_POLLING_INTERVAL_def demo_env_var_def parse_u64_def
        digit_value_def)
  from detector_lives_on_positive_interval [OF answers default, where Prep = "{}" and Envs = "{}"]
  have "\<exists>p. process_start (demo_start_env None) = (Ok p :: (unit, _) outcome) \<and> bp_detector p \<noteq> None \<and> process_running p"
    using leads_to_refl by (fastforce simp: secs)
  moreover from detector_lives_on_positive_interval [OF answers zero, where Prep = "{}" and Envs = "{}"]
  have "\<exists>q. process_start (demo_start_env (Some ''0'')) = (Ok q :: (unit, _) outcome) \<and> bp_detector q = None \<and> process_running q"
    using leads_to_refl by (fastforce simp: secs)
  ultimately show ?thesis by blast
qed

section \<open>Windows behind a staged one\<close>

text \<open>Proving ahead keeps the chain: when a window has been staged, a provable window from the update the
  detector is sent continues it.  The two native runs are hash-chained and their slots meet, and, unless
  two different stores hash alike, their updates are one verified history from the store of the first
  window to a store with the hash the second one announces.\<close>

theorem window_behind_staged_one_continues_it:
  assumes "provable_window lc mpt dbg slot h True w"
    and "stage_transition_proof now w el = Ok (el', wk, Some u)"
    and "provable_window lc mpt' dbg' (upd_slot u) (upd_store_hash u) True nw"
  shows "\<exists>first second runs. runs = [(forget_storage (w_proof_inputs w), first), (forget_storage (w_proof_inputs nw), second)]
     \<and> hash_chained lc h runs
     \<and> co_output_slot first = w_input_slot nw \<and> slot < co_output_slot first
     \<and> co_output_slot first < co_output_slot second
     \<and> (store_collision lc (pi_store (w_proof_inputs w)) runs \<or>
        (\<exists>s. accepted lc (pi_store (w_proof_inputs w)) (run_log runs) s
           \<and> sha256_hash_helios_store lc s = Ok (w_expected_output_store_hash nw)))"
proof -
  from assms(2) have u: "u = \<lparr>upd_slot = w_expected_output_slot w, upd_store_hash = w_expected_output_store_hash w\<rparr>"
    by (simp add: stage_transition_proof_Ok split: if_splits)
  from provable_window_consensus [OF assms(1)] obtain first where
    first: "consensus_program lc (forget_storage (w_proof_inputs w)) = Ok first" "co_input_store_hash first = h"
      "co_output_slot first = w_expected_output_slot w" "co_output_store_hash first = w_expected_output_store_hash w"
      "slot < co_output_slot first"
    and start: "sha256_hash_helios_store lc (pi_store (w_proof_inputs w)) = Ok h"
    by (auto simp: forget_storage_def)
  from provable_window_consensus [OF assms(3)] u obtain second where
    second: "consensus_program lc (forget_storage (w_proof_inputs nw)) = Ok second"
      "co_input_store_hash second = w_expected_output_store_hash w"
      "co_output_store_hash second = w_expected_output_store_hash nw"
      "w_expected_output_slot w < co_output_slot second"
    by auto
  from assms(3) u have meet: "w_input_slot nw = w_expected_output_slot w" by (simp add: provable_window_def)
  let ?runs = "[(forget_storage (w_proof_inputs w), first), (forget_storage (w_proof_inputs nw), second)]"
  have chained: "hash_chained lc h ?runs" using first second by simp
  from chained_runs_accepted [OF start chained] second(3)
  have "store_collision lc (pi_store (w_proof_inputs w)) ?runs \<or>
      (\<exists>s. accepted lc (pi_store (w_proof_inputs w)) (run_log ?runs) s
         \<and> sha256_hash_helios_store lc s = Ok (w_expected_output_store_hash nw))"
    by (auto simp del: run_log_simps)
  with chained first second meet show ?thesis by (intro exI [of _ first] exI [of _ second]) (simp del: run_log_simps hash_chained.simps)
qed

theorem window_behind_staged_one_continues_it_witness:
  "\<exists>first second. hash_chained demo_light_client 32
      [(forget_storage demo_proof_inputs, first), (forget_storage (w_proof_inputs demo_next_window), second)]
     \<and> co_output_slot first = 64 \<and> 64 < co_output_slot second"
proof -
  have window: "provable_window demo_light_client demo_mpt_env False 32 32 True demo_prepared_window"
    using prepared_window_provable [OF demo_contracts_hold demo_preparation_runs] by (simp add: demo_preparation_defs)
  have staged: "stage_transition_proof 0 demo_prepared_window demo_event_loop
      = (Ok (ls_loop demo_staged, hd (ls_workers demo_staged), Some \<lparr>upd_slot = 64, upd_store_hash = 64\<rparr>) :: (string, _) outcome)"
    by (simp add: stage_transition_proof_Ok demo_staged_def)
      (simp add: demo_event_loop_def new_event_loop_def demo_prepared_window_def)
  have windows: "w_proof_inputs demo_prepared_window = demo_proof_inputs" "w_input_slot demo_next_window = 64"
    by (simp_all add: demo_prepared_window_def demo_next_window_def)
  have "provable_window demo_light_client demo_mpt_env False (upd_slot \<lparr>upd_slot = 64, upd_store_hash = 64\<rparr>)
      (upd_store_hash \<lparr>upd_slot = 64, upd_store_hash = 64\<rparr>) True demo_next_window"
    using demo_next_provable by simp
  from window_behind_staged_one_continues_it [OF window staged this] show ?thesis
    unfolding windows by metis
qed

end
